(* ===== verification/Prelude.thy ===== *)
theory Prelude
  imports Main "HOL-Library.Sublist" "HOL-Library.AList"
begin

text \<open>
  The part of Python's string, list and dict behaviour that the code relies on, shared by
  every component. A Python \<^verbatim>\<open>str\<close> is a \<^typ>\<open>string\<close> (byte string, as in Python 2); a dict from
  strings to strings is an association list with distinct keys. The functions are executable
  and named after the Python operation they stand for. The lemma collection \<open>str_simps\<close>
  unfolds the string predicates.
\<close>

named_theorems str_simps

type_synonym dict = "(string \<times> string) list"

section \<open>Characters\<close>

definition code :: "char \<Rightarrow> nat" where
  "code c = of_char c"

definition is_digit :: "char \<Rightarrow> bool" where
  [str_simps]: "is_digit c \<longleftrightarrow> 48 \<le> code c \<and> code c \<le> 57"

definition is_upper :: "char \<Rightarrow> bool" where
  [str_simps]: "is_upper c \<longleftrightarrow> 65 \<le> code c \<and> code c \<le> 90"

definition is_lower :: "char \<Rightarrow> bool" where
  [str_simps]: "is_lower c \<longleftrightarrow> 97 \<le> code c \<and> code c \<le> 122"

definition is_alnum :: "char \<Rightarrow> bool" where
  [str_simps]: "is_alnum c \<longleftrightarrow> is_digit c \<or> is_upper c \<or> is_lower c"

definition is_space :: "char \<Rightarrow> bool" where
  [str_simps]: "is_space c \<longleftrightarrow> code c = 32 \<or> (9 \<le> code c \<and> code c \<le> 13)"

definition lower_char :: "char \<Rightarrow> char" where
  "lower_char c = (if is_upper c then char_of (code c + 32) else c)"

definition upper_char :: "char \<Rightarrow> char" where
  "upper_char c = (if is_lower c then char_of (code c - 32) else c)"

section \<open>Strings\<close>

definition py_lower :: "string \<Rightarrow> string" where
  "py_lower s = map lower_char s"

definition py_upper :: "string \<Rightarrow> string" where
  "py_upper s = map upper_char s"

definition rstrip_by :: "(char \<Rightarrow> bool) \<Rightarrow> string \<Rightarrow> string" where
  "rstrip_by P s = rev (dropWhile P (rev s))"

definition py_strip :: "string \<Rightarrow> string" where
  "py_strip s = rstrip_by is_space (dropWhile is_space s)"

text \<open>\<^verbatim>\<open>s.split(c)\<close> for a one-character separator: always at least one piece.\<close>

fun py_split :: "char \<Rightarrow> string \<Rightarrow> string list" where
  "py_split c [] = [[]]"
| "py_split c (x # xs) =
     (if x = c then [] # py_split c xs
      else (case py_split c xs of [] \<Rightarrow> [[x]] | p # ps \<Rightarrow> (x # p) # ps))"

fun py_join :: "string \<Rightarrow> string list \<Rightarrow> string" where
  "py_join sep [] = []"
| "py_join sep [s] = s"
| "py_join sep (s # t # ss) = s @ sep @ py_join sep (t # ss)"

text \<open>\<^verbatim>\<open>s.replace(c, w)\<close> for a one-character pattern.\<close>

definition py_replace :: "char \<Rightarrow> string \<Rightarrow> string \<Rightarrow> string" where
  "py_replace c w s = concat (map (\<lambda>x. if x = c then w else [x]) s)"

text \<open>\<^verbatim>\<open>pat in s\<close>.\<close>

fun py_in :: "string \<Rightarrow> string \<Rightarrow> bool" where
  "py_in pat [] \<longleftrightarrow> pat = []"
| "py_in pat (x # xs) \<longleftrightarrow> prefix pat (x # xs) \<or> py_in pat xs"

definition py_startswith :: "string \<Rightarrow> string \<Rightarrow> bool" where
  "py_startswith s p \<longleftrightarrow> prefix p s"

definition py_endswith :: "string \<Rightarrow> string \<Rightarrow> bool" where
  "py_endswith s p \<longleftrightarrow> suffix p s"

definition py_isdigit :: "string \<Rightarrow> bool" where
  "py_isdigit s \<longleftrightarrow> s \<noteq> [] \<and> list_all is_digit s"

text \<open>\<^verbatim>\<open>xs[-1]\<close> of a split: a split is never empty, so the read never fails.\<close>

definition last_part :: "char \<Rightarrow> string \<Rightarrow> string" where
  "last_part c s = last (py_split c s)"

section \<open>Numbers and text\<close>

fun nat_str :: "nat \<Rightarrow> string" where
  "nat_str n =
     (if n < 10 then [char_of (48 + n)] else nat_str (n div 10) @ [char_of (48 + n mod 10)])"

declare nat_str.simps [simp del]

definition int_str :: "int \<Rightarrow> string" where
  "int_str i = (if i < 0 then CHR ''-'' # nat_str (nat (- i)) else nat_str (nat i))"

definition digits_value :: "string \<Rightarrow> nat" where
  "digits_value s = foldl (\<lambda>n c. 10 * n + (code c - 48)) 0 s"

text \<open>\<^verbatim>\<open>int(s)\<close>: surrounding blanks, an optional sign, digits; anything else is an error.\<close>

definition py_int :: "string \<Rightarrow> int option" where
  "py_int s =
     (let t = py_strip s in
      if py_isdigit t then Some (int (digits_value t))
      else (case t of
          [] \<Rightarrow> None
        | c # ds \<Rightarrow>
            if c = CHR ''-'' \<and> py_isdigit ds then Some (- int (digits_value ds))
            else if c = CHR ''+'' \<and> py_isdigit ds then Some (int (digits_value ds))
            else None))"

text \<open>\<^verbatim>\<open>str(x)\<close> of a value that may be \<^verbatim>\<open>None\<close>.\<close>

definition str_opt :: "string option \<Rightarrow> string" where
  "str_opt v = (case v of None \<Rightarrow> ''None'' | Some s \<Rightarrow> s)"

text \<open>Python's truth value of a string that may be \<^verbatim>\<open>None\<close>.\<close>

definition truthy :: "string option \<Rightarrow> bool" where
  "truthy v \<longleftrightarrow> (case v of None \<Rightarrow> False | Some s \<Rightarrow> s \<noteq> [])"

section \<open>repr of a list of strings\<close>

definition hex_digit :: "nat \<Rightarrow> char" where
  "hex_digit n = (if n < 10 then char_of (48 + n) else char_of (87 + n))"

definition repr_char :: "char \<Rightarrow> char \<Rightarrow> string" where
  "repr_char q c =
     (if c = q \<or> c = CHR 0x5C then [CHR 0x5C, c]
      else if code c = 9 then [CHR 0x5C, CHR ''t'']
      else if code c = 10 then [CHR 0x5C, CHR ''n'']
      else if code c = 13 then [CHR 0x5C, CHR ''r'']
      else if code c < 32 \<or> 127 \<le> code c
        then [CHR 0x5C, CHR ''x'', hex_digit (code c div 16), hex_digit (code c mod 16)]
      else [c])"

definition py_repr :: "string \<Rightarrow> string" where
  "py_repr s =
     (let q = (if CHR 0x27 \<in> set s \<and> CHR 0x22 \<notin> set s then CHR 0x22 else CHR 0x27)
      in q # concat (map (repr_char q) s) @ [q])"

definition py_repr_list :: "string list \<Rightarrow> string" where
  "py_repr_list xs = ''['' @ py_join '', '' (map py_repr xs) @ '']''"

section \<open>Lemmas on strings\<close>

lemma py_split_not_Nil [simp]: "py_split c s \<noteq> []"
  by (induction s) (auto split: list.splits)

lemma py_split_no_sep: "c \<notin> set s \<Longrightarrow> py_split c s = [s]"
  by (induction s) auto

lemma py_split_pieces: "p \<in> set (py_split c s) \<Longrightarrow> c \<notin> set p"
  by (induction s arbitrary: p) (auto split: if_splits list.splits)

lemma py_join_split [simp]: "py_join [c] (py_split c s) = s"
proof (induction s)
  case (Cons x s)
  then show ?case
    by (cases "py_split c s"; cases "tl (py_split c s)") (auto split: list.splits)
qed simp

lemma py_split_append_sep: "c \<notin> set p \<Longrightarrow> py_split c (p @ c # s) = p # py_split c s"
  by (induction p) auto

lemma py_split_join:
  "xs \<noteq> [] \<Longrightarrow> (\<forall>x \<in> set xs. c \<notin> set x) \<Longrightarrow> py_split c (py_join [c] xs) = xs"
  by (induction "[c]" xs rule: py_join.induct) (auto simp: py_split_no_sep py_split_append_sep)

lemma py_split_append: "py_split c (p @ c # s) = py_split c p @ py_split c s"
  by (induction p) (auto split: list.splits)

lemma last_part_append: "last_part c (p @ c # s) = last_part c s"
  by (simp add: last_part_def py_split_append)

lemma last_part_idle: "c \<notin> set s \<Longrightarrow> last_part c s = s"
  by (simp add: last_part_def py_split_no_sep)

lemma last_part_no_sep: "c \<notin> set (last_part c s)"
  using py_split_pieces [of "last (py_split c s)" c s] by (simp add: last_part_def)

lemma py_in_iff: "py_in pat s \<longleftrightarrow> (\<exists>a b. s = a @ pat @ b)"
proof (induction s)
  case (Cons x s)
  have "(\<exists>a b. x # s = a @ pat @ b) \<longleftrightarrow> prefix pat (x # s) \<or> (\<exists>a b. s = a @ pat @ b)"
    (is "?l = ?r")
  proof
    assume ?l
    then obtain a b where ab: "x # s = a @ pat @ b" by blast
    show ?r
    proof (cases a)
      case Nil
      with ab show ?thesis by (auto simp: prefix_def)
    next
      case (Cons y a')
      with ab show ?thesis by auto
    qed
  next
    assume ?r
    then show ?l
    proof
      assume "prefix pat (x # s)"
      then obtain b where "x # s = [] @ pat @ b" by (auto simp: prefix_def)
      then show ?l by blast
    next
      assume "\<exists>a b. s = a @ pat @ b"
      then obtain a b where "x # s = (x # a) @ pat @ b" by auto
      then show ?l by blast
    qed
  qed
  with Cons show ?case by simp
qed simp

lemma py_in_appendI: "py_in p (a @ p @ b)"
  by (auto simp: py_in_iff)

lemma py_in_trans: "py_in p q \<Longrightarrow> py_in q r \<Longrightarrow> py_in p r"
  unfolding py_in_iff by (metis append.assoc)

lemma set_py_replace: "x \<in> set (py_replace c w s) \<Longrightarrow> x \<in> set w \<or> (x \<in> set s \<and> x \<noteq> c)"
  by (auto simp: py_replace_def split: if_splits)

lemma py_replace_append [simp]: "py_replace c w (s @ t) = py_replace c w s @ py_replace c w t"
  by (simp add: py_replace_def)

lemma py_replace_idle: "c \<notin> set s \<Longrightarrow> py_replace c w s = s"
  by (induction s) (auto simp: py_replace_def)

lemma py_replace_empty_filter: "py_replace c [] s = filter (\<lambda>x. x \<noteq> c) s"
  by (induction s) (auto simp: py_replace_def)

lemma length_py_lower [simp]: "length (py_lower s) = length s"
  by (simp add: py_lower_def)

lemma rstrip_by_prefix: "prefix (rstrip_by P s) s"
  unfolding rstrip_by_def
  by (metis rev_rev_ident suffix_dropWhile suffix_to_prefix rev_swap)

lemma rstrip_by_idle: "s = [] \<or> \<not> P (last s) \<Longrightarrow> rstrip_by P s = s"
  by (cases s rule: rev_cases) (auto simp: rstrip_by_def)

lemma py_endswith_rev [str_simps]: "py_endswith s p \<longleftrightarrow> prefix (rev p) (rev s)"
  by (simp add: py_endswith_def suffix_to_prefix)

lemma code_char_of [simp]: "n < 256 \<Longrightarrow> code (char_of n) = n"
  by (simp add: code_def)

lemma code_less [simp]: "code c < 256"
  by (simp add: code_def)

lemma code_eq_iff: "code c = code d \<longleftrightarrow> c = d"
  by (simp add: code_def)

section \<open>Lists of results\<close>

text \<open>\<^verbatim>\<open>[f(x) for x in xs]\<close> where \<open>f\<close> may raise: the first exception is the result.\<close>

fun collect :: "('a \<Rightarrow> 'e + 'b) \<Rightarrow> 'a list \<Rightarrow> 'e + 'b list" where
  "collect f [] = Inr []"
| "collect f (x # xs) = (case f x of
     Inl e \<Rightarrow> Inl e
   | Inr y \<Rightarrow> (case collect f xs of Inl e \<Rightarrow> Inl e | Inr ys \<Rightarrow> Inr (y # ys)))"

lemma collect_Inr_iff: "collect f xs = Inr ys \<longleftrightarrow> list_all2 (\<lambda>x y. f x = Inr y) xs ys"
proof (induction xs arbitrary: ys)
  case (Cons x xs)
  then show ?case
    by (cases ys; cases "f x"; cases "collect f xs") (auto split: sum.splits)
qed auto

lemma collect_map: "(\<And>x. x \<in> set xs \<Longrightarrow> f (g x) = Inr (h x)) \<Longrightarrow> collect f (map g xs) = Inr (map h xs)"
  by (induction xs) auto

lemma find_filter: "find P xs = (case filter P xs of [] \<Rightarrow> None | x # _ \<Rightarrow> Some x)"
  by (induction xs) auto

end
