(* ===== verification/AzureModel.thy ===== *)
theory AzureModel
  imports Prelude
begin

text \<open>
  The data of the system: exceptions, the model classes under \<^verbatim>\<open>models/\<close>, the fields the code
  reads and writes of the Azure SDK objects, and the calls the code makes to whatever lies
  outside it (\<open>request\<close>) with the values that come back (\<open>resp\<close>). What a call answers is
  never defined here: every run of a program may get any answer (see \<open>Prog\<close>).
\<close>

section \<open>Exceptions\<close>

text \<open>
  \<open>CloudError reason message error\<close> carries \<^verbatim>\<open>e.response.reason\<close>, \<^verbatim>\<open>e.message\<close> and
  \<^verbatim>\<open>str(e.error)\<close>. \<open>PyException\<close> is a bare \<^verbatim>\<open>Exception(msg)\<close>.
\<close>

datatype exn =
    CloudError string string string
  | ClientRequestError string
  | UrllibConnectionError string
  | AuthenticationError string
  | AddrFormatError string
  | CancellationException string
  | QualiTimeoutException
  | QualiScriptExecutionTimeoutException string
  | AutoloadException string
  | ValidationError string
  | VirtualNetworkNotFoundException string
  | ValueError string
  | TypeError string
  | AttributeError string
  | IndexError
  | KeyError string
  | StopIteration
  | PyException string

text \<open>\<^verbatim>\<open>e.message\<close> as Python 2 gives it: the only argument, or the empty string.\<close>

fun exn_message :: "exn \<Rightarrow> string" where
  "exn_message (CloudError _ m _) = m"
| "exn_message (ClientRequestError m) = m"
| "exn_message (UrllibConnectionError m) = m"
| "exn_message (AuthenticationError m) = m"
| "exn_message (AddrFormatError m) = m"
| "exn_message (CancellationException m) = m"
| "exn_message QualiTimeoutException = []"
| "exn_message (QualiScriptExecutionTimeoutException m) = m"
| "exn_message (AutoloadException m) = m"
| "exn_message (ValidationError m) = m"
| "exn_message (VirtualNetworkNotFoundException m) = m"
| "exn_message (ValueError m) = m"
| "exn_message (TypeError m) = m"
| "exn_message (AttributeError m) = m"
| "exn_message IndexError = ''list index out of range''"
| "exn_message (KeyError m) = m"
| "exn_message StopIteration = []"
| "exn_message (PyException m) = m"

fun exn_class :: "exn \<Rightarrow> string" where
  "exn_class (CloudError _ _ _) = ''CloudError''"
| "exn_class (ClientRequestError _) = ''ClientRequestError''"
| "exn_class (UrllibConnectionError _) = ''ConnectionError''"
| "exn_class (AuthenticationError _) = ''AuthenticationError''"
| "exn_class (AddrFormatError _) = ''AddrFormatError''"
| "exn_class (CancellationException _) = ''CancellationException''"
| "exn_class QualiTimeoutException = ''QualiTimeoutException''"
| "exn_class (QualiScriptExecutionTimeoutException _) = ''QualiScriptExecutionTimeoutException''"
| "exn_class (AutoloadException _) = ''AutoloadException''"
| "exn_class (ValidationError _) = ''ValidationError''"
| "exn_class (VirtualNetworkNotFoundException _) = ''VirtualNetworkNotFoundException''"
| "exn_class (ValueError _) = ''ValueError''"
| "exn_class (TypeError _) = ''TypeError''"
| "exn_class (AttributeError _) = ''AttributeError''"
| "exn_class IndexError = ''IndexError''"
| "exn_class (KeyError _) = ''KeyError''"
| "exn_class StopIteration = ''StopIteration''"
| "exn_class (PyException _) = ''Exception''"

text \<open>Reading an attribute of \<^verbatim>\<open>None\<close>.\<close>

definition quoted :: "string \<Rightarrow> string" where
  "quoted s = CHR 0x27 # s @ [CHR 0x27]"

definition none_attribute :: "string \<Rightarrow> exn" where
  "none_attribute a =
     AttributeError (quoted ''NoneType'' @ '' object has no attribute '' @ quoted a)"

section \<open>Rules for inbound traffic\<close>

text \<open>
  The enumerations of the Azure SDK the code compares with or passes on: the constructor
  stands for the SDK's constant (\<^verbatim>\<open>SecurityRuleProtocol.asterisk\<close>,
  \<^verbatim>\<open>RouteNextHopType.internet\<close>, \<^verbatim>\<open>SecurityRuleAccess.allow\<close>, ...), the other one for a
  plain string.
\<close>

datatype protocol = AnyProtocol | Proto string
datatype address = InternetHop | Addr string
datatype access = AccessAllow | AccessDeny | AccessText string
datatype ip_allocation = StaticAllocation | DynamicAllocation
datatype os_type = Windows | Linux
datatype storage_type = StandardLRS | PremiumLRS

text \<open>\<^verbatim>\<open>models/rule_data.py\<close> and \<^verbatim>\<open>models/port_data.py\<close>. Ports are the strings the parsers cut out.\<close>

record rule_data =
  rd_access :: access
  rd_protocol :: protocol
  rd_port :: "string option"
  rd_from_port :: "string option"
  rd_to_port :: "string option"
  rd_name :: "string option"

record port_data =
  pd_from_port :: string
  pd_to_port :: string
  pd_protocol :: protocol
  pd_destination :: "string option"
  pd_source :: address
  pd_name :: "string option"

text \<open>What a caller may hand over as a rule: the two model classes, or any other object.\<close>

datatype inbound_rule = ARule rule_data | APort port_data | AnotherObject

record security_rule =
  sr_name :: string
  sr_access :: access
  sr_direction :: string
  sr_source_address_prefix :: address
  sr_source_port_range :: string
  sr_destination_address_prefix :: string
  sr_destination_port_range :: string
  sr_priority :: int
  sr_protocol :: protocol

record nsg =
  nsg_name :: string
  nsg_id :: string
  nsg_security_rules :: "security_rule list"

section \<open>Networks\<close>

record subnet =
  sn_name :: string
  sn_id :: string
  sn_address_prefix :: string
  sn_network_security_group :: "nsg option"
  sn_route_table :: "string option"
  sn_ip_configurations :: "string list option"  \<comment> \<open>the ids of the ip configurations\<close>

text \<open>
  The subnet object of a \<^verbatim>\<open>create_or_update\<close>: either a new one with only a prefix and an NSG, or
  one that was read from Azure and changed.
\<close>

datatype subnet_parameters = NewSubnet string "nsg option" | UpdatedSubnet subnet

record vnet =
  vn_name :: string
  vn_tags :: "dict option"
  vn_address_prefixes :: "string list"
  vn_subnets :: "subnet list"

record public_ip =
  pip_id :: string
  pip_ip_address :: string
  pip_allocation_method :: string

record ip_configuration =
  ipc_private_ip_address :: string
  ipc_private_ip_allocation_method :: ip_allocation
  ipc_public_ip_address :: "string option"  \<comment> \<open>the id of the public ip resource\<close>
  ipc_subnet_id :: string

record nic =
  nic_name :: string
  nic_id :: string
  nic_mac_address :: string
  nic_resource_guid :: string
  nic_primary :: bool
  nic_ip_configurations :: "ip_configuration list"
  nic_network_security_group_id :: string

record nic_parameters =
  np_location :: string
  np_network_security_group :: "nsg option"
  np_private_ip_allocation_method :: ip_allocation
  np_subnet :: subnet
  np_private_ip_address :: "string option"
  np_public_ip_address :: "public_ip option"
  np_enable_ip_forwarding :: bool
  np_tags :: dict

record route =
  route_name :: string
  route_address_prefix :: string
  route_next_hop_type :: string
  route_next_hop_address :: string

section \<open>Virtual machines\<close>

record nic_ref =
  nr_id :: string
  nr_primary :: bool

record os_disk =
  od_name :: string
  od_vhd_uri :: "string option"
  od_managed_disk :: "storage_type option option"  \<comment> \<open>\<open>Some t\<close>: a managed disk of type \<open>t\<close>\<close>
  od_os_type :: string

record image_reference =
  ir_id :: string
  ir_publisher :: string
  ir_offer :: string
  ir_sku :: string

record vm =
  vm_name :: string
  vm_uuid :: string
  vm_provisioning_state :: string
  vm_network_interfaces :: "nic_ref list"
  vm_os_disk :: os_disk
  vm_image_reference :: image_reference
  vm_vm_size :: string

record plan =
  plan_name :: string
  plan_publisher :: string
  plan_product :: string

record authorized_key =
  ak_path_to_key :: string
  ak_key_data :: string

record vm_credentials =
  vc_admin_username :: string
  vc_admin_password :: "string option"
  vc_ssh_key :: "authorized_key option"

record ssh_key =
  sk_private_key :: string
  sk_public_key :: string

datatype image_source =
    CustomImage string  \<comment> \<open>the image id\<close>
  | MarketplaceImage string string string string  \<comment> \<open>publisher, offer, sku, version\<close>

record vm_parameters =
  vp_location :: string
  vp_tags :: dict
  vp_admin_username :: string
  vp_admin_password :: "string option"
  vp_linux_key :: "authorized_key option"
  vp_computer_name :: string
  vp_vm_size :: string
  vp_network_interfaces :: "nic_ref list"
  vp_disk_size_gb :: "int option"
  vp_storage_account_type :: "storage_type option"
  vp_image :: image_source
  vp_plan :: "plan option"

record extension_parameters =
  ep_location :: string
  ep_publisher :: string
  ep_type :: string
  ep_version :: string
  ep_file_uris :: "string list"
  ep_command :: string
  ep_tags :: dict

end
