(* ===== verification/RuleParsers.thy ===== *)
theory RuleParsers
  imports AzureModel
begin

text \<open>
  The parsers of inbound port rules: \<^verbatim>\<open>common/parsers/rules_attribute_parser.py\<close>,
  \<^verbatim>\<open>common/parsers/port_group_attribute_parser.py\<close>, \<^verbatim>\<open>common/parsers/security_group_parser.py\<close>,
  \<^verbatim>\<open>models/rule_data.py\<close> and \<^verbatim>\<open>domain/vm_management/operations/app_ports_operation.py\<close>. The
  four regular expressions are matchers that return the groups. The lemmas show which strings
  parse, that parsing undoes printing and that what parses is well formed.
\<close>

section \<open>The regular expressions\<close>

text \<open>\<^verbatim>\<open>$\<close> matches at the end and before a newline at the end.\<close>

definition before_end :: "string \<Rightarrow> string" where
  "before_end s = (if s \<noteq> [] \<and> last s = CHR 0x0A then butlast s else s)"

text \<open>\<^verbatim>\<open>\d+\<close>: the digits at the front and what follows them.\<close>

definition match_digits :: "string \<Rightarrow> (string \<times> string) option" where
  "match_digits s = (case takeWhile is_digit s of
     [] \<Rightarrow> None
   | d # ds \<Rightarrow> Some (d # ds, dropWhile is_digit s))"

text \<open>\<^verbatim>\<open>(udp|tcp)\<close> up to the end, with or without \<^verbatim>\<open>re.IGNORECASE\<close>.\<close>

definition is_port_protocol :: "bool \<Rightarrow> string \<Rightarrow> bool" where
  "is_port_protocol ignorecase p \<longleftrightarrow>
     (let q = (if ignorecase then py_lower p else p) in q = ''udp'' \<or> q = ''tcp'')"

text \<open>\<^verbatim>\<open>^((?P<from_port>\d+)-(?P<to_port>\d+):(?P<protocol>(udp|tcp)))$\<close>\<close>

definition match_from_to_protocol :: "bool \<Rightarrow> string \<Rightarrow> (string \<times> string \<times> string) option" where
  "match_from_to_protocol ignorecase s = (case match_digits (before_end s) of
     Some (from_port, c # r) \<Rightarrow>
       if c = CHR ''-'' then (case match_digits r of
         Some (to_port, c' # p) \<Rightarrow>
           if c' = CHR '':'' \<and> is_port_protocol ignorecase p then Some (from_port, to_port, p)
           else None
       | _ \<Rightarrow> None) else None
   | _ \<Rightarrow> None)"

text \<open>\<^verbatim>\<open>^((?P<from_port>\d+):(?P<protocol>(udp|tcp)))$\<close>\<close>

definition match_from_protocol :: "bool \<Rightarrow> string \<Rightarrow> (string \<times> string) option" where
  "match_from_protocol ignorecase s = (case match_digits (before_end s) of
     Some (from_port, c # p) \<Rightarrow>
       if c = CHR '':'' \<and> is_port_protocol ignorecase p then Some (from_port, p) else None
   | _ \<Rightarrow> None)"

text \<open>\<^verbatim>\<open>^((?P<from_port>\d+)-(?P<to_port>\d+))$\<close>\<close>

definition match_from_to :: "string \<Rightarrow> (string \<times> string) option" where
  "match_from_to s = (case match_digits (before_end s) of
     Some (from_port, c # r) \<Rightarrow>
       if c = CHR ''-'' then (case match_digits r of
         Some (to_port, []) \<Rightarrow> Some (from_port, to_port)
       | _ \<Rightarrow> None) else None
   | _ \<Rightarrow> None)"

text \<open>\<^verbatim>\<open>^((?P<from_port>\d+))$\<close>\<close>

definition match_port :: "string \<Rightarrow> string option" where
  "match_port s = (case match_digits (before_end s) of Some (port, []) \<Rightarrow> Some port | _ \<Rightarrow> None)"

definition invalid_ports_rule :: "string \<Rightarrow> exn" where
  "invalid_ports_rule s =
     ValueError (''The value '' @ quoted s @ '' is not a valid ports rule'')"

section \<open>RuleData and RulesAttributeParser\<close>

text \<open>\<^verbatim>\<open>RuleData(protocol, port, from_port, to_port, access='Allow', name=None)\<close>\<close>

definition rule_data_init ::
  "protocol \<Rightarrow> string option \<Rightarrow> string option \<Rightarrow> string option \<Rightarrow> access \<Rightarrow> string option \<Rightarrow> rule_data"
where
  "rule_data_init protocol port from_port to_port access name =
     \<lparr>rd_access = access, rd_protocol = protocol, rd_port = port, rd_from_port = from_port,
      rd_to_port = to_port, rd_name = name\<rparr>"

text \<open>The property \<^verbatim>\<open>RuleData.port_range\<close>.\<close>

definition rule_port_range :: "rule_data \<Rightarrow> string" where
  "rule_port_range rd =
     (if truthy (rd_port rd) then the (rd_port rd)
      else str_opt (rd_from_port rd) @ ''-'' @ str_opt (rd_to_port rd))"

definition rules_single_port_parse :: "string \<Rightarrow> exn + rule_data" where
  "rules_single_port_parse ports_attribute =
     (case match_from_to_protocol True ports_attribute of
       Some (from_port, to_port, p) \<Rightarrow>
         Inr (rule_data_init (Proto (py_lower p)) None (Some from_port) (Some to_port)
           (AccessText ''Allow'') None)
     | None \<Rightarrow>
     (case match_from_protocol True ports_attribute of
       Some (port, p) \<Rightarrow>
         Inr (rule_data_init (Proto (py_lower p)) (Some port) None None (AccessText ''Allow'') None)
     | None \<Rightarrow>
     (case match_from_to ports_attribute of
       Some (from_port, to_port) \<Rightarrow>
         Inr (rule_data_init (Proto ''tcp'') None (Some from_port) (Some to_port)
           (AccessText ''Allow'') None)
     | None \<Rightarrow>
     (case match_port ports_attribute of
       Some port \<Rightarrow>
         Inr (rule_data_init (Proto ''tcp'') (Some port) None None (AccessText ''Allow'') None)
     | None \<Rightarrow> Inl (invalid_ports_rule ports_attribute)))))"

definition rules_parse_port_group_attribute :: "string \<Rightarrow> exn + rule_data list" where
  "rules_parse_port_group_attribute ports_attribute =
     (let splitted_ports = filter (\<lambda>p. p \<noteq> []) (py_split CHR '';'' (py_strip ports_attribute))
      in collect (\<lambda>port. rules_single_port_parse (py_strip port)) splitted_ports)"

section \<open>PortData and PortGroupAttributeParser\<close>

text \<open>\<^verbatim>\<open>PortData(from_port, to_port, protocol, destination=None, source=RouteNextHopType.internet)\<close>\<close>

definition port_data_init ::
  "string \<Rightarrow> string \<Rightarrow> protocol \<Rightarrow> string option \<Rightarrow> address \<Rightarrow> port_data"
where
  "port_data_init from_port to_port protocol destination source =
     \<lparr>pd_from_port = from_port, pd_to_port = to_port, pd_protocol = protocol,
      pd_destination = destination, pd_source = source, pd_name = None\<rparr>"

definition group_single_port_parse :: "string \<Rightarrow> exn + port_data" where
  "group_single_port_parse ports_attribute =
     (let destination = Some ''0.0.0.0/0'' in
     (case match_from_to_protocol False ports_attribute of
       Some (from_port, to_port, p) \<Rightarrow>
         Inr (port_data_init from_port to_port (Proto p) destination InternetHop)
     | None \<Rightarrow>
     (case match_from_protocol False ports_attribute of
       Some (port, p) \<Rightarrow> Inr (port_data_init port port (Proto p) destination InternetHop)
     | None \<Rightarrow>
     (case match_from_to ports_attribute of
       Some (from_port, to_port) \<Rightarrow>
         Inr (port_data_init from_port to_port (Proto ''tcp'') destination InternetHop)
     | None \<Rightarrow>
     (case match_port ports_attribute of
       Some port \<Rightarrow> Inr (port_data_init port port (Proto ''tcp'') destination InternetHop)
     | None \<Rightarrow> Inl (invalid_ports_rule ports_attribute))))))"

text \<open>\<open>Inr None\<close> is the \<^verbatim>\<open>None\<close> returned for an attribute that is empty or \<^verbatim>\<open>None\<close>.\<close>

definition group_parse_port_group_attribute :: "string option \<Rightarrow> exn + port_data list option" where
  "group_parse_port_group_attribute ports_attribute =
     (if truthy ports_attribute then
        (case collect (\<lambda>port. group_single_port_parse (py_strip port))
            (filter (\<lambda>p. p \<noteq> []) (py_split CHR '';'' (py_strip (the ports_attribute)))) of
          Inl e \<Rightarrow> Inl e
        | Inr ports \<Rightarrow> Inr (Some ports))
      else Inr None)"

text \<open>The rules of a security group configuration as the JSON request has them.\<close>

record group_rule =
  gr_from_port :: string
  gr_to_port :: string
  gr_protocol :: string
  gr_source :: string

text \<open>A JSON value that should be a list: \<open>None\<close> when it is anything else.\<close>

definition parse_security_group_rules_to_port_data ::
  "group_rule list option \<Rightarrow> port_data list option"
where
  "parse_security_group_rules_to_port_data rules = (case rules of
     None \<Rightarrow> None
   | Some rs \<Rightarrow>
       (let parsed_data = map (\<lambda>r. port_data_init (gr_from_port r) (gr_to_port r)
            (Proto (gr_protocol r)) None (Addr (gr_source r))) rs
        in if 0 < length parsed_data then Some parsed_data else None))"

record group_configuration_data =
  gc_subnet_id :: string
  gc_rules :: "group_rule list option"

record security_group_configuration =
  sg_subnet_id :: string
  sg_rules :: "port_data list option"

definition parse_security_group_configurations ::
  "group_configuration_data list option \<Rightarrow> security_group_configuration list option"
where
  "parse_security_group_configurations data = (case data of
     None \<Rightarrow> None
   | Some cs \<Rightarrow>
       (let parsed_data = map (\<lambda>c. \<lparr>sg_subnet_id = gc_subnet_id c,
            sg_rules = parse_security_group_rules_to_port_data (gc_rules c)\<rparr>) cs
        in if 0 < length parsed_data then Some parsed_data else None))"

section \<open>The printed form of open ports\<close>

text \<open>\<^verbatim>\<open>VmCustomParamsExtractor.get_custom_param_value\<close>, on names and values.\<close>

definition get_custom_param_value :: "(string \<times> string) list \<Rightarrow> string \<Rightarrow> string option" where
  "get_custom_param_value custom_params name =
     (case filter (\<lambda>p. py_lower (fst p) = py_lower name) custom_params of
        [p] \<Rightarrow> Some (snd p)
      | _ \<Rightarrow> None)"

fun protocol_str :: "protocol \<Rightarrow> string" where
  "protocol_str AnyProtocol = ''*''"
| "protocol_str (Proto p) = p"

definition port_rule_to_string :: "rule_data \<Rightarrow> string" where
  "port_rule_to_string port_rule =
     (if truthy (rd_port port_rule)
      then ''Port '' @ the (rd_port port_rule) @ '' '' @ protocol_str (rd_protocol port_rule)
      else ''Ports '' @ str_opt (rd_from_port port_rule) @ ''-'' @ str_opt (rd_to_port port_rule)
        @ '' '' @ protocol_str (rd_protocol port_rule))"

definition get_formated_deployed_app_ports ::
  "(string \<times> string) list \<Rightarrow> exn + string"
where
  "get_formated_deployed_app_ports custom_params =
     (let inbound_ports_value = get_custom_param_value custom_params ''inbound_ports''
      in if \<not> truthy inbound_ports_value
         then Inr ''No ports are open for inbound traffic outside of the Sandbox''
         else (case rules_parse_port_group_attribute (the inbound_ports_value) of
             Inl e \<Rightarrow> Inl e
           | Inr [] \<Rightarrow> Inr []
           | Inr rules \<Rightarrow>
               Inr (py_join [CHR 0x0A]
                 (''Inbound ports:'' # map port_rule_to_string rules @ [[]]))))"

section \<open>What the parsers accept\<close>

lemma digit_facts [simp]:
  "\<not> is_digit CHR ''-''" "\<not> is_digit CHR '':''" "\<not> is_digit CHR '';''" "\<not> is_digit CHR 0x0A"
  by (simp_all add: str_simps code_def)

lemma match_digits_iff:
  "match_digits s = Some (d, r) \<longleftrightarrow> s = d @ r \<and> py_isdigit d \<and> (r = [] \<or> \<not> is_digit (hd r))"
proof
  assume "match_digits s = Some (d, r)"
  then have "d = takeWhile is_digit s" "r = dropWhile is_digit s" "d \<noteq> []"
    by (auto simp: match_digits_def split: list.splits)
  then show "s = d @ r \<and> py_isdigit d \<and> (r = [] \<or> \<not> is_digit (hd r))"
    using hd_dropWhile [of is_digit s]
    by (auto simp: py_isdigit_def list_all_iff dest: set_takeWhileD)
next
  assume *: "s = d @ r \<and> py_isdigit d \<and> (r = [] \<or> \<not> is_digit (hd r))"
  then have "takeWhile is_digit r = []" "dropWhile is_digit r = r"
    by (cases r; simp)+
  with * have "takeWhile is_digit s = d" "dropWhile is_digit s = r"
    by (simp_all add: py_isdigit_def list_all_iff)
  with * show "match_digits s = Some (d, r)"
    by (auto simp: match_digits_def py_isdigit_def split: list.splits)
qed

lemma match_digits_stop [simp]:
  "py_isdigit d \<Longrightarrow> \<not> is_digit c \<Longrightarrow> match_digits (d @ c # r) = Some (d, c # r)"
  by (simp add: match_digits_iff)

lemma match_digits_all [simp]: "py_isdigit d \<Longrightarrow> match_digits d = Some (d, [])"
  by (simp add: match_digits_iff)

lemma match_from_to_protocol_iff:
  "match_from_to_protocol ic s = Some (a, b, p) \<longleftrightarrow>
     before_end s = a @ ''-'' @ b @ '':'' @ p \<and> py_isdigit a \<and> py_isdigit b \<and> is_port_protocol ic p"
    (is "?l \<longleftrightarrow> ?r")
proof
  show "?l \<Longrightarrow> ?r"
    by (auto simp: match_from_to_protocol_def match_digits_iff split: option.splits list.splits if_splits)
  show "?r \<Longrightarrow> ?l"
    by (simp add: match_from_to_protocol_def)
qed

lemma match_from_protocol_iff:
  "match_from_protocol ic s = Some (a, p) \<longleftrightarrow>
     before_end s = a @ '':'' @ p \<and> py_isdigit a \<and> is_port_protocol ic p" (is "?l \<longleftrightarrow> ?r")
proof
  show "?l \<Longrightarrow> ?r"
    by (auto simp: match_from_protocol_def match_digits_iff split: option.splits list.splits if_splits)
  show "?r \<Longrightarrow> ?l"
    by (simp add: match_from_protocol_def)
qed

lemma match_from_to_iff:
  "match_from_to s = Some (a, b) \<longleftrightarrow>
     before_end s = a @ ''-'' @ b \<and> py_isdigit a \<and> py_isdigit b" (is "?l \<longleftrightarrow> ?r")
proof
  show "?l \<Longrightarrow> ?r"
    by (auto simp: match_from_to_def match_digits_iff split: option.splits list.splits if_splits)
  show "?r \<Longrightarrow> ?l"
    by (simp add: match_from_to_def)
qed

lemma match_port_iff: "match_port s = Some a \<longleftrightarrow> before_end s = a \<and> py_isdigit a"
    (is "?l \<longleftrightarrow> ?r")
proof
  show "?l \<Longrightarrow> ?r"
    by (auto simp: match_port_def match_digits_iff split: option.splits list.splits if_splits)
  show "?r \<Longrightarrow> ?l"
    by (auto simp: match_port_def)
qed

lemmas match_iffs = match_from_to_protocol_iff match_from_protocol_iff match_from_to_iff match_port_iff

text \<open>
  The grammar: the texts that stand for a rule. \<open>port_text\<close> writes a rule the long way, the
  protocol may be left out when it is tcp.
\<close>

definition valid_rule :: "rule_data \<Rightarrow> bool" where
  "valid_rule r \<longleftrightarrow> rd_access r = AccessText ''Allow'' \<and> rd_name r = None \<and>
     (rd_protocol r = Proto ''tcp'' \<or> rd_protocol r = Proto ''udp'') \<and>
     (case (rd_port r, rd_from_port r, rd_to_port r) of
        (Some p, None, None) \<Rightarrow> py_isdigit p
      | (None, Some a, Some b) \<Rightarrow> py_isdigit a \<and> py_isdigit b
      | _ \<Rightarrow> False)"

definition port_text :: "rule_data \<Rightarrow> string" where
  "port_text r = rule_port_range r @ '':'' @ protocol_str (rd_protocol r)"

definition rule_texts :: "rule_data \<Rightarrow> string list" where
  "rule_texts r = port_text r # (if rd_protocol r = Proto ''tcp'' then [rule_port_range r] else [])"

lemma is_port_protocol_True: "is_port_protocol True p \<longleftrightarrow> py_lower p = ''tcp'' \<or> py_lower p = ''udp''"
  by (auto simp: is_port_protocol_def)

lemma lower_digit [simp]: "is_digit c \<Longrightarrow> lower_char c = c"
  by (simp add: lower_char_def str_simps)

lemma py_lower_digits [simp]: "py_isdigit s \<Longrightarrow> py_lower s = s"
  by (simp add: py_lower_def py_isdigit_def list_all_iff map_idI)

lemma py_lower_append [simp]: "py_lower (s @ t) = py_lower s @ py_lower t"
  by (simp add: py_lower_def)

lemma lower_char_idle: "\<not> is_lower c \<Longrightarrow> \<not> is_upper c \<Longrightarrow> lower_char x = c \<longleftrightarrow> x = c"
proof (cases "is_upper x")
  case True
  assume "\<not> is_lower c" "\<not> is_upper c"
  moreover from True have "is_lower (lower_char x)"
    by (simp add: lower_char_def str_simps)
  ultimately show ?thesis using True by auto
qed (auto simp: lower_char_def)

lemma py_lower_Cons_eq:
  "\<not> is_lower c \<Longrightarrow> \<not> is_upper c \<Longrightarrow> py_lower t = c # u \<longleftrightarrow> (\<exists>v. t = c # v \<and> py_lower v = u)"
  by (cases t) (auto simp: py_lower_def lower_char_idle)

lemma digit_not_letter [simp]: "is_digit c \<Longrightarrow> \<not> is_lower c" "is_digit c \<Longrightarrow> \<not> is_upper c"
  by (simp_all add: str_simps)

lemma dash_not_letter [simp]:
  "\<not> is_lower CHR ''-''" "\<not> is_upper CHR ''-''" "\<not> is_lower CHR '':''" "\<not> is_upper CHR '':''"
  by (simp_all add: str_simps code_def)

lemma py_lower_digits_eq:
  "list_all is_digit d \<Longrightarrow> py_lower t = d @ u \<longleftrightarrow> (\<exists>v. t = d @ v \<and> py_lower v = u)"
  by (induction d arbitrary: t) (auto simp: py_lower_Cons_eq)

lemma py_isdigitD: "py_isdigit d \<Longrightarrow> list_all is_digit d"
  by (simp add: py_isdigit_def)

lemmas lower_eqs = py_lower_digits_eq [OF py_isdigitD] py_lower_Cons_eq

lemma py_lower_digits_end: "py_isdigit d \<Longrightarrow> py_lower t = d \<longleftrightarrow> t = d"
  using py_lower_digits_eq [OF py_isdigitD, of d t "[]"] by (simp add: py_lower_def)

lemma truthy_digits [simp]: "py_isdigit d \<Longrightarrow> truthy (Some d)"
  by (auto simp: truthy_def py_isdigit_def)

lemma truthy_None [simp]: "\<not> truthy None"
  by (simp add: truthy_def)

lemma single_port_range:
  assumes "before_end s = a @ CHR ''-'' # b @ r" "py_isdigit a" "py_isdigit b" "r = [] \<or> \<not> is_digit (hd r)"
  shows "match_from_protocol ic s = None" "match_port s = None"
    "r = [] \<Longrightarrow> match_from_to_protocol ic s = None"
  using assms by (auto simp: match_from_protocol_def match_port_def match_from_to_protocol_def)

lemma single_port:
  assumes "before_end s = a @ r" "py_isdigit a" "r = [] \<or> hd r = CHR '':''"
  shows "match_from_to_protocol ic s = None" "match_from_to s = None"
    "r = [] \<Longrightarrow> match_from_protocol ic s = None"
  using assms
  by (cases r; auto simp: match_from_protocol_def match_from_to_def match_from_to_protocol_def)+

lemma rules_parse_sound:
  assumes "rules_single_port_parse s = Inr r"
  shows "valid_rule r \<and> py_lower (before_end s) \<in> set (rule_texts r)"
proof -
  have low: "py_lower (a # u) = lower_char a # py_lower u" for a u by (simp add: py_lower_def)
  have colon: "lower_char CHR '':'' = CHR '':''" "lower_char CHR ''-'' = CHR ''-''"
    by (simp_all add: lower_char_def)
  from assms show ?thesis
    by (auto simp: rules_single_port_parse_def match_iffs valid_rule_def rule_texts_def port_text_def
        rule_data_init_def rule_port_range_def str_opt_def low colon is_port_protocol_True
        split: option.splits if_splits)
qed

text \<open>A rule for a range of ports, and one for a single port.\<close>

lemma range_parse_complete:
  assumes "valid_rule r" "py_lower (before_end s) \<in> set (rule_texts r)" and None: "rd_port r = None"
  shows "rules_single_port_parse s = Inr r"
proof -
  from assms(1) None obtain a b where ab: "rd_from_port r = Some a" "rd_to_port r = Some b"
      "py_isdigit a" "py_isdigit b"
    by (auto simp: valid_rule_def split: option.splits)
  let ?p = "protocol_str (rd_protocol r)"
  have range: "rule_port_range r = a @ CHR ''-'' # b"
    using None ab by (simp add: rule_port_range_def truthy_def str_opt_def)
  from assms(2) consider
      (long) v where "before_end s = a @ CHR ''-'' # b @ CHR '':'' # v" "py_lower v = ?p"
    | (short) "before_end s = a @ CHR ''-'' # b" "rd_protocol r = Proto ''tcp''"
    using ab by (auto simp: rule_texts_def port_text_def range lower_eqs py_lower_digits_end split: if_splits)
  then show ?thesis
  proof cases
    case long
    with assms(1) have "match_from_to_protocol True s = Some (a, b, v)"
      using ab by (auto simp: match_from_to_protocol_iff is_port_protocol_True valid_rule_def)
    then show ?thesis
      using assms(1) None ab long by (auto simp: rules_single_port_parse_def rule_data_init_def valid_rule_def)
  next
    case short
    then have "match_from_to s = Some (a, b)" "match_from_to_protocol True s = None" "match_from_protocol True s = None"
      using ab single_port_range [of s a b "[]"] by (auto simp: match_from_to_iff)
    then show ?thesis
      using assms(1) None ab short by (auto simp: rules_single_port_parse_def rule_data_init_def valid_rule_def)
  qed
qed

lemma single_parse_complete:
  assumes "valid_rule r" "py_lower (before_end s) \<in> set (rule_texts r)" and Some: "rd_port r = Some a"
  shows "rules_single_port_parse s = Inr r"
proof -
  from assms(1) Some have a: "py_isdigit a" "rd_from_port r = None" "rd_to_port r = None"
    by (auto simp: valid_rule_def split: option.splits)
  let ?p = "protocol_str (rd_protocol r)"
  have range: "rule_port_range r = a"
    using Some a by (simp add: rule_port_range_def)
  from assms(2) consider
      (long) v where "before_end s = a @ CHR '':'' # v" "py_lower v = ?p"
    | (short) "before_end s = a" "rd_protocol r = Proto ''tcp''"
    using a by (auto simp: rule_texts_def port_text_def range lower_eqs py_lower_digits_end split: if_splits)
  then show ?thesis
  proof cases
    case long
    with assms(1) have "match_from_protocol True s = Some (a, v)" "match_from_to_protocol True s = None"
      using a single_port [of s a "CHR '':'' # v"]
      by (auto simp: match_from_protocol_iff is_port_protocol_True valid_rule_def)
    then show ?thesis
      using assms(1) Some a long by (auto simp: rules_single_port_parse_def rule_data_init_def valid_rule_def)
  next
    case short
    then have "match_port s = Some a" "match_from_to s = None" "match_from_to_protocol True s = None"
        "match_from_protocol True s = None"
      using a single_port [of s a "[]"] by (auto simp: match_port_iff)
    then show ?thesis
      using assms(1) Some a short by (auto simp: rules_single_port_parse_def rule_data_init_def valid_rule_def)
  qed
qed

lemma rules_parse_complete:
  assumes "valid_rule r" "py_lower (before_end s) \<in> set (rule_texts r)"
  shows "rules_single_port_parse s = Inr r"
  using range_parse_complete [OF assms] single_parse_complete [OF assms] by (cases "rd_port r") auto

section \<open>Properties\<close>

text \<open>
  C17: A port text is parsed to a rule exactly when, lower-cased and without a newline at its end,
  it is one of the texts of that rule: \<^verbatim>\<open>from-to:protocol\<close> or \<^verbatim>\<open>port:protocol\<close> with decimal ports
  and protocol tcp or udp, or the same without protocol for tcp. Every other text is rejected.
\<close>

theorem rules_single_port_parse_grammar:
  "rules_single_port_parse s = Inr r \<longleftrightarrow>
     valid_rule r \<and> py_lower (before_end s) \<in> set (rule_texts r)"
  using rules_parse_sound rules_parse_complete by blast

lemma port_text_chars: "valid_rule r \<Longrightarrow> c \<in> set (port_text r) \<Longrightarrow> \<not> is_space c \<and> c \<noteq> CHR '';''"
proof -
  have digits: "py_isdigit d \<Longrightarrow> x \<in> set d \<Longrightarrow> \<not> is_space x \<and> x \<noteq> CHR '';''" for d x
    by (auto simp: py_isdigit_def list_all_iff str_simps code_def)
  have rest: "\<not> is_space CHR ''-''" "\<not> is_space CHR '':''" "\<forall>x \<in> set ''tcp''. \<not> is_space x"
      "\<forall>x \<in> set ''udp''. \<not> is_space x"
    by (simp_all add: is_space_def code_def)
  assume "valid_rule r" "c \<in> set (port_text r)"
  then show ?thesis
    using digits rest
    by (auto simp: valid_rule_def port_text_def rule_port_range_def str_opt_def split: option.splits)
qed

lemma py_strip_idle: "(\<And>c. c \<in> set s \<Longrightarrow> \<not> is_space c) \<Longrightarrow> py_strip s = s"
  by (cases s) (simp_all add: py_strip_def rstrip_by_idle)

lemma set_py_join: "c \<in> set (py_join sep xs) \<Longrightarrow> c \<in> set sep \<or> (\<exists>x \<in> set xs. c \<in> set x)"
  by (induction sep xs rule: py_join.induct) auto

lemma map_lower_digits: "\<forall>x \<in> set s. is_digit x \<Longrightarrow> map lower_char s = s"
  by (simp add: map_idI)

lemma port_text_parses: "valid_rule r \<Longrightarrow> rules_single_port_parse (py_strip (port_text r)) = Inr r"
proof -
  assume r: "valid_rule r"
  then have "py_strip (port_text r) = port_text r"
    using port_text_chars by (intro py_strip_idle) blast
  moreover have "before_end (port_text r) = port_text r" "py_lower (port_text r) = port_text r"
    using r by (auto simp: valid_rule_def port_text_def rule_port_range_def before_end_def str_opt_def
        py_lower_def lower_char_def py_isdigit_def list_all_iff is_upper_def code_def map_lower_digits split: option.splits)
  ultimately show ?thesis
    using r by (intro rules_parse_complete) (simp_all add: rule_texts_def)
qed

lemma not_space_semicolon: "\<not> is_space CHR '';''"
  by (simp add: is_space_def code_def)

lemma port_text_not_Nil: "port_text r \<noteq> []"
  by (simp add: port_text_def)

text \<open>
  C18: Parsing undoes printing: the texts of any list of valid rules, joined by semicolons, are
  parsed to that list.
\<close>

theorem rules_parse_round_trip:
  "list_all valid_rule rules \<Longrightarrow>
     rules_parse_port_group_attribute (py_join '';'' (map port_text rules)) = Inr rules"
proof -
  assume valid: "list_all valid_rule rules"
  let ?s = "py_join '';'' (map port_text rules)"
  have "py_strip ?s = ?s"
    using valid port_text_chars
    by (intro py_strip_idle) (fastforce dest!: set_py_join simp: list_all_iff not_space_semicolon)
  moreover have "filter (\<lambda>p. p \<noteq> []) (py_split CHR '';'' ?s) = map port_text rules"
  proof (cases rules)
    case (Cons r rs)
    have "py_split CHR '';'' ?s = map port_text rules"
      using valid port_text_chars Cons by (intro py_split_join) (auto simp: list_all_iff)
    then show ?thesis
      by (simp add: port_text_not_Nil filter_id_conv)
  qed simp
  moreover have "collect (\<lambda>p. rules_single_port_parse (py_strip p)) (map port_text rules) = Inr (map id rules)"
    using valid by (intro collect_map) (simp add: list_all_iff port_text_parses)
  ultimately show ?thesis
    by (simp add: rules_parse_port_group_attribute_def)
qed

theorem rules_parse_round_trip_witness:
  "rules_parse_port_group_attribute ''80-90:tcp;53:udp'' =
     Inr [rule_data_init (Proto ''tcp'') None (Some ''80'') (Some ''90'') (AccessText ''Allow'') None,
          rule_data_init (Proto ''udp'') (Some ''53'') None None (AccessText ''Allow'') None]"
  using rules_parse_round_trip
    [of "[rule_data_init (Proto ''tcp'') None (Some ''80'') (Some ''90'') (AccessText ''Allow'') None,
          rule_data_init (Proto ''udp'') (Some ''53'') None None (AccessText ''Allow'') None]"]
  by (simp add: valid_rule_def rule_data_init_def py_isdigit_def is_digit_def code_def port_text_def
      rule_port_range_def str_opt_def truthy_def)

end
