(* ===== verification/Calls.thy ===== *)
theory Calls
  imports AzureModel
begin

text \<open>
  The calls the code makes to what lies outside it. A \<open>request\<close> is one call with its
  arguments: an operation of the Azure SDK clients, of the CloudShell session, of Python's
  runtime (clock, locks, uuid, the shared dictionaries of the services). A \<open>resp\<close> is a value
  such a call can return. A call may also raise; the pair of a request and its answer is an
  event.
\<close>

section \<open>Shared memory\<close>

text \<open>
  Locks: \<open>SubnetLocker\<close> is \<^verbatim>\<open>AzureShell.subnet_locker\<close>, \<open>ProviderLock\<close> is
  \<^verbatim>\<open>GenericLockProvider._lock\<close>, the others are the locks of the caches of the storage and key
  pair services, \<open>InstancesLock\<close> is \<^verbatim>\<open>SingletonByArgsMeta.lock\<close>; \<open>ResourceLock n\<close> is the \<open>n\<close>-th lock object that \<^verbatim>\<open>_allocate_lock\<close> made.
\<close>

datatype lock =
    SubnetLocker
  | ProviderLock
  | AccountKeysLock
  | FileServicesLock
  | BlobServicesLock
  | CopiedBlobUrlsLock
  | KeyPairLock
  | InstancesLock
  | ResourceLock nat

text \<open>The dictionaries the services keep between commands, shared by the threads.\<close>

datatype shared_dict =
    LockDictionary
  | CachedAccountKeys
  | CachedFileServices
  | CachedBlobServices
  | CachedKeyPairs
  | CachedCopiedBlobUrls

text \<open>\<^verbatim>\<open>models/blob_copy_operation.py\<close>\<close>

datatype copy_state = CopySuccess | CopyFailed | CopyCopying

text \<open>The attributes of \<^verbatim>\<open>AzureClientsManager\<close> that identify an instance, and the clients it makes.\<close>

record clients_manager =
  cm_subscription_id :: string
  cm_application_id :: string
  cm_application_key :: string
  cm_tenant :: string

datatype client_kind =
  ComputeClient | NetworkClient | StorageClient | ResourceClient | SubscriptionClient

section \<open>Requests\<close>

text \<open>One datatype per client of the Azure SDK, in the argument order of the SDK's methods.\<close>

datatype network_request =
    ListNsgs string
  | PutNsg string string string "dict option"
  | GetNsg string string
  | DeleteNsg string string
  | ListRules string string
  | PutRule string string string security_rule
  | DeleteRule string string string
  | GetNic string string
  | PutNic string string nic_parameters
  | DeleteNic string string
  | GetPublicIp string string
  | PutPublicIp string string string ip_allocation dict
  | DeletePublicIp string string
  | ListVnets string
  | PutVnet string string string dict string string string "nsg option"
    \<comment> \<open>group, name, location, tags, cidr, and the subnet's name, cidr and NSG\<close>
  | GetSubnet string string string
  | PutSubnet string string string subnet_parameters
  | DeleteSubnet string string string
  | GetRouteTable string string
  | PutRouteTable string string string "route list"

datatype compute_request =
    GetVm string string
  | PutVm string string vm_parameters
  | DeleteVm string string
  | StartVm string string
  | DeallocateVm string string
  | GetImage string string
  | ListVmImages string string string string
  | GetVmImage string string string string string
  | ListVmSizes string
  | DeleteDisk string string
  | PutExtension string string string extension_parameters

datatype resource_request =
    PutResourceGroup string string dict
  | GetResourceGroup string
  | DeleteResourceGroup string
  | RegisterProvider string
  | ListLocations string

datatype storage_request =
    CreateStorageAccount string string string dict
  | ListStorageAccounts string
  | ListStorageKeys string string
  | NewFileService string string
  | NewBlobService string string
  | CreateShare string string
  | CreateFile string string string string string
  | GetFile string string string string
  | DeleteBlob string string string
    \<comment> \<open>service, container and blob, as in the requests below\<close>
  | GetBlobProperties string string string
  | AbortCopyBlob string string string string
  | BlobExists string string string
  | CreateContainer string string
  | StartCopyBlob string string string string
  | GenerateSas string string string int
  | MakeBlobUrl string string string "string option"

text \<open>The poller of a long running operation (\<^verbatim>\<open>AzureOperationPoller\<close>), by its number.\<close>

datatype poller_request = PollDone nat | PollStatus nat | PollResult nat | PollWait nat

text \<open>
  The CloudShell session. \<open>CheckoutFromPool\<close> carries the fields of the JSON request that vary:
  pool id, reservation id, owner id, subnet range and reserved ips.
\<close>

datatype session_request =
    CheckoutFromPool string string string string "string list"
  | ReleaseFromPool "string list" string string string
  | WriteMessageToReservationOutput string string
  | SetAttributeValue string string "string option"
  | UpdateResourceAddress string string
  | SetResourceLiveStatus string string string
  | DecryptPassword string

datatype runtime_request =
    IsCancelled
  | Now
  | Sleep nat
  | Uuid4
  | RandomChoice string
  | RandomSample nat nat
  | RsaGenerate nat
  | HttpHead string
  | Authenticate string string string
  | NewClient client_kind clients_manager

text \<open>Access to the memory the threads share: locks and dictionaries.\<close>

datatype memory_request =
    Acquire lock
  | Release lock
  | NewLock
  | DictHas shared_dict "string list"
  | DictGet shared_dict "string list"  \<comment> \<open>\<^verbatim>\<open>d[k]\<close>\<close>
  | DictFind shared_dict "string list"  \<comment> \<open>\<^verbatim>\<open>d.get(k)\<close>\<close>
  | DictPutStr shared_dict "string list" string
  | DictPutLock shared_dict "string list" lock
  | DictPutKeys shared_dict "string list" ssh_key
  | DictDel shared_dict "string list"
  | CopiedPut "string list" copy_state
  | CopiedState "string list"
  | CopiedSetState "string list" copy_state
  | CopiedResult "string list"
  | CopiedSetResult "string list" string
  | FindInstance
  | PutInstance clients_manager
  | FindClient clients_manager client_kind
  | PutClient clients_manager client_kind int

datatype request =
    Network network_request
  | Compute compute_request
  | Resource resource_request
  | Storage storage_request
  | Poller poller_request
  | Session session_request
  | Runtime runtime_request
  | Memory memory_request

section \<open>Answers\<close>

datatype resp =
    RNone
  | RBool bool
  | RInt int
  | RStr string
  | RStrs "string list"
  | RNats "nat list"
  | RPoller nat
  | RLock lock
  | RNsg nsg
  | RNsgs "nsg list"
  | RRule security_rule
  | RRules "security_rule list"
  | RNic nic
  | RPublicIp public_ip
  | RSubnet subnet
  | RVnets "vnet list"
  | RVm vm
  | RImage string os_type  \<comment> \<open>id and operating system of a custom image\<close>
  | RVmImage os_type "plan option"  \<comment> \<open>a marketplace image\<close>
  | RSshKey ssh_key
  | RBlob string string  \<comment> \<open>status and id of the copy operation of a blob\<close>
  | RCopied copy_state
  | RClients clients_manager

type_synonym answer = "exn + resp"
type_synonym event = "request \<times> answer"

section \<open>Parameters of the commands\<close>

text \<open>\<^verbatim>\<open>models/azure_cloud_provider_resource_model.py\<close> (the fields the operations read) and
  \<^verbatim>\<open>models/reservation_model.py\<close>.\<close>

record cloud_provider =
  cp_region :: string
  cp_vm_size :: string
  cp_management_group_name :: string
  cp_private_ip_allocation_method :: string
  cp_additional_mgmt_networks :: "string list"

record reservation =
  rs_reservation_id :: string
  rs_owner :: string
  rs_blueprint :: string
  rs_domain :: string

end
