(* ===== verification/Prog.thy ===== *)
theory Prog
  imports Calls
begin

text \<open>
  Programs. A method of the code is a tree of calls: it returns, raises, runs forever, or makes
  a call and goes on with whatever the call answers. Sequencing, \<^verbatim>\<open>try/except\<close>, \<^verbatim>\<open>try/finally\<close>,
  \<^verbatim>\<open>with lock\<close> and loops are functions on these trees. \<open>exec p es out\<close> is a possible run: \<open>es\<close>
  lists the calls with the answers they got, \<open>out\<close> is the outcome. As every answer is possible,
  a fact about all runs holds whatever Azure, CloudShell and the other threads do.
\<close>

named_theorems exec_simps

section \<open>Programs and their combinators\<close>

datatype 'a prog =
    Return 'a
  | Raise exn
  | Diverge
  | Call request "answer \<Rightarrow> 'a prog"

primrec bnd :: "'a prog \<Rightarrow> ('a \<Rightarrow> 'b prog) \<Rightarrow> 'b prog" where
  "bnd (Return x) f = f x"
| "bnd (Raise e) f = Raise e"
| "bnd Diverge f = Diverge"
| "bnd (Call q k) f = Call q (\<lambda>v. bnd (k v) f)"

abbreviation thn :: "'a prog \<Rightarrow> 'b prog \<Rightarrow> 'b prog" where
  "thn p q \<equiv> bnd p (\<lambda>_. q)"

text \<open>\<^verbatim>\<open>try: p except Exception as e: h(e)\<close> where \<open>h\<close> may raise again.\<close>

primrec catch :: "'a prog \<Rightarrow> (exn \<Rightarrow> 'a prog) \<Rightarrow> 'a prog" where
  "catch (Return x) h = Return x"
| "catch (Raise e) h = h e"
| "catch Diverge h = Diverge"
| "catch (Call q k) h = Call q (\<lambda>v. catch (k v) h)"

text \<open>\<^verbatim>\<open>try: p except Exception as e: h(e) else: f(x)\<close>; the handler does not cover \<open>f\<close>.\<close>

primrec try_else :: "'a prog \<Rightarrow> (exn \<Rightarrow> 'b prog) \<Rightarrow> ('a \<Rightarrow> 'b prog) \<Rightarrow> 'b prog" where
  "try_else (Return x) h f = f x"
| "try_else (Raise e) h f = h e"
| "try_else Diverge h f = Diverge"
| "try_else (Call q k) h f = Call q (\<lambda>v. try_else (k v) h f)"

definition ensuring :: "'a prog \<Rightarrow> unit prog \<Rightarrow> 'a prog" where
  "ensuring p q = try_else p (\<lambda>e. thn q (Raise e)) (\<lambda>x. thn q (Return x))"

definition call :: "request \<Rightarrow> resp prog" where
  "call q = Call q (\<lambda>v. case v of Inl e \<Rightarrow> Raise e | Inr r \<Rightarrow> Return r)"

text \<open>A call that cannot fail and whose answer is not used (locks, \<^verbatim>\<open>time.sleep\<close>).\<close>

definition signal :: "request \<Rightarrow> unit prog" where
  "signal q = Call q (\<lambda>_. Return ())"

definition with_lock :: "lock \<Rightarrow> 'a prog \<Rightarrow> 'a prog" where
  "with_lock l p = thn (signal (Memory (Acquire l))) (ensuring p (signal (Memory (Release l))))"

text \<open>\<^verbatim>\<open>for x in xs: f(x)\<close>, and the list comprehension \<^verbatim>\<open>[f(x) for x in xs]\<close>.\<close>

fun for_each :: "('a \<Rightarrow> 'b prog) \<Rightarrow> 'a list \<Rightarrow> unit prog" where
  "for_each f [] = Return ()"
| "for_each f (x # xs) = thn (f x) (for_each f xs)"

fun map_prog :: "('a \<Rightarrow> 'b prog) \<Rightarrow> 'a list \<Rightarrow> 'b list prog" where
  "map_prog f [] = Return []"
| "map_prog f (x # xs) = bnd (f x) (\<lambda>y. bnd (map_prog f xs) (\<lambda>ys. Return (y # ys)))"

definition only_if :: "bool \<Rightarrow> unit prog \<Rightarrow> unit prog" where
  "only_if b p = (if b then p else Return ())"

section \<open>Runs\<close>

datatype 'a outcome = Ok 'a | Err exn | Hang

inductive exec :: "'a prog \<Rightarrow> event list \<Rightarrow> 'a outcome \<Rightarrow> bool" where
  exec_Return: "exec (Return x) [] (Ok x)"
| exec_Raise: "exec (Raise e) [] (Err e)"
| exec_Diverge: "exec Diverge [] Hang"
| exec_Call: "exec (k v) es out \<Longrightarrow> exec (Call q k) ((q, v) # es) out"

inductive_simps exec_Return_iff [exec_simps]: "exec (Return x) es out"
inductive_simps exec_Raise_iff [exec_simps]: "exec (Raise e) es out"
inductive_simps exec_Diverge_iff [exec_simps]: "exec Diverge es out"
inductive_simps exec_Call_iff: "exec (Call q k) es out"

text \<open>
  The run on a given list of answers, as a function: this is how a run is computed on a
  concrete input. \<open>None\<close> if the answers run out.
\<close>

primrec replay :: "'a prog \<Rightarrow> answer list \<Rightarrow> (event list \<times> 'a outcome) option" where
  "replay (Return x) = (\<lambda>vs. Some ([], Ok x))"
| "replay (Raise e) = (\<lambda>vs. Some ([], Err e))"
| "replay Diverge = (\<lambda>vs. Some ([], Hang))"
| "replay (Call q k) = (\<lambda>vs. case vs of
     [] \<Rightarrow> None
   | v # vs' \<Rightarrow> map_option (\<lambda>(es, out). ((q, v) # es, out)) (replay (k v) vs'))"

lemma exec_replay: "replay p vs = Some (es, out) \<Longrightarrow> exec p es out"
proof (induction p arbitrary: vs es)
  case (Call q k)
  from Call.prems obtain v vs' es' where
      "vs = v # vs'" "replay (k v) vs' = Some (es', out)" "es = (q, v) # es'"
    by (auto split: list.splits)
  with Call.IH show ?case by (auto intro: exec_Call)
qed (auto intro: exec.intros)

lemma replay_exec: "exec p es out \<Longrightarrow> replay p (map snd es) = Some (es, out)"
  by (induction rule: exec.induct) auto

text \<open>The run in which every call is answered by a function of the request.\<close>

primrec run_with :: "(request \<Rightarrow> answer) \<Rightarrow> 'a prog \<Rightarrow> event list \<times> 'a outcome" where
  "run_with f (Return x) = ([], Ok x)"
| "run_with f (Raise e) = ([], Err e)"
| "run_with f Diverge = ([], Hang)"
| "run_with f (Call q k) = (case run_with f (k (f q)) of (es, out) \<Rightarrow> ((q, f q) # es, out))"

lemma exec_run_with: "run_with f p = (es, out) \<Longrightarrow> exec p es out"
  by (induction p arbitrary: es) (auto intro: exec.intros split: prod.splits)

text \<open>Every program has a run, and its answers determine it.\<close>

lemma exec_total: "\<exists>es out. exec p es out"
proof (induction p)
  case (Call q k)
  then obtain es out where "exec (k (Inr RNone)) es out" by blast
  then show ?case by (blast intro: exec_Call)
qed (blast intro: exec.intros)+

lemma exec_deterministic:
  "exec p es out \<Longrightarrow> exec p es' out' \<Longrightarrow> map snd es = map snd es' \<Longrightarrow> es = es' \<and> out = out'"
  by (metis option.inject prod.inject replay_exec)

subsection \<open>Runs of the combinators\<close>

lemma bnd_try_else: "bnd p f = try_else p Raise f"
  by (induction p) auto

lemma bnd_assoc: "bnd (bnd p f) g = bnd p (\<lambda>x. bnd (f x) g)"
  by (induction p) auto

lemma catch_try_else: "catch p h = try_else p h Return"
  by (induction p) auto

lemma exec_Call_append:
  "(\<exists>es1 es2. exec (Call q k) es1 r \<and> P es2 \<and> es = es1 @ es2) \<longleftrightarrow>
     (\<exists>v es'. es = (q, v) # es' \<and> (\<exists>es1 es2. exec (k v) es1 r \<and> P es2 \<and> es' = es1 @ es2))"
  (is "?l \<longleftrightarrow> ?r")
proof
  assume ?l
  then obtain es1 es2 where *: "exec (Call q k) es1 r" "P es2" "es = es1 @ es2" by blast
  from *(1) obtain v es1' where "es1 = (q, v) # es1'" "exec (k v) es1' r"
    by (auto simp: exec_Call_iff)
  with *(2,3) show ?r by auto
next
  assume ?r
  then obtain v es1 es2 where "es = ((q, v) # es1) @ es2" "exec (k v) es1 r" "P es2" by auto
  then show ?l by (blast intro: exec_Call)
qed

lemma exec_try_else:
  "exec (try_else p h f) es out \<longleftrightarrow>
     (\<exists>x es1 es2. exec p es1 (Ok x) \<and> exec (f x) es2 out \<and> es = es1 @ es2) \<or>
     (\<exists>e es1 es2. exec p es1 (Err e) \<and> exec (h e) es2 out \<and> es = es1 @ es2) \<or>
     (exec p es Hang \<and> out = Hang)"
proof (induction p arbitrary: es)
  case (Call q k)
  have IH: "exec (try_else (k v) h f) es' out \<longleftrightarrow>
      (\<exists>x es1 es2. exec (k v) es1 (Ok x) \<and> exec (f x) es2 out \<and> es' = es1 @ es2) \<or>
      (\<exists>e es1 es2. exec (k v) es1 (Err e) \<and> exec (h e) es2 out \<and> es' = es1 @ es2) \<or>
      (exec (k v) es' Hang \<and> out = Hang)" for v es'
    using Call.IH by simp
  have step: "exec (try_else (Call q k) h f) es out \<longleftrightarrow>
      (\<exists>v es'. es = (q, v) # es' \<and> exec (try_else (k v) h f) es' out)"
    by (simp add: exec_Call_iff)
  have ok: "(\<exists>x es1 es2. exec (Call q k) es1 (Ok x) \<and> exec (f x) es2 out \<and> es = es1 @ es2) \<longleftrightarrow>
      (\<exists>v es'. es = (q, v) # es' \<and>
        (\<exists>x es1 es2. exec (k v) es1 (Ok x) \<and> exec (f x) es2 out \<and> es' = es1 @ es2))"
    unfolding exec_Call_append by blast
  have err: "(\<exists>e es1 es2. exec (Call q k) es1 (Err e) \<and> exec (h e) es2 out \<and> es = es1 @ es2) \<longleftrightarrow>
      (\<exists>v es'. es = (q, v) # es' \<and>
        (\<exists>e es1 es2. exec (k v) es1 (Err e) \<and> exec (h e) es2 out \<and> es' = es1 @ es2))"
    unfolding exec_Call_append by blast
  have hang: "exec (Call q k) es Hang \<and> out = Hang \<longleftrightarrow>
      (\<exists>v es'. es = (q, v) # es' \<and> exec (k v) es' Hang \<and> out = Hang)"
    by (auto simp: exec_Call_iff)
  show ?case
    unfolding step IH ok err hang by (simp only: conj_disj_distribL ex_disj_distrib)
qed (auto simp: exec_simps)

lemma exec_bnd:
  "exec (bnd p f) es out \<longleftrightarrow>
     (\<exists>x es1 es2. exec p es1 (Ok x) \<and> exec (f x) es2 out \<and> es = es1 @ es2) \<or>
     (\<exists>e. exec p es (Err e) \<and> out = Err e) \<or>
     (exec p es Hang \<and> out = Hang)"
  by (auto simp: bnd_try_else exec_try_else exec_simps)

lemma exec_catch:
  "exec (catch p h) es out \<longleftrightarrow>
     (\<exists>x. exec p es (Ok x) \<and> out = Ok x) \<or>
     (\<exists>e es1 es2. exec p es1 (Err e) \<and> exec (h e) es2 out \<and> es = es1 @ es2) \<or>
     (exec p es Hang \<and> out = Hang)"
  by (auto simp: catch_try_else exec_try_else exec_simps)

lemma exec_call [exec_simps]:
  "exec (call q) es out \<longleftrightarrow>
     (\<exists>r. es = [(q, Inr r)] \<and> out = Ok r) \<or> (\<exists>e. es = [(q, Inl e)] \<and> out = Err e)"
  by (auto simp: call_def exec_Call_iff split_sum_ex exec_simps)

lemma exec_signal [exec_simps]: "exec (signal q) es out \<longleftrightarrow> (\<exists>v. es = [(q, v)]) \<and> out = Ok ()"
  by (auto simp: signal_def exec_Call_iff exec_simps)

lemma exec_only_if [exec_simps]:
  "exec (only_if b p) es out \<longleftrightarrow> (if b then exec p es out else es = [] \<and> out = Ok ())"
  by (auto simp: only_if_def exec_simps)

lemma exec_bndE:
  assumes "exec (bnd p f) es out"
  obtains (ok) x es1 es2 where "exec p es1 (Ok x)" "exec (f x) es2 out" "es = es1 @ es2"
  | (err) e where "exec p es (Err e)" "out = Err e"
  | (hang) "exec p es Hang" "out = Hang"
  using assms by (auto simp: exec_bnd)

lemma exec_bnd_OkE:
  assumes "exec (bnd p f) es (Ok y)"
  obtains x es1 es2 where "exec p es1 (Ok x)" "exec (f x) es2 (Ok y)" "es = es1 @ es2"
  using assms by (auto simp: exec_bnd)

lemma exec_bnd_OkI: "exec p es1 (Ok x) \<Longrightarrow> exec (f x) es2 out \<Longrightarrow> exec (bnd p f) (es1 @ es2) out"
  by (auto simp: exec_bnd)

text \<open>
  A \<^verbatim>\<open>with\<close> block: the lock is taken first and given back last, on every outcome of the body.
\<close>

lemma exec_with_lockE:
  assumes "exec (with_lock l p) es out"
  obtains (finished) v es1 v' where "es = (Memory (Acquire l), v) # es1 @ [(Memory (Release l), v')]"
      "exec p es1 out" "out \<noteq> Hang"
  | (hang) v es1 where "es = (Memory (Acquire l), v) # es1" "exec p es1 Hang" "out = Hang"
proof -
  from assms obtain v es1 where es: "es = (Memory (Acquire l), v) # es1"
      and run: "exec (ensuring p (signal (Memory (Release l)))) es1 out"
    by (auto simp: with_lock_def exec_bnd exec_simps)
  from run have "(\<exists>es0 v'. es1 = es0 @ [(Memory (Release l), v')] \<and> exec p es0 out \<and> out \<noteq> Hang) \<or>
      (exec p es1 Hang \<and> out = Hang)"
    by (auto simp: ensuring_def exec_try_else exec_bnd exec_simps)
  with es show thesis using that by auto
qed

lemma exec_for_each_Ok:
  "exec (for_each f xs) es (Ok u) \<Longrightarrow>
     \<exists>ess. es = concat ess \<and> list_all2 (\<lambda>x es'. \<exists>y. exec (f x) es' (Ok y)) xs ess"
proof (induction xs arbitrary: es)
  case Nil
  then show ?case by (auto simp: exec_simps)
next
  case (Cons x xs)
  from Cons.prems obtain y es1 es2 where
      1: "exec (f x) es1 (Ok y)" and 2: "exec (for_each f xs) es2 (Ok u)" and es: "es = es1 @ es2"
    by (auto elim: exec_bnd_OkE)
  from Cons.IH [OF 2] obtain ess where "es2 = concat ess"
      "list_all2 (\<lambda>x es'. \<exists>y. exec (f x) es' (Ok y)) xs ess" by blast
  with 1 es have "es = concat (es1 # ess) \<and>
      list_all2 (\<lambda>x es'. \<exists>y. exec (f x) es' (Ok y)) (x # xs) (es1 # ess)" by auto
  then show ?case by blast
qed

lemma exec_map_prog_Ok:
  "exec (map_prog f xs) es (Ok ys) \<Longrightarrow>
     \<exists>ess. es = concat ess \<and> length ess = length xs \<and> length ys = length xs \<and>
       (\<forall>i < length xs. exec (f (xs ! i)) (ess ! i) (Ok (ys ! i)))"
proof (induction xs arbitrary: es ys)
  case Nil
  then show ?case by (auto simp: exec_simps)
next
  case (Cons x xs)
  from Cons.prems obtain y ys' es1 es2 where
      1: "exec (f x) es1 (Ok y)" and 2: "exec (map_prog f xs) es2 (Ok ys')"
      and es: "es = es1 @ es2" and ys: "ys = y # ys'"
    by (auto elim!: exec_bnd_OkE simp: exec_simps)
  from Cons.IH [OF 2] obtain ess where "es2 = concat ess" "length ess = length xs"
      "length ys' = length xs" "\<forall>i < length xs. exec (f (xs ! i)) (ess ! i) (Ok (ys' ! i))"
    by blast
  with 1 es ys show ?case
    by (intro exI [of _ "es1 # ess"]) (auto simp: nth_Cons split: nat.splits)
qed

section \<open>Properties of all runs\<close>

text \<open>\<open>emits P p\<close>: every call of every run satisfies \<open>P\<close>.\<close>

definition emits :: "(event \<Rightarrow> bool) \<Rightarrow> 'a prog \<Rightarrow> bool" where
  "emits P p \<longleftrightarrow> (\<forall>es out. exec p es out \<longrightarrow> list_all P es)"

text \<open>\<open>halts p\<close>: no run goes on forever.\<close>

definition halts :: "'a prog \<Rightarrow> bool" where
  "halts p \<longleftrightarrow> (\<forall>es out. exec p es out \<longrightarrow> out \<noteq> Hang)"

named_theorems emits_intros
named_theorems halts_intros

lemma emitsI: "(\<And>es out. exec p es out \<Longrightarrow> list_all P es) \<Longrightarrow> emits P p"
  unfolding emits_def by blast

lemma emitsD: "emits P p \<Longrightarrow> exec p es out \<Longrightarrow> list_all P es"
  unfolding emits_def by blast

lemma emits_mono: "emits P p \<Longrightarrow> (\<And>ev. P ev \<Longrightarrow> Q ev) \<Longrightarrow> emits Q p"
  unfolding emits_def by (metis list.pred_mono_strong)

lemma emits_Return [emits_intros]: "emits P (Return x)"
  by (auto simp: emits_def exec_simps)

lemma emits_Raise [emits_intros]: "emits P (Raise e)"
  by (auto simp: emits_def exec_simps)

lemma emits_Diverge [emits_intros]: "emits P Diverge"
  by (auto simp: emits_def exec_simps)

lemma emits_call [emits_intros]: "(\<And>v. P (q, v)) \<Longrightarrow> emits P (call q)"
  by (auto simp: emits_def exec_simps)

lemma emits_signal [emits_intros]: "(\<And>v. P (q, v)) \<Longrightarrow> emits P (signal q)"
  by (auto simp: emits_def exec_simps)

lemma emits_try_else [emits_intros]:
  assumes "emits P p" "\<And>e. emits P (h e)" "\<And>x. emits P (f x)"
  shows "emits P (try_else p h f)"
  using emitsD [OF assms(1)] emitsD [OF assms(2)] emitsD [OF assms(3)]
  by (intro emitsI) (auto simp: exec_try_else)

lemma emits_bnd [emits_intros]: "emits P p \<Longrightarrow> (\<And>x. emits P (f x)) \<Longrightarrow> emits P (bnd p f)"
  by (simp add: bnd_try_else emits_intros)

lemma emits_catch [emits_intros]: "emits P p \<Longrightarrow> (\<And>e. emits P (h e)) \<Longrightarrow> emits P (catch p h)"
  by (simp add: catch_try_else emits_intros)

lemma emits_only_if [emits_intros]: "(b \<Longrightarrow> emits P p) \<Longrightarrow> emits P (only_if b p)"
  by (simp add: only_if_def emits_intros)

lemma emits_with_lock [emits_intros]:
  "emits P p \<Longrightarrow> (\<And>v. P (Memory (Acquire l), v)) \<Longrightarrow> (\<And>v. P (Memory (Release l), v)) \<Longrightarrow> emits P (with_lock l p)"
  by (simp add: with_lock_def ensuring_def emits_intros)

lemma emits_for_each [emits_intros]:
  "(\<And>x. x \<in> set xs \<Longrightarrow> emits P (f x)) \<Longrightarrow> emits P (for_each f xs)"
  by (induction xs) (auto intro: emits_intros)

lemma emits_map_prog [emits_intros]:
  "(\<And>x. x \<in> set xs \<Longrightarrow> emits P (f x)) \<Longrightarrow> emits P (map_prog f xs)"
  by (induction xs) (auto intro: emits_intros)

lemma haltsI: "(\<And>es. \<not> exec p es Hang) \<Longrightarrow> halts p"
  unfolding halts_def by blast

lemma haltsD: "halts p \<Longrightarrow> \<not> exec p es Hang"
  by (auto simp: halts_def)

lemma halts_Return [halts_intros]: "halts (Return x)"
  by (auto simp: halts_def exec_simps)

lemma halts_Raise [halts_intros]: "halts (Raise e)"
  by (auto simp: halts_def exec_simps)

lemma halts_call [halts_intros]: "halts (call q)"
  by (auto simp: halts_def exec_simps)

lemma halts_signal [halts_intros]: "halts (signal q)"
  by (auto simp: halts_def exec_simps)

lemma halts_try_else [halts_intros]:
  assumes "halts p" "\<And>e. halts (h e)" "\<And>x. halts (f x)"
  shows "halts (try_else p h f)"
  using haltsD [OF assms(1)] haltsD [OF assms(2)] haltsD [OF assms(3)]
  by (intro haltsI) (auto simp: exec_try_else)

lemma halts_bnd [halts_intros]: "halts p \<Longrightarrow> (\<And>x. halts (f x)) \<Longrightarrow> halts (bnd p f)"
  by (simp add: bnd_try_else halts_intros)

lemma halts_catch [halts_intros]: "halts p \<Longrightarrow> (\<And>e. halts (h e)) \<Longrightarrow> halts (catch p h)"
  by (simp add: catch_try_else halts_intros)

lemma halts_only_if [halts_intros]: "(b \<Longrightarrow> halts p) \<Longrightarrow> halts (only_if b p)"
  by (simp add: only_if_def halts_intros)

lemma halts_with_lock [halts_intros]: "halts p \<Longrightarrow> halts (with_lock l p)"
  by (simp add: with_lock_def ensuring_def halts_intros)

lemma halts_for_each [halts_intros]:
  "(\<And>x. x \<in> set xs \<Longrightarrow> halts (f x)) \<Longrightarrow> halts (for_each f xs)"
  by (induction xs) (auto intro: halts_intros)

lemma halts_map_prog [halts_intros]:
  "(\<And>x. x \<in> set xs \<Longrightarrow> halts (f x)) \<Longrightarrow> halts (map_prog f xs)"
  by (induction xs) (auto intro: halts_intros)

end
