(* ===== verification/Retrying.thy ===== *)
theory Retrying
  imports Prog
begin

text \<open>
  \<^verbatim>\<open>common/helpers/retrying_helpers.py\<close> and the third-party parts the services rely on. The
  decorator \<^verbatim>\<open>retry\<close> of the package \<^verbatim>\<open>retrying\<close> and \<^verbatim>\<open>netaddr.IPNetwork\<close> are not part of the
  repository: they are fields of an \<open>env\<close> that every definition using them takes. (A third field
  bounds how long a polling loop is followed, so that programs are finite trees.) What the
  documentation of \<^verbatim>\<open>retrying\<close> promises is \<open>retry_law\<close>: the runs of a decorated method are the
  runs of a bounded series of attempts. \<open>retry_loop\<close> is a function with that law; it shows that
  the law can hold and is what concrete runs are computed with.
\<close>

record env =
  retry_lib :: "nat \<Rightarrow> nat \<Rightarrow> (exn \<Rightarrow> bool) \<Rightarrow> resp prog \<Rightarrow> resp prog"
    \<comment> \<open>\<^verbatim>\<open>stop_max_attempt_number\<close>, \<^verbatim>\<open>wait_fixed\<close>, \<^verbatim>\<open>retry_on_exception\<close>, the decorated body\<close>
  ip_network :: "string \<Rightarrow> exn + string list"
    \<comment> \<open>\<^verbatim>\<open>IPNetwork(cidr)\<close>: its addresses in order, as strings, or \<^verbatim>\<open>AddrFormatError\<close>\<close>
  loop_bound :: nat
    \<comment> \<open>how many rounds of a polling loop are followed; a longer run counts as one that goes on forever\<close>

section \<open>Which exceptions are retried\<close>

text \<open>\<^verbatim>\<open>traceback.format_exception_only\<close>: one line, the class and, if there is one, the text.\<close>

definition format_exception_only :: "exn \<Rightarrow> string" where
  "format_exception_only e =
     (if exn_message e = [] then exn_class e @ [CHR 0x0A]
      else exn_class e @ '': '' @ exn_message e @ [CHR 0x0A])"

definition is_pool_closed_error :: "exn \<Rightarrow> bool" where
  "is_pool_closed_error e \<longleftrightarrow> py_in ''pool is closed'' (py_lower (format_exception_only e))"

fun retry_if_connection_error :: "exn \<Rightarrow> bool" where
  "retry_if_connection_error (ClientRequestError m) \<longleftrightarrow> True"
| "retry_if_connection_error (UrllibConnectionError m) \<longleftrightarrow> True"
| "retry_if_connection_error e \<longleftrightarrow> is_pool_closed_error e"

definition is_retryable_error_message :: "exn \<Rightarrow> bool" where
  "is_retryable_error_message e \<longleftrightarrow> py_in (py_lower ''retryable'') (py_lower (exn_message e))"

fun retry_if_retryable_error :: "exn \<Rightarrow> bool" where
  "retry_if_retryable_error (CloudError r m t) \<longleftrightarrow> is_retryable_error_message (CloudError r m t)"
| "retry_if_retryable_error e \<longleftrightarrow> False"

definition retryable_wait_time :: nat where
  "retryable_wait_time = 2000"

definition retryable_error_max_attempts :: nat where
  "retryable_error_max_attempts = 20"

text \<open>The two decorators of the services.\<close>

definition retried :: "env \<Rightarrow> resp prog \<Rightarrow> resp prog" where
  "retried E p = retry_lib E 5 2000 retry_if_connection_error p"

definition retried_on_retryable :: "env \<Rightarrow> resp prog \<Rightarrow> resp prog" where
  "retried_on_retryable E p =
     retry_lib E retryable_error_max_attempts retryable_wait_time retry_if_retryable_error p"

section \<open>The law of the decorator\<close>

text \<open>
  \<open>attempts n P p es out\<close>: at most \<open>n\<close> attempts of \<open>p\<close> were made. An attempt that raises an
  exception \<open>P\<close> holds of is followed by another one while attempts are left; any other result,
  and the result of the last attempt, is the result of the call.
\<close>

inductive attempts ::
  "nat \<Rightarrow> (exn \<Rightarrow> bool) \<Rightarrow> 'a prog \<Rightarrow> event list \<Rightarrow> 'a outcome \<Rightarrow> bool" where
  attempt_last: "exec p es out \<Longrightarrow> (\<And>e. out = Err e \<Longrightarrow> n = 0 \<or> \<not> P e) \<Longrightarrow>
     attempts (Suc n) P p es out"
| attempt_again: "exec p es1 (Err e) \<Longrightarrow> P e \<Longrightarrow> attempts n P p es2 out \<Longrightarrow>
     attempts (Suc n) P p (es1 @ es2) out"

definition retry_law :: "env \<Rightarrow> bool" where
  "retry_law E \<longleftrightarrow> (\<forall>n w P p es out. 0 < n \<longrightarrow>
     (exec (retry_lib E n w P p) es out \<longleftrightarrow> attempts n P p es out))"

primrec retry_loop :: "nat \<Rightarrow> (exn \<Rightarrow> bool) \<Rightarrow> 'a prog \<Rightarrow> 'a prog" where
  "retry_loop 0 P p = p"
| "retry_loop (Suc n) P p =
     catch p (\<lambda>e. if 0 < n \<and> P e then retry_loop n P p else Raise e)"

lemma attempts_0 [simp]: "\<not> attempts 0 P p es out"
  by (auto elim: attempts.cases)

lemma exec_retry_loop: "exec (retry_loop (Suc n) P p) es out \<longleftrightarrow> attempts (Suc n) P p es out"
proof (induction n arbitrary: es)
  case 0
  show ?case
    by (subst attempts.simps) (auto simp: exec_catch exec_simps; cases out; auto)
next
  case (Suc n)
  have "exec (retry_loop (Suc (Suc n)) P p) es out \<longleftrightarrow>
      (\<exists>x. exec p es (Ok x) \<and> out = Ok x) \<or>
      (\<exists>e es1 es2. exec p es1 (Err e) \<and> P e \<and> attempts (Suc n) P p es2 out \<and> es = es1 @ es2) \<or>
      (\<exists>e. exec p es (Err e) \<and> \<not> P e \<and> out = Err e) \<or> (exec p es Hang \<and> out = Hang)"
    by (subst retry_loop.simps)
      (auto simp: exec_catch Suc.IH exec_simps split: if_splits simp del: retry_loop.simps)
  also have "\<dots> \<longleftrightarrow> attempts (Suc (Suc n)) P p es out"
    by (subst attempts.simps [of "Suc (Suc n)"]) (auto; cases out; auto)
  finally show ?case .
qed

text \<open>An environment whose decorator obeys the law, for concrete runs.\<close>

definition loop_env :: "(string \<Rightarrow> exn + string list) \<Rightarrow> nat \<Rightarrow> env" where
  "loop_env net rounds =
     \<lparr>retry_lib = (\<lambda>n w P p. retry_loop n P p), ip_network = net, loop_bound = rounds\<rparr>"

lemma retry_law_loop_env: "retry_law (loop_env net rounds)"
  unfolding retry_law_def loop_env_def
  by (auto simp: exec_retry_loop gr0_conv_Suc simp del: retry_loop.simps)

section \<open>Consequences of the law\<close>

lemma retry_lib_attempts:
  "retry_law E \<Longrightarrow> 0 < n \<Longrightarrow> exec (retry_lib E n w P p) es out \<longleftrightarrow> attempts n P p es out"
  by (simp add: retry_law_def)

lemma attempts_outcome: "attempts n P p es out \<Longrightarrow> \<exists>es0 es1. exec p es1 out \<and> es = es0 @ es1"
proof (induction rule: attempts.induct)
  case (attempt_last p es out n P)
  then show ?case by (intro exI [of _ "[]"] exI [of _ es]) simp
next
  case (attempt_again p es1 e P n es2 out)
  then obtain es0 es1' where "exec p es1' out" "es2 = es0 @ es1'" by blast
  then show ?case by (intro exI [of _ "es1 @ es0"] exI [of _ es1']) simp
qed

text \<open>The result of a decorated call is the result of its last attempt.\<close>

lemma retry_lib_outcome:
  assumes "retry_law E" "0 < n" "exec (retry_lib E n w P p) es out"
  obtains es0 es1 where "exec p es1 out" "es = es0 @ es1"
  using assms attempts_outcome by (metis retry_lib_attempts)

lemma attempts_emits: "attempts n P p es out \<Longrightarrow> emits Q p \<Longrightarrow> list_all Q es"
  by (induction rule: attempts.induct) (auto dest: emitsD)

lemma emits_retry_lib: "retry_law E \<Longrightarrow> 0 < n \<Longrightarrow> emits Q p \<Longrightarrow> emits Q (retry_lib E n w P p)"
  by (rule emitsI) (metis attempts_emits retry_lib_attempts)

lemma halts_retry_lib: "retry_law E \<Longrightarrow> 0 < n \<Longrightarrow> halts p \<Longrightarrow> halts (retry_lib E n w P p)"
  by (rule haltsI) (metis haltsD retry_lib_outcome)

lemma emits_retried: "retry_law E \<Longrightarrow> emits Q p \<Longrightarrow> emits Q (retried E p)"
  by (simp add: retried_def emits_retry_lib)

lemma emits_retried_on_retryable:
  "retry_law E \<Longrightarrow> emits Q p \<Longrightarrow> emits Q (retried_on_retryable E p)"
  by (simp add: retried_on_retryable_def retryable_error_max_attempts_def emits_retry_lib)

lemma halts_retried: "retry_law E \<Longrightarrow> halts p \<Longrightarrow> halts (retried E p)"
  by (simp add: retried_def halts_retry_lib)

lemma halts_retried_on_retryable: "retry_law E \<Longrightarrow> halts p \<Longrightarrow> halts (retried_on_retryable E p)"
  by (simp add: retried_on_retryable_def retryable_error_max_attempts_def halts_retry_lib)

lemma exec_retriedE:
  assumes "retry_law E" "exec (retried E p) es out"
  obtains es0 es1 where "exec p es1 out" "es = es0 @ es1"
  using retry_lib_outcome [OF assms(1) _ assms(2) [unfolded retried_def]] that by auto

text \<open>A run without a retried exception is one attempt.\<close>

lemma exec_retried_once:
  assumes "retry_law E" "exec p es out" "\<And>e. out = Err e \<Longrightarrow> \<not> retry_if_connection_error e"
  shows "exec (retried E p) es out"
proof -
  have "attempts (Suc 4) retry_if_connection_error p es out"
    using assms(2,3) by (intro attempt_last) auto
  then show ?thesis
    using assms(1) by (simp add: retried_def retry_lib_attempts)
qed

text \<open>A decorated method makes at most five attempts, each a run of its body.\<close>

lemma attempts_bound:
  "attempts n P p es out \<Longrightarrow>
     \<exists>runs. es = concat (map fst runs) \<and> runs \<noteq> [] \<and> length runs \<le> n \<and> snd (last runs) = out \<and>
       (\<forall>r \<in> set runs. exec p (fst r) (snd r)) \<and>
       (\<forall>r \<in> set (butlast runs). \<exists>e. snd r = Err e \<and> P e)"
proof (induction rule: attempts.induct)
  case (attempt_last p es out n P)
  then show ?case by (intro exI [of _ "[(es, out)]"]) simp
next
  case (attempt_again p es1 e P n es2 out)
  then obtain runs where "es2 = concat (map fst runs)" "runs \<noteq> []" "length runs \<le> n"
      "snd (last runs) = out" "\<forall>r \<in> set runs. exec p (fst r) (snd r)"
      "\<forall>r \<in> set (butlast runs). \<exists>e. snd r = Err e \<and> P e" by blast
  with attempt_again.hyps show ?case
    by (intro exI [of _ "(es1, Err e) # runs"]) auto
qed

section \<open>What a run that returns has done\<close>

text \<open>\<open>makes P p\<close>: every run of \<open>p\<close> that returns has an event \<open>P\<close> holds of.\<close>

definition makes :: "(event \<Rightarrow> bool) \<Rightarrow> 'a prog \<Rightarrow> bool" where
  "makes P p \<longleftrightarrow> (\<forall>es x. exec p es (Ok x) \<longrightarrow> (\<exists>ev \<in> set es. P ev))"

lemma makesD: "makes P p \<Longrightarrow> exec p es (Ok x) \<Longrightarrow> \<exists>ev \<in> set es. P ev"
  by (auto simp: makes_def)

lemma makes_simps: "(\<And>v. P (q, v)) \<Longrightarrow> makes P (call q)" "makes P (Raise e)"
  by (auto simp: makes_def exec_simps)

lemma makes_first: "makes P p \<Longrightarrow> makes P (bnd p f)"
  unfolding makes_def by (auto simp: bex_Un elim!: exec_bnd_OkE) metis

lemma makes_then: "(\<And>x. makes P (f x)) \<Longrightarrow> makes P (bnd p f)"
  unfolding makes_def by (auto simp: bex_Un elim!: exec_bnd_OkE) metis

lemma makes_retry_lib: "retry_law E \<Longrightarrow> 0 < n \<Longrightarrow> makes P p \<Longrightarrow> makes P (retry_lib E n w R p)"
  unfolding makes_def by (auto elim!: retry_lib_outcome simp: bex_Un) metis

lemma makes_retried: "retry_law E \<Longrightarrow> makes P p \<Longrightarrow> makes P (retried E p)"
  "retry_law E \<Longrightarrow> makes P p \<Longrightarrow> makes P (retried_on_retryable E p)"
  by (simp_all add: retried_def retried_on_retryable_def retryable_error_max_attempts_def makes_retry_lib)

end
