(* ===== verification/Monitor.thy ===== *)
theory Monitor
  imports Retrying
begin

text \<open>
  The logic the properties of programs are proved in. A monitor \<open>step\<close> reads the calls of a run
  one by one, keeps a state of its own and may reject a call (\<open>None\<close>); whether a lock is held,
  which calls were made before, and so on, are such states. \<open>wp step p N X D s\<close> is the weakest
  precondition: from the monitor state \<open>s\<close> no run of \<open>p\<close> is rejected, and every run that
  returns \<open>x\<close> ends in a monitor state that \<open>N x\<close> holds of, every run that raises \<open>e\<close> in one
  that \<open>X e\<close> holds of, and every run that goes on forever in one that \<open>D\<close> holds of. It is a function on programs, so it is
  computed by rewriting (\<open>wp_simps\<close>); loops and decorated methods have rules with an invariant.
\<close>

type_synonym 's monitor = "'s \<Rightarrow> event \<Rightarrow> 's option"

named_theorems wp_simps

fun track :: "'s monitor \<Rightarrow> 's \<Rightarrow> event list \<Rightarrow> 's option" where
  "track step s [] = Some s"
| "track step s (ev # es) = (case step s ev of None \<Rightarrow> None | Some s' \<Rightarrow> track step s' es)"

lemma track_append:
  "track step s (es1 @ es2) = (case track step s es1 of None \<Rightarrow> None | Some s' \<Rightarrow> track step s' es2)"
  by (induction es1 arbitrary: s) (auto split: option.splits)

primrec wp ::
  "'s monitor \<Rightarrow> 'a prog \<Rightarrow> ('a \<Rightarrow> 's \<Rightarrow> bool) \<Rightarrow> (exn \<Rightarrow> 's \<Rightarrow> bool) \<Rightarrow> ('s \<Rightarrow> bool) \<Rightarrow> 's \<Rightarrow> bool"
where
  "wp step (Return x) = (\<lambda>N X D s. N x s)"
| "wp step (Raise e) = (\<lambda>N X D s. X e s)"
| "wp step Diverge = (\<lambda>N X D s. D s)"
| "wp step (Call q k) = (\<lambda>N X D s.
     \<forall>v. case step s (q, v) of None \<Rightarrow> False | Some s' \<Rightarrow> wp step (k v) N X D s')"

text \<open>The condition for the outcome.\<close>

fun post ::
  "('a \<Rightarrow> 's \<Rightarrow> bool) \<Rightarrow> (exn \<Rightarrow> 's \<Rightarrow> bool) \<Rightarrow> ('s \<Rightarrow> bool) \<Rightarrow> 'a outcome \<Rightarrow> 's \<Rightarrow> bool"
where
  "post N X D (Ok x) s \<longleftrightarrow> N x s"
| "post N X D (Err e) s \<longleftrightarrow> X e s"
| "post N X D Hang s \<longleftrightarrow> D s"

text \<open>\<open>wp\<close> says what it should of the runs.\<close>

lemma wp_iff:
  "wp step p N X D s \<longleftrightarrow>
     (\<forall>es out. exec p es out \<longrightarrow> (\<exists>s'. track step s es = Some s' \<and> post N X D out s'))"
proof (induction p arbitrary: s)
  case (Call q k)
  show ?case
  proof
    assume wp: "wp step (Call q k) N X D s"
    show "\<forall>es out. exec (Call q k) es out \<longrightarrow> (\<exists>s'. track step s es = Some s' \<and> post N X D out s')"
    proof (intro allI impI)
      fix es out
      assume "exec (Call q k) es out"
      then obtain v es' where es: "es = (q, v) # es'" "exec (k v) es' out"
        by (auto simp: exec_Call_iff)
      from wp obtain s1 where "step s (q, v) = Some s1" "wp step (k v) N X D s1"
        by (auto split: option.splits)
      with es Call.IH [of "k v" s1] show "\<exists>s'. track step s es = Some s' \<and> post N X D out s'"
        by auto
    qed
  next
    assume runs: "\<forall>es out. exec (Call q k) es out \<longrightarrow>
      (\<exists>s'. track step s es = Some s' \<and> post N X D out s')"
    have "case step s (q, v) of None \<Rightarrow> False | Some s' \<Rightarrow> wp step (k v) N X D s'" for v
    proof -
      obtain es0 out0 where run0: "exec (k v) es0 out0" using exec_total by blast
      with runs have "\<exists>s'. track step s ((q, v) # es0) = Some s'" by (blast intro: exec_Call)
      then obtain s1 where s1: "step s (q, v) = Some s1" by (auto split: option.splits)
      have "\<exists>s'. track step s1 es = Some s' \<and> post N X D out s'" if "exec (k v) es out" for es out
        using runs that s1 exec_Call [of k v es out q] by fastforce
      with s1 Call.IH [of "k v" s1] show ?thesis by auto
    qed
    then show "wp step (Call q k) N X D s" by simp
  qed
qed (auto simp: exec_simps)

lemma wpD:
  "wp step p N X D s \<Longrightarrow> exec p es out \<Longrightarrow> \<exists>s'. track step s es = Some s' \<and> post N X D out s'"
  by (simp add: wp_iff)

lemma wpE:
  assumes "wp step p N X D s" "exec p es out"
  obtains s' where "track step s es = Some s'" "post N X D out s'"
  using wpD [OF assms] by blast

lemma wp_mono:
  assumes "wp step p N X D s" "\<And>x s'. N x s' \<Longrightarrow> N' x s'" "\<And>e s'. X e s' \<Longrightarrow> X' e s'" "\<And>s'. D s' \<Longrightarrow> D' s'"
  shows "wp step p N' X' D' s"
proof -
  have "post N X D out s' \<Longrightarrow> post N' X' D' out s'" for out s'
    using assms(2-4) by (cases out) auto
  with assms(1) show ?thesis unfolding wp_iff by blast
qed

lemma wp_conj:
  assumes "wp step p N X D s" "wp step p N' X' D' s"
  shows "wp step p (\<lambda>x s'. N x s' \<and> N' x s') (\<lambda>e s'. X e s' \<and> X' e s') (\<lambda>s'. D s' \<and> D' s') s"
  unfolding wp_iff
proof (intro allI impI)
  fix es out assume "exec p es out"
  then show "\<exists>s'. track step s es = Some s' \<and>
      post (\<lambda>x s'. N x s' \<and> N' x s') (\<lambda>e s'. X e s' \<and> X' e s') (\<lambda>s'. D s' \<and> D' s') out s'"
    using wpD [OF assms(1)] wpD [OF assms(2)] by (cases out) fastforce+
qed

section \<open>The combinators\<close>

declare wp.simps [wp_simps]

lemma wp_try_else [wp_simps]:
  "wp step (try_else p h f) N X D =
     wp step p (\<lambda>x. wp step (f x) N X D) (\<lambda>e. wp step (h e) N X D) D"
proof
  show "wp step (try_else p h f) N X D s =
      wp step p (\<lambda>x. wp step (f x) N X D) (\<lambda>e. wp step (h e) N X D) D s" for s
    by (induction p arbitrary: s) (auto split: option.splits)
qed

lemma wp_bnd [wp_simps]: "wp step (bnd p f) N X D = wp step p (\<lambda>x. wp step (f x) N X D) X D"
  by (simp add: bnd_try_else wp_simps)

lemma wp_catch [wp_simps]: "wp step (catch p h) N X D = wp step p N (\<lambda>e. wp step (h e) N X D) D"
  by (simp add: catch_try_else wp_simps)

definition allowed :: "'s monitor \<Rightarrow> 's \<Rightarrow> event \<Rightarrow> ('s \<Rightarrow> bool) \<Rightarrow> bool" where
  "allowed step s ev K \<longleftrightarrow> (case step s ev of None \<Rightarrow> False | Some s' \<Rightarrow> K s')"

lemma wp_call [wp_simps]:
  "wp step (call q) N X D = (\<lambda>s.
     (\<forall>r. allowed step s (q, Inr r) (N r)) \<and> (\<forall>e. allowed step s (q, Inl e) (X e)))"
  by (auto simp: call_def allowed_def fun_eq_iff split_sum_all split: option.splits)

lemma wp_signal [wp_simps]:
  "wp step (signal q) N X D = (\<lambda>s. \<forall>v. allowed step s (q, v) (N ()))"
  by (auto simp: signal_def allowed_def fun_eq_iff split: option.splits)

lemma wp_only_if [wp_simps]:
  "wp step (only_if b p) N X D = (if b then wp step p N X D else N ())"
  by (auto simp: only_if_def fun_eq_iff)

lemma wp_with_lock [wp_simps]:
  "wp step (with_lock l p) N X D = (\<lambda>s.
     \<forall>v. allowed step s (Memory (Acquire l), v)
       (wp step p (\<lambda>x s2. \<forall>v. allowed step s2 (Memory (Release l), v) (N x))
         (\<lambda>e s2. \<forall>v. allowed step s2 (Memory (Release l), v) (X e)) D))"
  by (simp add: with_lock_def ensuring_def wp_simps)

section \<open>Rules with an invariant\<close>

lemma wp_for_each:
  assumes "I s"
    and "\<And>x s. x \<in> set xs \<Longrightarrow> I s \<Longrightarrow> wp step (f x) (\<lambda>_. I) X D s"
    and "\<And>s. I s \<Longrightarrow> N () s"
  shows "wp step (for_each f xs) N X D s"
  using assms
proof (induction xs arbitrary: s)
  case (Cons x xs)
  have "wp step (f x) (\<lambda>_. wp step (for_each f xs) N X D) X D s"
    using Cons.prems(1,2) by (rule_tac wp_mono [of _ _ "\<lambda>_. I" X D]) (auto intro!: Cons.IH Cons.prems(3))
  then show ?case by (simp add: wp_simps)
qed simp

lemma wp_for_each_upto:
  assumes "I [] s"
    and "\<And>ys x zs s. xs = ys @ x # zs \<Longrightarrow> I ys s \<Longrightarrow> wp step (f x) (\<lambda>_. I (ys @ [x])) X D s"
    and "\<And>s. I xs s \<Longrightarrow> N () s"
  shows "wp step (for_each f xs) N X D s"
  using assms
proof (induction xs arbitrary: s I)
  case (Cons x xs)
  have "wp step (f x) (\<lambda>_. I [x]) X D s"
    using Cons.prems(1) Cons.prems(2) [of "[]" x xs] by simp
  then have "wp step (f x) (\<lambda>_. wp step (for_each f xs) N X D) X D s"
  proof (rule wp_mono)
    fix s' assume "I [x] s'"
    then show "wp step (for_each f xs) N X D s'"
      using Cons.prems(2) [of "x # _"] Cons.prems(3) by (intro Cons.IH [of "\<lambda>ys. I (x # ys)"]) auto
  qed auto
  then show ?case by (simp add: wp_simps)
qed simp

lemma wp_map_prog:
  assumes "I s"
    and "\<And>x s. x \<in> set xs \<Longrightarrow> I s \<Longrightarrow> wp step (f x) (\<lambda>y s'. I s' \<and> R x y) X D s"
    and "\<And>s ys. I s \<Longrightarrow> list_all2 R xs ys \<Longrightarrow> N ys s"
  shows "wp step (map_prog f xs) N X D s"
  using assms
proof (induction xs arbitrary: s N)
  case (Cons x xs)
  have rest: "wp step (map_prog f xs) (\<lambda>ys. N (y # ys)) X D s'" if "I s'" "R x y" for y s'
    using that Cons.prems(2,3) by (intro Cons.IH) auto
  have "wp step (f x) (\<lambda>y s'. I s' \<and> R x y) X D s"
    using Cons.prems(1,2) by simp
  then have "wp step (f x) (\<lambda>y. wp step (map_prog f xs) (\<lambda>ys. N (y # ys)) X D) X D s"
    by (rule wp_mono) (use rest in auto)
  then show ?case
    by (simp add: wp_simps)
qed simp

lemma wp_attempts:
  assumes "attempts n P p es out" "I s"
    and "\<And>s. I s \<Longrightarrow> wp step p N (\<lambda>e s'. X e s' \<and> (P e \<longrightarrow> I s')) D s"
  shows "\<exists>s'. track step s es = Some s' \<and> post N X D out s'"
  using assms
proof (induction arbitrary: s rule: attempts.induct)
  case (attempt_last p es out n P)
  from wpD [OF attempt_last.prems(2) [OF attempt_last.prems(1)] attempt_last.hyps(1)]
  show ?case by (cases out) auto
next
  case (attempt_again p es1 e P n es2 out)
  from wpD [OF attempt_again.prems(2) [OF attempt_again.prems(1)] attempt_again.hyps(1)]
  obtain s1 where s1: "track step s es1 = Some s1" "I s1"
    using attempt_again.hyps(2) by auto
  from attempt_again.IH [OF s1(2) attempt_again.prems(2)] s1(1)
  show ?case by (simp add: track_append)
qed

lemma wp_retry_lib:
  assumes "retry_law E" "0 < n" "I s"
    and "\<And>s. I s \<Longrightarrow> wp step p N (\<lambda>e s'. X e s' \<and> (P e \<longrightarrow> I s')) D s"
  shows "wp step (retry_lib E n w P p) N X D s"
  unfolding wp_iff
proof (intro allI impI)
  fix es out assume "exec (retry_lib E n w P p) es out"
  then have "attempts n P p es out" using assms(1,2) by (simp add: retry_lib_attempts)
  then show "\<exists>s'. track step s es = Some s' \<and> post N X D out s'"
    using assms(3,4) by (rule wp_attempts)
qed

text \<open>The state a failed attempt leaves is as good as the one before it.\<close>

lemma wp_retried:
  assumes "retry_law E" "I s"
    and "\<And>s. I s \<Longrightarrow> wp step p N (\<lambda>e s'. X e s' \<and> (retry_if_connection_error e \<longrightarrow> I s')) D s"
  shows "wp step (retried E p) N X D s"
  unfolding retried_def by (rule wp_retry_lib [OF assms(1) _ assms(2,3)]) auto

lemma wp_retried_on_retryable:
  assumes "retry_law E" "I s"
    and "\<And>s. I s \<Longrightarrow> wp step p N (\<lambda>e s'. X e s' \<and> (retry_if_retryable_error e \<longrightarrow> I s')) D s"
  shows "wp step (retried_on_retryable E p) N X D s"
  unfolding retried_on_retryable_def
  by (rule wp_retry_lib [OF assms(1) _ assms(2,3)]) (auto simp: retryable_error_max_attempts_def)

text \<open>Calls the monitor does not react to in a state.\<close>

lemma track_stays: "list_all (\<lambda>ev. step s ev = Some s) es \<Longrightarrow> track step s es = Some s"
  by (induction es) auto

lemma wp_stays_or_hangs:
  assumes "emits (\<lambda>ev. step s ev = Some s) p" "\<And>x. N x s" "\<And>e. X e s" "D s"
  shows "wp step p N X D s"
  unfolding wp_iff
proof (intro allI impI)
  fix es out assume run: "exec p es out"
  with assms(1) have "track step s es = Some s" by (simp add: emitsD track_stays)
  then show "\<exists>s'. track step s es = Some s' \<and> post N X D out s'"
    using assms(2-4) by (cases out) auto
qed

lemma wp_stays:
  assumes "emits (\<lambda>ev. step s ev = Some s) p" "halts p" "\<And>x. N x s" "\<And>e. X e s"
  shows "wp step p N X D s"
  unfolding wp_iff
proof (intro allI impI)
  fix es out assume run: "exec p es out"
  with assms(1) have "track step s es = Some s" by (simp add: emitsD track_stays)
  then show "\<exists>s'. track step s es = Some s' \<and> post N X D out s'"
    using run assms(2-4) by (cases out) (auto dest: haltsD)
qed

lemma wp_bnd_stays:
  assumes "emits (\<lambda>ev. step s ev = Some s) p" "\<And>x. wp step (f x) N X D s" "\<And>e. X e s" "D s"
  shows "wp step (bnd p f) N X D s"
  unfolding wp_bnd by (rule wp_stays_or_hangs) (use assms in auto)

text \<open>A program no call of which is rejected, in whatever state the monitor is.\<close>

definition accepted :: "'s monitor \<Rightarrow> 'a prog \<Rightarrow> bool" where
  "accepted step p \<longleftrightarrow> (\<forall>s. wp step p (\<lambda>_ _. True) (\<lambda>_ _. True) (\<lambda>_. True) s)"

lemma post_True: "post (\<lambda>_ _. True) (\<lambda>_ _. True) (\<lambda>_. True) out s \<longleftrightarrow> True"
  by (cases out) simp_all

lemma acceptedI: "(\<And>s. wp step p (\<lambda>_ _. True) (\<lambda>_ _. True) (\<lambda>_. True) s) \<Longrightarrow> accepted step p"
  by (simp add: accepted_def)

lemma accepted_bnd: "accepted step p \<Longrightarrow> (\<And>x. accepted step (f x)) \<Longrightarrow> accepted step (bnd p f)"
  unfolding accepted_def wp_bnd
  by (intro allI, rule wp_mono [of step p "\<lambda>_ _. True" "\<lambda>_ _. True" "\<lambda>_. True"]) simp_all

lemma accepted_only_if: "accepted step p \<Longrightarrow> accepted step (only_if b p)"
  by (cases b) (simp_all add: accepted_def only_if_def)

lemma accepted_emits: "emits (\<lambda>ev. \<forall>s. step s ev \<noteq> None) p \<Longrightarrow> accepted step p"
proof (rule acceptedI)
  fix s assume p: "emits (\<lambda>ev. \<forall>s. step s ev \<noteq> None) p"
  have "list_all (\<lambda>ev. \<forall>s. step s ev \<noteq> None) es \<Longrightarrow> \<exists>s'. track step s es = Some s'" for es
    by (induction es arbitrary: s) (auto split: option.splits)
  then show "wp step p (\<lambda>_ _. True) (\<lambda>_ _. True) (\<lambda>_. True) s"
    unfolding wp_iff post_True using emitsD [OF p] by simp
qed

lemma allowed_any: "step s ev \<noteq> None \<Longrightarrow> (\<And>s'. K s') \<Longrightarrow> allowed step s ev K"
  by (auto simp: allowed_def)

lemma accepted_with_lock:
  assumes "accepted step p" "\<And>s v. step s (Memory (Acquire l), v) \<noteq> None"
    "\<And>s v. step s (Memory (Release l), v) \<noteq> None"
  shows "accepted step (with_lock l p)"
proof (rule acceptedI)
  fix s
  have "wp step p (\<lambda>x s2. \<forall>v. allowed step s2 (Memory (Release l), v) (\<lambda>_. True))
      (\<lambda>e s2. \<forall>v. allowed step s2 (Memory (Release l), v) (\<lambda>_. True)) (\<lambda>_. True) s" for s
    by (rule wp_mono [OF assms(1) [unfolded accepted_def, rule_format]])
      (intro allI allowed_any assms(3) TrueI)+
  then show "wp step (with_lock l p) (\<lambda>_ _. True) (\<lambda>_ _. True) (\<lambda>_. True) s"
    unfolding wp_with_lock by (intro allI allowed_any assms(2))
qed

text \<open>The calls of some kind, in their order.\<close>

definition recorder :: "(request \<Rightarrow> bool) \<Rightarrow> request list monitor" where
  "recorder P s ev = Some (if P (fst ev) then s @ [fst ev] else s)"

lemma track_recorder: "track (recorder P) s es = Some (s @ filter P (map fst es))"
  by (induction es arbitrary: s) (auto simp: recorder_def)

lemma allowed_recorder [wp_simps]:
  "allowed (recorder P) s (q, v) K \<longleftrightarrow> K (if P q then s @ [q] else s)"
  by (simp add: allowed_def recorder_def)

section \<open>Lock discipline\<close>

text \<open>
  The monitor of one lock: its state says whether the program holds the lock. It rejects taking
  the lock twice, giving it back without having it, and a guarded call without it.
\<close>

definition guarded :: "lock \<Rightarrow> (request \<Rightarrow> bool) \<Rightarrow> bool monitor" where
  "guarded l G held ev =
     (if fst ev = Memory (Acquire l) then (if held then None else Some True)
      else if fst ev = Memory (Release l) then (if held then Some False else None)
      else if G (fst ev) \<and> \<not> held then None
      else Some held)"

text \<open>The lock is free before and after, and the guarded calls are made under it.\<close>

definition disciplined :: "lock \<Rightarrow> (request \<Rightarrow> bool) \<Rightarrow> event list \<Rightarrow> bool" where
  "disciplined l G es \<longleftrightarrow> track (guarded l G) False es = Some False"

lemma disciplined_Nil [simp]: "disciplined l G []"
  by (simp add: disciplined_def)

lemma disciplined_append: "disciplined l G es1 \<Longrightarrow> disciplined l G es2 \<Longrightarrow> disciplined l G (es1 @ es2)"
  by (simp add: disciplined_def track_append)

definition keeps_lock :: "lock \<Rightarrow> (request \<Rightarrow> bool) \<Rightarrow> 'a prog \<Rightarrow> bool" where
  "keeps_lock l G p \<longleftrightarrow> wp (guarded l G) p (\<lambda>_ held. \<not> held) (\<lambda>_ held. \<not> held) (\<lambda>_. False) False"

lemma keeps_lock_disciplined: "keeps_lock l G p \<Longrightarrow> exec p es out \<Longrightarrow> disciplined l G es"
  unfolding keeps_lock_def disciplined_def by (drule (1) wpD) (cases out; auto)

lemma keeps_lock_halts: "keeps_lock l G p \<Longrightarrow> halts p"
  unfolding keeps_lock_def by (rule haltsI) (auto dest: wpD)

lemma keeps_lockI:
  assumes "halts p" "\<And>es out. exec p es out \<Longrightarrow> disciplined l G es"
  shows "keeps_lock l G p"
  unfolding keeps_lock_def wp_iff
proof (intro allI impI)
  fix es out assume run: "exec p es out"
  with assms show "\<exists>s'. track (guarded l G) False es = Some s' \<and>
      post (\<lambda>_ held. \<not> held) (\<lambda>_ held. \<not> held) (\<lambda>_. False) out s'"
    by (cases out) (auto simp: disciplined_def dest: haltsD)
qed

named_theorems lock_intros

text \<open>A program that neither touches the lock nor makes a guarded call.\<close>

definition lock_free :: "lock \<Rightarrow> (request \<Rightarrow> bool) \<Rightarrow> event \<Rightarrow> bool" where
  "lock_free l G ev \<longleftrightarrow> fst ev \<noteq> Memory (Acquire l) \<and> fst ev \<noteq> Memory (Release l) \<and> \<not> G (fst ev)"

lemma keeps_lock_free: "emits (lock_free l G) p \<Longrightarrow> halts p \<Longrightarrow> keeps_lock l G p"
  unfolding keeps_lock_def
  by (rule wp_stays) (auto elim!: emits_mono simp: guarded_def lock_free_def)

definition lock_untouched :: "lock \<Rightarrow> event \<Rightarrow> bool" where
  "lock_untouched l ev \<longleftrightarrow> fst ev \<noteq> Memory (Acquire l) \<and> fst ev \<noteq> Memory (Release l)"

lemma keeps_lock_with_lock [lock_intros]:
  assumes "emits (lock_untouched l) p" "halts p"
  shows "keeps_lock l G (with_lock l p)"
proof -
  have "wp (guarded l G) p (\<lambda>_ held. held) (\<lambda>_ held. held) (\<lambda>_. False) True"
    using assms by (intro wp_stays) (auto elim!: emits_mono simp: guarded_def lock_untouched_def)
  then have "wp (guarded l G) p (\<lambda>x s2. \<forall>v. allowed (guarded l G) s2 (Memory (Release l), v) (\<lambda>held. \<not> held))
      (\<lambda>e s2. \<forall>v. allowed (guarded l G) s2 (Memory (Release l), v) (\<lambda>held. \<not> held)) (\<lambda>_. False) True"
    by (rule wp_mono) (auto simp: allowed_def guarded_def)
  then show ?thesis
    by (simp add: keeps_lock_def wp_with_lock) (simp add: allowed_def guarded_def)
qed

lemma keeps_lock_try_else [lock_intros]:
  assumes "keeps_lock l G p" "\<And>e. keeps_lock l G (h e)" "\<And>x. keeps_lock l G (f x)"
  shows "keeps_lock l G (try_else p h f)"
  using assms unfolding keeps_lock_def wp_try_else by (elim wp_mono) (auto elim: wp_mono)

lemma keeps_lock_simple [lock_intros]:
  "keeps_lock l G (Return x)" "keeps_lock l G (Raise e)"
  by (simp_all add: keeps_lock_def)

lemma keeps_lock_bnd [lock_intros]:
  "keeps_lock l G p \<Longrightarrow> (\<And>x. keeps_lock l G (f x)) \<Longrightarrow> keeps_lock l G (bnd p f)"
  by (simp add: bnd_try_else lock_intros)

lemma keeps_lock_catch [lock_intros]:
  "keeps_lock l G p \<Longrightarrow> (\<And>e. keeps_lock l G (h e)) \<Longrightarrow> keeps_lock l G (catch p h)"
  by (simp add: catch_try_else lock_intros)

lemma keeps_lock_only_if [lock_intros]: "(b \<Longrightarrow> keeps_lock l G p) \<Longrightarrow> keeps_lock l G (only_if b p)"
  by (simp add: only_if_def lock_intros)

lemma keeps_lock_for_each [lock_intros]:
  "(\<And>x. x \<in> set xs \<Longrightarrow> keeps_lock l G (f x)) \<Longrightarrow> keeps_lock l G (for_each f xs)"
  by (induction xs) (auto intro: lock_intros)

lemma keeps_lock_map_prog [lock_intros]:
  "(\<And>x. x \<in> set xs \<Longrightarrow> keeps_lock l G (f x)) \<Longrightarrow> keeps_lock l G (map_prog f xs)"
  by (induction xs) (auto intro: lock_intros)

lemma keeps_lock_retry_lib:
  assumes "retry_law E" "0 < n" "keeps_lock l G p"
  shows "keeps_lock l G (retry_lib E n w P p)"
  unfolding keeps_lock_def
proof (rule wp_retry_lib [OF assms(1,2), where I = "\<lambda>held. \<not> held"])
  fix s :: bool assume "\<not> s"
  with assms(3) show "wp (guarded l G) p (\<lambda>_ held. \<not> held)
      (\<lambda>e held. \<not> held \<and> (P e \<longrightarrow> \<not> held)) (\<lambda>_. False) s"
    by (auto simp: keeps_lock_def elim: wp_mono)
qed simp

lemma keeps_lock_retried [lock_intros]:
  "retry_law E \<Longrightarrow> keeps_lock l G p \<Longrightarrow> keeps_lock l G (retried E p)"
  unfolding retried_def by (rule keeps_lock_retry_lib) simp_all

text \<open>Holding another lock in the meantime.\<close>

lemma keeps_lock_with_other_lock:
  assumes "keeps_lock l G p" "l \<noteq> l'" "\<not> G (Memory (Acquire l'))" "\<not> G (Memory (Release l'))"
  shows "keeps_lock l G (with_lock l' p)"
proof -
  have "wp (guarded l G) p (\<lambda>x s2. \<forall>v. allowed (guarded l G) s2 (Memory (Release l'), v) (\<lambda>held. \<not> held))
      (\<lambda>e s2. \<forall>v. allowed (guarded l G) s2 (Memory (Release l'), v) (\<lambda>held. \<not> held)) (\<lambda>_. False) False"
    using assms(1) unfolding keeps_lock_def
    by (rule wp_mono) (use assms(2-4) in \<open>auto simp: allowed_def guarded_def\<close>)
  then show ?thesis
    using assms(2-4) by (simp add: keeps_lock_def wp_with_lock) (simp add: allowed_def guarded_def)
qed

section \<open>The answer of a call as a value of a type\<close>

text \<open>
  What the code does with the answer needs a value of some type; on another value it stops with
  an exception of its own, \<open>unexpected_answer\<close>.
\<close>

definition unexpected_answer :: exn where
  "unexpected_answer = AttributeError ''unexpected answer''"

definition expect :: "(resp \<Rightarrow> 'a option) \<Rightarrow> resp \<Rightarrow> 'a prog" where
  "expect sel r = (case sel r of Some x \<Rightarrow> Return x | None \<Rightarrow> Raise unexpected_answer)"

lemma wp_expect [wp_simps]:
  "wp step (expect sel r) N X D =
     (case sel r of Some x \<Rightarrow> N x | None \<Rightarrow> X unexpected_answer)"
  by (auto simp: expect_def fun_eq_iff split: option.split)

lemma exec_expect [exec_simps]:
  "exec (expect sel r) es out \<longleftrightarrow>
     es = [] \<and> out = (case sel r of Some x \<Rightarrow> Ok x | None \<Rightarrow> Err unexpected_answer)"
  by (auto simp: expect_def exec_simps split: option.splits)

lemma emits_expect [emits_intros]: "emits P (expect sel r)"
  by (auto simp: emits_def exec_simps)

lemma halts_expect [halts_intros]: "halts (expect sel r)"
  by (auto simp: halts_def exec_simps split: option.splits)

lemma keeps_lock_expect [lock_intros]: "keeps_lock l G (expect sel r)"
  by (intro keeps_lock_free emits_intros halts_intros)

lemma keeps_lock_call: "lock_free l G (q, undefined) \<Longrightarrow> keeps_lock l G (call q)"
  by (intro keeps_lock_free emits_intros halts_intros) (simp add: lock_free_def)

lemma keeps_lock_signal: "lock_free l G (q, undefined) \<Longrightarrow> keeps_lock l G (signal q)"
  by (intro keeps_lock_free emits_intros halts_intros) (simp add: lock_free_def)

fun as_bool :: "resp \<Rightarrow> bool option" where
  "as_bool (RBool b) = Some b" | "as_bool _ = None"
fun as_int :: "resp \<Rightarrow> int option" where
  "as_int (RInt i) = Some i" | "as_int _ = None"
fun as_str :: "resp \<Rightarrow> string option" where
  "as_str (RStr s) = Some s" | "as_str _ = None"
fun as_strs :: "resp \<Rightarrow> string list option" where
  "as_strs (RStrs s) = Some s" | "as_strs _ = None"
fun as_poller :: "resp \<Rightarrow> nat option" where
  "as_poller (RPoller p) = Some p" | "as_poller _ = None"
fun as_nsg :: "resp \<Rightarrow> nsg option" where
  "as_nsg (RNsg x) = Some x" | "as_nsg _ = None"
fun as_nsgs :: "resp \<Rightarrow> nsg list option" where
  "as_nsgs (RNsgs x) = Some x" | "as_nsgs _ = None"
fun as_rules :: "resp \<Rightarrow> security_rule list option" where
  "as_rules (RRules x) = Some x" | "as_rules _ = None"
fun as_nic :: "resp \<Rightarrow> nic option" where
  "as_nic (RNic x) = Some x" | "as_nic _ = None"
fun as_public_ip :: "resp \<Rightarrow> public_ip option" where
  "as_public_ip (RPublicIp x) = Some x" | "as_public_ip _ = None"
fun as_subnet :: "resp \<Rightarrow> subnet option" where
  "as_subnet (RSubnet x) = Some x" | "as_subnet _ = None"
fun as_vnets :: "resp \<Rightarrow> vnet list option" where
  "as_vnets (RVnets x) = Some x" | "as_vnets _ = None"
fun as_vm :: "resp \<Rightarrow> vm option" where
  "as_vm (RVm x) = Some x" | "as_vm _ = None"
fun as_image :: "resp \<Rightarrow> (string \<times> os_type) option" where
  "as_image (RImage i t) = Some (i, t)" | "as_image _ = None"
fun as_vm_image :: "resp \<Rightarrow> (os_type \<times> plan option) option" where
  "as_vm_image (RVmImage t p) = Some (t, p)" | "as_vm_image _ = None"
fun as_ssh_key :: "resp \<Rightarrow> ssh_key option" where
  "as_ssh_key (RSshKey x) = Some x" | "as_ssh_key _ = None"
fun as_blob :: "resp \<Rightarrow> (string \<times> string) option" where
  "as_blob (RBlob s i) = Some (s, i)" | "as_blob _ = None"
fun as_copied :: "resp \<Rightarrow> copy_state option" where
  "as_copied (RCopied x) = Some x" | "as_copied _ = None"
fun as_clients :: "resp \<Rightarrow> clients_manager option" where
  "as_clients (RClients x) = Some x" | "as_clients _ = None"

text \<open>An answer that may be \<^verbatim>\<open>None\<close>.\<close>

definition as_opt :: "(resp \<Rightarrow> 'a option) \<Rightarrow> resp \<Rightarrow> 'a option option" where
  "as_opt sel r = (if r = RNone then Some None else map_option Some (sel r))"

section \<open>What a program returns\<close>

definition yields :: "('a \<Rightarrow> bool) \<Rightarrow> 'a prog \<Rightarrow> bool" where
  "yields Q p \<longleftrightarrow> (\<forall>es x. exec p es (Ok x) \<longrightarrow> Q x)"

lemma yieldsD: "yields Q p \<Longrightarrow> exec p es (Ok x) \<Longrightarrow> Q x"
  by (auto simp: yields_def)

lemma yields_simps:
  "yields Q (Return x) \<longleftrightarrow> Q x" "yields Q (Raise e)" "yields Q Diverge"
  by (auto simp: yields_def exec_simps)

lemma yields_bnd: "yields R p \<Longrightarrow> (\<And>x. R x \<Longrightarrow> yields Q (f x)) \<Longrightarrow> yields Q (bnd p f)"
  unfolding yields_def by (blast elim: exec_bnd_OkE)

lemma halts_bnd_yields: "halts p \<Longrightarrow> yields R p \<Longrightarrow> (\<And>x. R x \<Longrightarrow> halts (f x)) \<Longrightarrow> halts (bnd p f)"
  by (rule haltsI) (auto simp: exec_bnd dest: haltsD yieldsD)

lemma emits_bnd_yields: "emits P p \<Longrightarrow> yields R p \<Longrightarrow> (\<And>x. R x \<Longrightarrow> emits P (f x)) \<Longrightarrow> emits P (bnd p f)"
  by (rule emitsI, erule exec_bndE) (simp_all, metis emitsD yieldsD, (metis emitsD)+)

lemma yields_try_else: "(\<And>e. yields Q (h e)) \<Longrightarrow> (\<And>x. yields Q (f x)) \<Longrightarrow> yields Q (try_else p h f)"
  by (auto simp: yields_def exec_try_else)

lemma yields_expect: "(\<And>x. sel r = Some x \<Longrightarrow> Q x) \<Longrightarrow> yields Q (expect sel r)"
  by (auto simp: yields_def exec_simps split: option.splits)

lemma yields_any: "yields (\<lambda>_. True) p"
  by (simp add: yields_def)

lemma yields_map_prog: "(\<And>x. yields (Q x) (f x)) \<Longrightarrow> yields (list_all2 Q xs) (map_prog f xs)"
proof (induction xs)
  case (Cons x xs)
  then show ?case
    by (auto intro!: yields_bnd [where R = "Q x"] yields_bnd [where R = "list_all2 Q xs"]
      simp: yields_simps)
qed (simp add: yields_simps)

text \<open>Start a long running operation and wait for its result.\<close>

definition poll_result :: "resp prog \<Rightarrow> resp prog" where
  "poll_result start =
     bnd start (\<lambda>r. bnd (expect as_poller r) (\<lambda>n. call (Poller (PollResult n))))"

definition poll_wait :: "resp prog \<Rightarrow> resp prog" where
  "poll_wait start =
     bnd start (\<lambda>r. bnd (expect as_poller r) (\<lambda>n. call (Poller (PollWait n))))"

lemma wp_poll_result [wp_simps]:
  "wp step (poll_result p) N X D =
     wp step p (\<lambda>r. case as_poller r of Some n \<Rightarrow> wp step (call (Poller (PollResult n))) N X D
       | None \<Rightarrow> X unexpected_answer) X D"
  unfolding poll_result_def wp_bnd wp_expect ..

lemma wp_poll_wait [wp_simps]:
  "wp step (poll_wait p) N X D =
     wp step p (\<lambda>r. case as_poller r of Some n \<Rightarrow> wp step (call (Poller (PollWait n))) N X D
       | None \<Rightarrow> X unexpected_answer) X D"
  unfolding poll_wait_def wp_bnd wp_expect ..

lemma emits_poll [emits_intros]:
  "emits P p \<Longrightarrow> (\<And>n v. P (Poller (PollResult n), v)) \<Longrightarrow> emits P (poll_result p)"
  "emits P p \<Longrightarrow> (\<And>n v. P (Poller (PollWait n), v)) \<Longrightarrow> emits P (poll_wait p)"
  unfolding poll_result_def poll_wait_def by (auto intro!: emits_intros)

lemma halts_poll [halts_intros]: "halts p \<Longrightarrow> halts (poll_result p)" "halts p \<Longrightarrow> halts (poll_wait p)"
  unfolding poll_result_def poll_wait_def by (auto intro!: halts_intros)

text \<open>A check that raises what it found wrong.\<close>

definition raising :: "exn + 'a \<Rightarrow> 'a prog" where
  "raising v = (case v of Inl e \<Rightarrow> Raise e | Inr x \<Rightarrow> Return x)"

lemma emits_raising [emits_intros]: "emits P (raising v)"
  by (auto simp: raising_def intro!: emits_intros split: sum.split)

lemma halts_raising [halts_intros]: "halts (raising v)"
  by (auto simp: raising_def intro!: halts_intros split: sum.split)

lemma wp_raising [wp_simps]: "wp step (raising v) N X D = (case v of Inl e \<Rightarrow> X e | Inr x \<Rightarrow> N x)"
  by (auto simp: raising_def fun_eq_iff split: sum.split)

lemma yields_raising: "yields (\<lambda>x. v = Inr x) (raising v)"
  by (auto simp: raising_def yields_simps split: sum.split)

lemma keeps_lock_raising [lock_intros]: "keeps_lock l G (raising x)"
  by (auto intro!: lock_intros simp: raising_def split: sum.split)

end
