(* ===== verification/LockService.thy ===== *)
theory LockService
  imports Monitor
begin

text \<open>
  \<^verbatim>\<open>domain/services/lock_service.py\<close>: the provider of one lock object per key, with
  double-checked creation and removal, and what happens when several threads use it at once.
\<close>

section \<open>GenericLockProvider\<close>

fun as_lock :: "resp \<Rightarrow> lock option" where
  "as_lock (RLock l) = Some l" | "as_lock _ = None"

definition has_lock_resource :: "string \<Rightarrow> bool prog" where
  "has_lock_resource lock_key =
     bnd (call (Memory (DictHas LockDictionary [lock_key]))) (expect as_bool)"

definition allocate_lock :: "lock prog" where
  "allocate_lock = bnd (call (Memory NewLock)) (expect as_lock)"

definition get_resource_lock :: "string \<Rightarrow> lock prog" where
  "get_resource_lock lock_key =
     thn (bnd (has_lock_resource lock_key) (\<lambda>present. only_if (\<not> present)
       (with_lock ProviderLock
         (bnd (has_lock_resource lock_key) (\<lambda>present. only_if (\<not> present)
           (bnd allocate_lock (\<lambda>l.
             thn (call (Memory (DictPutLock LockDictionary [lock_key] l))) (Return ()))))))))
     (bnd (call (Memory (DictGet LockDictionary [lock_key]))) (expect as_lock))"

definition remove_lock_resource :: "string \<Rightarrow> unit prog" where
  "remove_lock_resource lock_key =
     bnd (has_lock_resource lock_key) (\<lambda>present. only_if present
       (with_lock ProviderLock
         (bnd (has_lock_resource lock_key) (\<lambda>present. only_if present
           (thn (call (Memory (DictDel LockDictionary [lock_key]))) (Return ()))))))"

lemma halts_lock_service [halts_intros]:
  "halts (get_resource_lock k)" "halts (remove_lock_resource k)"
  unfolding get_resource_lock_def remove_lock_resource_def has_lock_resource_def allocate_lock_def
  by (auto intro!: halts_intros)

lemma emits_get_resource_lock [emits_intros]:
  "(\<And>m v. P (Memory m, v)) \<Longrightarrow> emits P (get_resource_lock k)"
  unfolding get_resource_lock_def has_lock_resource_def allocate_lock_def
  by (auto intro!: emits_intros)

lemma emits_remove_lock_resource [emits_intros]:
  "(\<And>m v. P (Memory m, v)) \<Longrightarrow> emits P (remove_lock_resource k)"
  unfolding remove_lock_resource_def has_lock_resource_def
  by (auto intro!: emits_intros)

end
