(* ===== verification/Names.thy ===== *)
theory Names
  imports Monitor
begin

text \<open>
  Names and other small helpers: \<^verbatim>\<open>domain/services/name_provider.py\<close>,
  \<^verbatim>\<open>common/parsers/azure_resource_id_parser.py\<close>, \<^verbatim>\<open>domain/services/tags.py\<close>,
  \<^verbatim>\<open>domain/services/command_cancellation.py\<close>, \<^verbatim>\<open>common/helpers/ip_allocation_helper.py\<close> and
  \<^verbatim>\<open>common/helpers/cidr_helper.py\<close>. The lemmas give the bounds on generated names, the shape of
  subnet names and the names that are read back from resource ids.
\<close>

section \<open>NameProviderService\<close>

definition is_name_char :: "char \<Rightarrow> bool" where
  [str_simps]: "is_name_char c \<longleftrightarrow> is_alnum c \<or> c = CHR ''-''"

text \<open>
  \<^verbatim>\<open>re.sub("[^a-zA-Z0-9-]|^-+", "", name)\<close>: the second alternative matches at the very beginning
  only, the first one everywhere.
\<close>

definition strip_special :: "string \<Rightarrow> string" where
  "strip_special name = filter is_name_char (dropWhile (\<lambda>c. c = CHR ''-'') name)"

text \<open>\<^verbatim>\<open>generate_name\<close> once the postfix is known; \<open>max_length\<close> may be too small for it.\<close>

definition truncate_name :: "string \<Rightarrow> int \<Rightarrow> string" where
  "truncate_name name max_name_length =
     (let truncated =
        (if max_name_length < int (length name)
         then take (nat (int (length name) - (int (length name) - max_name_length))) name
         else name)
      in if py_endswith truncated ''-'' then butlast truncated else truncated)"

definition name_with_postfix :: "string \<Rightarrow> string \<Rightarrow> int \<Rightarrow> string" where
  "name_with_postfix name postfix max_length =
     truncate_name (strip_special name) (max_length - (int (length postfix) + 1)) @ ''-'' @ postfix"

definition generate_short_unique_string :: "string prog" where
  "generate_short_unique_string =
     bnd (call (Runtime Uuid4)) (\<lambda>r. bnd (expect as_str r) (\<lambda>u. Return (take 8 u)))"

text \<open>
  Without a postfix the length reserved for it is 9, whatever the length of the unique string.
\<close>

definition generate_name :: "string \<Rightarrow> string option \<Rightarrow> int \<Rightarrow> string prog" where
  "generate_name name postfix max_length =
     (if truthy postfix then Return (name_with_postfix name (the postfix) max_length)
      else bnd generate_short_unique_string (\<lambda>u.
        Return (truncate_name (strip_special name) (max_length - 9) @ ''-'' @ u)))"

definition normalize_name :: "string option \<Rightarrow> string option" where
  "normalize_name name =
     (if truthy name then Some (py_replace CHR '' '' ''-'' (py_lower (the name))) else None)"

definition format_subnet_name :: "string \<Rightarrow> string \<Rightarrow> string" where
  "format_subnet_name resource_group_name subnet_cidr =
     py_replace CHR ''/'' ''-'' (py_replace CHR '' '' [] (resource_group_name @ ''_'' @ subnet_cidr))"

section \<open>AzureResourceIdParser\<close>

definition get_name_from_resource_id :: "string \<Rightarrow> string" where
  "get_name_from_resource_id resource_id =
     last_part CHR ''/'' (rstrip_by (\<lambda>c. c = CHR ''/'') resource_id)"

text \<open>
  \<^verbatim>\<open>re.match(".*" + pat + rest, s, IGNORECASE)\<close>: the dot-star is greedy, so the last place is
  taken where the pattern (in lower case) and \<open>rest\<close> match; the dot does not match a newline.
\<close>

fun match_last :: "string \<Rightarrow> (string \<Rightarrow> string option) \<Rightarrow> string \<Rightarrow> string option" where
  "match_last pat rest [] = None"
| "match_last pat rest (c # cs) =
     (case (if c = CHR 0x0A then None else match_last pat rest cs) of
        Some g \<Rightarrow> Some g
      | None \<Rightarrow>
          if prefix pat (py_lower (c # cs)) then rest (drop (length pat) (c # cs)) else None)"

definition get_resource_group_name :: "string \<Rightarrow> exn + string" where
  "get_resource_group_name resource_id =
     (case match_last ''resourcegroups/''
        (\<lambda>r. if CHR ''/'' \<in> set r then Some (takeWhile (\<lambda>c. c \<noteq> CHR ''/'') r) else None)
        resource_id of
        Some g \<Rightarrow> Inr g
      | None \<Rightarrow> Inl (none_attribute ''group''))"

definition get_image_name :: "string \<Rightarrow> string" where
  "get_image_name resource_id =
     (case match_last ''images/'' (\<lambda>r. Some (takeWhile (\<lambda>c. c \<noteq> CHR ''/'') r)) resource_id of
        Some g \<Rightarrow> g
      | None \<Rightarrow> [])"

section \<open>TagService\<close>

definition get_tags :: "string option \<Rightarrow> reservation \<Rightarrow> dict" where
  "get_tags name rs =
     (let result = [(''CreatedBy'', ''Cloudshell'')];
          result = (if truthy name then AList.update ''Name'' (the name) result else result);
          result = (if rs_owner rs \<noteq> [] then AList.update ''Owner'' (rs_owner rs) result else result);
          result = (if rs_reservation_id rs \<noteq> []
            then AList.update ''SandboxId'' (rs_reservation_id rs) result else result);
          result = (if rs_blueprint rs \<noteq> []
            then AList.update ''Blueprint'' (rs_blueprint rs) result else result)
      in if rs_domain rs \<noteq> [] then AList.update ''Domain'' (rs_domain rs) result else result)"

definition try_find_tag :: "dict option \<Rightarrow> string \<Rightarrow> string option" where
  "try_find_tag tags_list tag_key = (case tags_list of None \<Rightarrow> None | Some d \<Rightarrow> map_of d tag_key)"

section \<open>Other helpers\<close>

text \<open>The allocation method comes as text (an attribute) or as the SDK's enumeration.\<close>

datatype allocation_method = AllocationText string | AllocationEnum ip_allocation

fun is_static_allocation :: "allocation_method \<Rightarrow> bool" where
  "is_static_allocation (AllocationText s) \<longleftrightarrow> py_lower s = ''static''"
| "is_static_allocation (AllocationEnum a) \<longleftrightarrow> a = StaticAllocation"

definition to_azure_type :: "string \<Rightarrow> ip_allocation" where
  "to_azure_type private_ip_allocation_method =
     (if py_lower private_ip_allocation_method = ''cloudshell allocation''
      then StaticAllocation else DynamicAllocation)"

text \<open>Only \<^verbatim>\<open>AddrFormatError\<close> is caught, another exception of \<^verbatim>\<open>netaddr\<close> is passed on.\<close>

definition is_cidr_format :: "env \<Rightarrow> string \<Rightarrow> exn + bool" where
  "is_cidr_format E cidr = (case ip_network E cidr of
     Inl (AddrFormatError m) \<Rightarrow> Inr False
   | Inl e \<Rightarrow> Inl e
   | Inr _ \<Rightarrow> Inr (CHR ''/'' \<in> set cidr))"

definition check_if_cancelled :: "unit prog" where
  "check_if_cancelled =
     bnd (call (Runtime IsCancelled)) (\<lambda>r. bnd (expect as_bool r) (\<lambda>b.
       if b then Raise (CancellationException ''Command was cancelled'') else Return ()))"

lemma emits_check_if_cancelled [emits_intros]:
  "(\<And>v. P (Runtime IsCancelled, v)) \<Longrightarrow> emits P check_if_cancelled"
  unfolding check_if_cancelled_def by (auto intro!: emits_intros split: if_splits)

lemma halts_check_if_cancelled [halts_intros]: "halts check_if_cancelled"
  unfolding check_if_cancelled_def by (auto intro!: halts_intros)

lemma emits_generate_name [emits_intros]:
  "(\<And>v. P (Runtime Uuid4, v)) \<Longrightarrow> emits P (generate_name name postfix m)"
  unfolding generate_name_def generate_short_unique_string_def by (auto intro!: emits_intros)

lemma halts_generate_name [halts_intros]: "halts (generate_name name postfix m)"
  unfolding generate_name_def generate_short_unique_string_def by (auto intro!: halts_intros)

section \<open>Generated names\<close>

lemma set_strip_special: "c \<in> set (strip_special name) \<Longrightarrow> is_name_char c"
  by (simp add: strip_special_def)

lemma prefix_truncate_name: "prefix (truncate_name name m) name"
  by (auto simp: truncate_name_def Let_def prefixeq_butlast take_is_prefix
      intro: prefix_order.trans [OF prefixeq_butlast])

lemma length_truncate_name: "0 \<le> m \<Longrightarrow> int (length (truncate_name name m)) \<le> m"
  by (auto simp: truncate_name_def Let_def)

lemma name_part_chars: "list_all is_name_char (truncate_name (strip_special name) m)"
  using prefix_truncate_name [of "strip_special name"] set_strip_special
  by (fastforce simp: list_all_iff dest: set_mono_prefix)

text \<open>
  C19: A name generated with a postfix that fits (or with the unique string, of which there is
  room for nine characters) is not longer than the limit; it is a part of the given name made of
  letters, digits and dashes, a dash, and the postfix (or at most eight characters of the unique
  string).
\<close>

theorem generate_name_bounds:
  assumes "exec (generate_name name postfix max_length) es (Ok n)"
    and "(if truthy postfix then int (length (the postfix)) + 1 else 9) \<le> max_length"
  shows "int (length n) \<le> max_length \<and>
    (\<exists>p q. n = p @ ''-'' @ q \<and> list_all is_name_char p \<and> prefix p (strip_special name) \<and>
      (if truthy postfix then q = the postfix else length q \<le> 8))"
proof (cases "truthy postfix")
  case True
  let ?p = "truncate_name (strip_special name) (max_length - (int (length (the postfix)) + 1))"
  from True assms(1) have n: "n = ?p @ ''-'' @ the postfix"
    by (simp add: generate_name_def name_with_postfix_def exec_simps)
  have "int (length ?p) \<le> max_length - (int (length (the postfix)) + 1)"
    using assms(2) True by (intro length_truncate_name) simp
  with n True show ?thesis
    using name_part_chars prefix_truncate_name by auto
next
  case False
  let ?p = "truncate_name (strip_special name) (max_length - 9)"
  from False assms(1) obtain u where n: "n = ?p @ ''-'' @ take 8 u"
    by (auto simp: generate_name_def generate_short_unique_string_def exec_bnd exec_simps)
  have "int (length ?p) \<le> max_length - 9"
    using assms(2) False by (intro length_truncate_name) simp
  moreover have "int (length (take 8 u)) \<le> 8" by simp
  ultimately have "int (length n) \<le> max_length"
    unfolding n by simp
  moreover have "list_all is_name_char ?p \<and> prefix ?p (strip_special name) \<and> length (take 8 u) \<le> 8"
    using name_part_chars prefix_truncate_name by simp
  ultimately show ?thesis
    using n False by (intro conjI exI [of _ ?p] exI [of _ "take 8 u"]) simp_all
qed

theorem generate_name_bounds_witness:
  "int (length ''Web-App-x'') \<le> 10 \<and>
    (\<exists>p q. ''Web-App-x'' = p @ ''-'' @ q \<and> list_all is_name_char p \<and>
      prefix p (strip_special ''-Web-App-server'') \<and>
      (if truthy (Some ''x'') then q = the (Some ''x'') else length q \<le> 8))"
proof (rule generate_name_bounds)
  show "exec (generate_name ''-Web-App-server'' (Some ''x'') 10) [] (Ok ''Web-App-x'')"
    by (simp add: generate_name_def name_with_postfix_def truncate_name_def strip_special_def
        truthy_def exec_simps str_simps code_def Let_def)
qed (simp add: truthy_def)

section \<open>Names read back from resource ids\<close>

lemma match_last_none: "\<not> py_in pat (py_lower s) \<Longrightarrow> pat \<noteq> [] \<Longrightarrow> match_last pat rest s = None"
  by (induction s) (auto simp: py_lower_def)

lemma match_last_skip:
  "CHR 0x0A \<notin> set p \<Longrightarrow> match_last pat rest s = Some g \<Longrightarrow> match_last pat rest (p @ s) = Some g"
  by (induction p) auto

lemma lower_char_other: "\<not> is_upper c \<Longrightarrow> lower_char c = c"
  by (simp add: lower_char_def)

lemma group_name_here:
  assumes "CHR ''/'' \<notin> set g" "\<not> py_in ''resourcegroups/'' (py_lower (g @ ''/'' @ tail))"
  shows "match_last ''resourcegroups/''
      (\<lambda>r. if CHR ''/'' \<in> set r then Some (takeWhile (\<lambda>c. c \<noteq> CHR ''/'') r) else None)
      (''resourceGroups/'' @ g @ ''/'' @ tail) = Some g"
proof -
  let ?rest = "\<lambda>r. if CHR ''/'' \<in> set r then Some (takeWhile (\<lambda>c. c \<noteq> CHR ''/'') r) else None"
  have "match_last ''resourcegroups/'' ?rest (g @ ''/'' @ tail) = None"
    using assms(2) by (intro match_last_none) simp_all
  moreover have "takeWhile (\<lambda>c. c \<noteq> CHR ''/'') (g @ CHR ''/'' # tail) = g"
    using assms(1) by (simp add: takeWhile_append takeWhile_eq_all_conv)
  moreover have "lower_char CHR ''G'' = CHR ''g''"
    by code_simp
  ultimately show ?thesis
    by (simp add: py_lower_def lower_char_other is_upper_def code_def)
qed

text \<open>
  The resource group of a resource id is read back, whatever resource of the group the id
  names, when the rest of the id does not have the word \<^verbatim>\<open>resourceGroups/\<close> again.
\<close>

lemma get_resource_group_name_of_id:
  assumes "CHR 0x0A \<notin> set subscription" "CHR ''/'' \<notin> set g"
    and "\<not> py_in ''resourcegroups/'' (py_lower (g @ ''/'' @ tail))"
  shows "get_resource_group_name
      (''/subscriptions/'' @ subscription @ ''/resourceGroups/'' @ g @ ''/'' @ tail) = Inr g"
proof -
  have "CHR 0x0A \<notin> set (''/subscriptions/'' @ subscription @ ''/'')"
    using assms(1) by simp
  from match_last_skip [OF this group_name_here [OF assms(2,3)]] show ?thesis
    by (simp add: get_resource_group_name_def)
qed

lemma get_resource_group_name_of_id_witness:
  "get_resource_group_name ''/subscriptions/s1/resourceGroups/rg/providers/vm'' = Inr ''rg''"
  using get_resource_group_name_of_id [of "''s1''" "''rg''" "''providers/vm''"]
  by (simp add: py_lower_def lower_char_def is_upper_def code_def)

section \<open>Tags\<close>

lemma map_of_update_if:
  "map_of (if b then AList.update k v r else r) x = (if b \<and> x = k then Some v else map_of r x)"
  by (simp add: AList.update_conv')

text \<open>
  The tags of a resource hold the creator, and the name, owner, sandbox id, blueprint and
  domain exactly when these are not empty; no other tag is set.
\<close>

lemma get_tags_entries:
  "map_of (get_tags name rs) =
     [''CreatedBy'' \<mapsto> ''Cloudshell''] ++
     (\<lambda>k. if k = ''Name'' \<and> truthy name then Some (the name)
       else if k = ''Owner'' \<and> rs_owner rs \<noteq> [] then Some (rs_owner rs)
       else if k = ''SandboxId'' \<and> rs_reservation_id rs \<noteq> [] then Some (rs_reservation_id rs)
       else if k = ''Blueprint'' \<and> rs_blueprint rs \<noteq> [] then Some (rs_blueprint rs)
       else if k = ''Domain'' \<and> rs_domain rs \<noteq> [] then Some (rs_domain rs)
       else None)"
proof
  fix k
  show "map_of (get_tags name rs) k =
     ([''CreatedBy'' \<mapsto> ''Cloudshell''] ++
     (\<lambda>k. if k = ''Name'' \<and> truthy name then Some (the name)
       else if k = ''Owner'' \<and> rs_owner rs \<noteq> [] then Some (rs_owner rs)
       else if k = ''SandboxId'' \<and> rs_reservation_id rs \<noteq> [] then Some (rs_reservation_id rs)
       else if k = ''Blueprint'' \<and> rs_blueprint rs \<noteq> [] then Some (rs_blueprint rs)
       else if k = ''Domain'' \<and> rs_domain rs \<noteq> [] then Some (rs_domain rs)
       else None)) k"
    unfolding get_tags_def Let_def map_of_update_if by (simp add: map_add_def)
qed

lemma distinct_get_tags: "distinct (map fst (get_tags name rs))"
  by (simp add: get_tags_def Let_def distinct_update)

end
