(* ===== verification/Networks.thy ===== *)
theory Networks
  imports Names
begin

text \<open>
  \<^verbatim>\<open>domain/services/ip_service.py\<close> and \<^verbatim>\<open>domain/services/network_service.py\<close>: the CloudShell
  pool of private addresses, public addresses, NICs, subnets, virtual networks and route
  tables, one definition per method. A method with the \<^verbatim>\<open>retry\<close> decorator is \<open>retried E\<close> of its
  body and answers a \<open>resp\<close> (\<open>RNone\<close> when the method returns nothing).
\<close>

section \<open>Shared parts of the methods\<close>

text \<open>\<^verbatim>\<open>xs[0]\<close>\<close>

definition first :: "'a list \<Rightarrow> 'a prog" where
  "first xs = (case xs of [] \<Rightarrow> Raise IndexError | x # _ \<Rightarrow> Return x)"

lemma exec_first [exec_simps]:
  "exec (first xs) es out \<longleftrightarrow> es = [] \<and> out = (case xs of [] \<Rightarrow> Err IndexError | x # _ \<Rightarrow> Ok x)"
  by (auto simp: first_def exec_simps split: list.splits)

lemma wp_first [wp_simps]:
  "wp step (first xs) N X D = (case xs of [] \<Rightarrow> X IndexError | x # _ \<Rightarrow> N x)"
  by (auto simp: first_def fun_eq_iff split: list.splits)

lemma emits_first [emits_intros]: "emits P (first xs)"
  by (simp add: emits_def exec_simps)

lemma halts_first [halts_intros]: "halts (first xs)"
  by (simp add: halts_def exec_simps split: list.splits)

text \<open>A body without a result.\<close>

definition no_result :: "'a prog \<Rightarrow> resp prog" where
  "no_result p = thn p (Return RNone)"

lemma wp_no_result [wp_simps]: "wp step (no_result p) N X D = wp step p (\<lambda>_. N RNone) X D"
  by (simp add: no_result_def wp_simps)

lemma emits_no_result [emits_intros]: "emits P p \<Longrightarrow> emits P (no_result p)"
  by (simp add: no_result_def emits_intros)

lemma halts_no_result [halts_intros]: "halts p \<Longrightarrow> halts (no_result p)"
  by (simp add: no_result_def halts_intros)

section \<open>IpService\<close>

definition get_pool_item_owner :: "string option \<Rightarrow> string" where
  "get_pool_item_owner owner = (if truthy owner then the owner else ''Azure-Shell'')"

definition get_pool_id :: "string \<Rightarrow> string" where
  "get_pool_id reservation_id = reservation_id @ ''-private-ips''"

text \<open>A network has at least one address, so \<^verbatim>\<open>ip_network[-1]\<close> exists.\<close>

definition get_reserved_ips :: "env \<Rightarrow> string \<Rightarrow> exn + string list" where
  "get_reserved_ips E subnet_cidr = (case ip_network E subnet_cidr of
     Inl e \<Rightarrow> Inl e
   | Inr [] \<Rightarrow> Inl IndexError
   | Inr ips \<Rightarrow> Inr (take 4 ips @ [last ips]))"

definition get_next_available_ip_from_cs_pool ::
  "env \<Rightarrow> string \<Rightarrow> string \<Rightarrow> string option \<Rightarrow> string prog"
where
  "get_next_available_ip_from_cs_pool E reservation_id subnet_cidr owner =
     (case get_reserved_ips E subnet_cidr of
        Inl e \<Rightarrow> Raise e
      | Inr reserved \<Rightarrow>
          bnd (call (Session (CheckoutFromPool (get_pool_id reservation_id) reservation_id
            (get_pool_item_owner owner) subnet_cidr reserved))) (\<lambda>r.
          bnd (expect as_strs r) first))"

definition release_ips :: "string \<Rightarrow> string list \<Rightarrow> string option \<Rightarrow> unit prog" where
  "release_ips reservation_id ips_to_release owner =
     bnd (call (Session (ReleaseFromPool ips_to_release (get_pool_id reservation_id)
       reservation_id (get_pool_item_owner owner)))) (\<lambda>_. Return ())"

section \<open>NetworkService\<close>

definition NETWORK_TYPE_TAG_NAME :: string where "NETWORK_TYPE_TAG_NAME = ''network_type''"
definition SANDBOX_NETWORK_TAG_VALUE :: string where "SANDBOX_NETWORK_TAG_VALUE = ''sandbox''"
definition MGMT_NETWORK_TAG_VALUE :: string where "MGMT_NETWORK_TAG_VALUE = ''mgmt''"
definition SANDBOX_NSG_NAME :: string where "SANDBOX_NSG_NAME = ''NSG_sandbox_all_subnets_''"

subsection \<open>Route tables\<close>

definition create_route_table :: "string \<Rightarrow> route list \<Rightarrow> string \<Rightarrow> string \<Rightarrow> unit prog" where
  "create_route_table region routes name sandbox_resource_group =
     thn (poll_result (call (Network (PutRouteTable sandbox_resource_group name region routes))))
       (Return ())"

definition add_route_table_to_subnets ::
  "string \<Rightarrow> string \<Rightarrow> string list \<Rightarrow> string \<Rightarrow> string \<Rightarrow> unit prog"
where
  "add_route_table_to_subnets routes_rg route_table_name subnets subnets_rg subnets_vnet =
     bnd (call (Network (GetRouteTable routes_rg route_table_name))) (\<lambda>r.
     bnd (expect as_str r) (\<lambda>route_table.
     for_each (\<lambda>subnet.
       bnd (call (Network (GetSubnet subnets_rg subnets_vnet subnet))) (\<lambda>r.
       bnd (expect as_subnet r) (\<lambda>subnet_obj.
       poll_result (call (Network (PutSubnet subnets_rg subnets_vnet subnet
         (UpdatedSubnet (subnet_obj\<lparr>sn_route_table := Some route_table\<rparr>)))))))) subnets))"

subsection \<open>Public addresses and NICs\<close>

definition get_ip_allocation_type :: "string \<Rightarrow> exn + ip_allocation" where
  "get_ip_allocation_type ip_type =
     (if py_lower ip_type = ''static'' then Inr StaticAllocation
      else if py_lower ip_type = ''dynamic'' then Inr DynamicAllocation
      else Inl (PyException (''Incorrect allocation type '' @ ip_type @ ''. Possible values are '' @
        py_repr_list [''Dynamic'', ''Static''])))"

definition create_public_ip :: "env \<Rightarrow> string \<Rightarrow> string \<Rightarrow> string \<Rightarrow> string \<Rightarrow> dict \<Rightarrow> resp prog" where
  "create_public_ip E region group_name ip_name public_ip_type tags =
     retried E (case get_ip_allocation_type public_ip_type of
       Inl e \<Rightarrow> Raise e
     | Inr alloc \<Rightarrow> poll_result (call (Network (PutPublicIp group_name ip_name region alloc tags))))"

text \<open>
  Two decorators: the outer one retries on connection errors, the inner one on errors Azure
  marks as retryable. The address is checked out anew at each attempt.
\<close>

definition create_nic ::
  "env \<Rightarrow> string \<Rightarrow> string \<Rightarrow> public_ip option \<Rightarrow> string \<Rightarrow> subnet \<Rightarrow> ip_allocation \<Rightarrow> dict \<Rightarrow>
     string \<Rightarrow> bool \<Rightarrow> nsg option \<Rightarrow> resp prog"
where
  "create_nic E interface_name group_name public_ip_address region sub alloc tags reservation_id
     enable_ip_forwarding network_security_group =
   retried E (retried_on_retryable E (
     bnd (if is_static_allocation (AllocationEnum alloc)
          then bnd (get_next_available_ip_from_cs_pool E reservation_id (sn_address_prefix sub) None)
            (\<lambda>ip. Return (Some ip))
          else Return None) (\<lambda>private_ip_address.
     bnd (call (Runtime Now)) (\<lambda>_.
     bnd (poll_result (call (Network (PutNic group_name interface_name
       \<lparr>np_location = region, np_network_security_group = network_security_group,
        np_private_ip_allocation_method = alloc, np_subnet = sub,
        np_private_ip_address = private_ip_address, np_public_ip_address = public_ip_address,
        np_enable_ip_forwarding = enable_ip_forwarding, np_tags = tags\<rparr>)))) (\<lambda>r.
     bnd (call (Runtime Now)) (\<lambda>_.
     bnd (expect as_nic r) (\<lambda>n. Return (RNic n))))))))"

definition create_network_for_vm ::
  "env \<Rightarrow> string \<Rightarrow> string \<Rightarrow> string \<Rightarrow> cloud_provider \<Rightarrow> subnet \<Rightarrow> dict \<Rightarrow> bool \<Rightarrow> string \<Rightarrow> string \<Rightarrow>
     bool \<Rightarrow> nsg option \<Rightarrow> nic prog"
where
  "create_network_for_vm E group_name interface_name ip_name cp sub tags add_public_ip
     public_ip_type reservation_id enable_ip_forwarding network_security_group =
   bnd (if add_public_ip
        then bnd (create_public_ip E (cp_region cp) group_name ip_name public_ip_type tags) (\<lambda>r.
          bnd (expect as_public_ip r) (\<lambda>ip. Return (Some ip)))
        else Return None) (\<lambda>public_ip_address.
   bnd (create_nic E interface_name group_name public_ip_address (cp_region cp) sub
     (to_azure_type (cp_private_ip_allocation_method cp)) tags reservation_id
     enable_ip_forwarding network_security_group) (expect as_nic))"

definition get_public_ip :: "env \<Rightarrow> string \<Rightarrow> string \<Rightarrow> resp prog" where
  "get_public_ip E group_name ip_name = retried E (call (Network (GetPublicIp group_name ip_name)))"

definition get_private_ip :: "env \<Rightarrow> string \<Rightarrow> string \<Rightarrow> resp prog" where
  "get_private_ip E group_name name =
     retried E (
       bnd (call (Network (GetNic group_name name))) (\<lambda>r.
       bnd (expect as_nic r) (\<lambda>n.
       bnd (first (nic_ip_configurations n)) (\<lambda>c. Return (RStr (ipc_private_ip_address c))))))"

definition delete_nics :: "env \<Rightarrow> string \<Rightarrow> string list \<Rightarrow> resp prog" where
  "delete_nics E group_name interface_names =
     retried E (no_result (for_each (\<lambda>interface_name.
       poll_wait (call (Network (DeleteNic group_name interface_name)))) interface_names))"

definition delete_nic :: "env \<Rightarrow> string \<Rightarrow> string \<Rightarrow> resp prog" where
  "delete_nic E group_name interface_name =
     retried E (no_result (poll_wait (call (Network (DeleteNic group_name interface_name)))))"

definition delete_ips :: "env \<Rightarrow> string \<Rightarrow> string list \<Rightarrow> resp prog" where
  "delete_ips E group_name public_ip_names =
     retried E (no_result (for_each (\<lambda>ip_name.
       poll_wait (call (Network (DeletePublicIp group_name ip_name)))) public_ip_names))"

definition delete_ip :: "env \<Rightarrow> string \<Rightarrow> string \<Rightarrow> resp prog" where
  "delete_ip E group_name ip_name =
     retried E (no_result (poll_wait (call (Network (DeletePublicIp group_name ip_name)))))"

subsection \<open>Subnets and virtual networks\<close>

definition create_subnet ::
  "env \<Rightarrow> string \<Rightarrow> string \<Rightarrow> string \<Rightarrow> vnet \<Rightarrow> nsg option \<Rightarrow> bool \<Rightarrow> resp prog"
where
  "create_subnet E resource_group_name subnet_name subnet_cidr virtual_network
     network_security_group wait_for_result =
   retried E (
     bnd (call (Network (PutSubnet resource_group_name (vn_name virtual_network) subnet_name
       (NewSubnet subnet_cidr network_security_group)))) (\<lambda>r.
     if wait_for_result
     then bnd (expect as_poller r) (\<lambda>n. call (Poller (PollResult n)))
     else Return RNone))"

definition update_subnet :: "env \<Rightarrow> string \<Rightarrow> string \<Rightarrow> string \<Rightarrow> subnet \<Rightarrow> resp prog" where
  "update_subnet E resource_group_name virtual_network_name subnet_name sub =
     retried E (poll_result (call (Network (PutSubnet resource_group_name virtual_network_name
       subnet_name (UpdatedSubnet sub)))))"

definition create_virtual_network ::
  "env \<Rightarrow> string \<Rightarrow> string \<Rightarrow> string \<Rightarrow> string \<Rightarrow> dict \<Rightarrow> string \<Rightarrow> string \<Rightarrow> nsg option \<Rightarrow> resp prog"
where
  "create_virtual_network E management_group_name network_name region subnet_name tags vnet_cidr
     subnet_cidr network_security_group =
   retried E (
     thn (poll_wait (call (Network (PutVnet management_group_name network_name region tags
       vnet_cidr subnet_name subnet_cidr network_security_group))))
     (call (Network (GetSubnet management_group_name network_name subnet_name))))"

definition delete_subnet :: "env \<Rightarrow> string \<Rightarrow> string \<Rightarrow> string \<Rightarrow> resp prog" where
  "delete_subnet E group_name vnet_name subnet_name =
     retried E (no_result (poll_wait (call (Network (DeleteSubnet group_name vnet_name subnet_name)))))"

definition get_virtual_networks :: "env \<Rightarrow> string \<Rightarrow> resp prog" where
  "get_virtual_networks E group_name =
     retried E (bnd (call (Network (ListVnets group_name))) (\<lambda>r.
       bnd (expect as_vnets r) (\<lambda>vs. Return (RVnets vs))))"

definition get_virtual_network_by_tag :: "vnet list \<Rightarrow> string \<Rightarrow> string \<Rightarrow> vnet option" where
  "get_virtual_network_by_tag virtual_networks tag_key tag_value =
     find (\<lambda>network. try_find_tag (vn_tags network) tag_key = Some tag_value) virtual_networks"

definition get_sandbox_virtual_network :: "env \<Rightarrow> string \<Rightarrow> vnet option prog" where
  "get_sandbox_virtual_network E group_name =
     bnd (get_virtual_networks E group_name) (\<lambda>r. bnd (expect as_vnets r) (\<lambda>vs.
       Return (get_virtual_network_by_tag vs NETWORK_TYPE_TAG_NAME SANDBOX_NETWORK_TAG_VALUE)))"

subsection \<open>Network security groups of a vm\<close>

text \<open>The body of the loop over the rules, and of the loop over the groups.\<close>

definition rollback_rule :: "string \<Rightarrow> string \<Rightarrow> nsg \<Rightarrow> security_rule \<Rightarrow> unit prog" where
  "rollback_rule resource_group_name name g rule =
     only_if (py_in name (sr_name rule))
       (thn (poll_wait (call (Network (DeleteRule resource_group_name (nsg_name g) (sr_name rule)))))
         (Return ()))"

definition rollback_nsg :: "string \<Rightarrow> string \<Rightarrow> nsg \<Rightarrow> unit prog" where
  "rollback_nsg resource_group_name name g =
     thn (only_if (py_in name (nsg_name g))
       (thn (poll_wait (call (Network (DeleteNsg resource_group_name (nsg_name g))))) (Return ())))
     (only_if (py_in SANDBOX_NSG_NAME (nsg_name g))
       (for_each (rollback_rule resource_group_name name g) (nsg_security_rules g)))"

definition delete_nsg_artifacts_associated_with_vm :: "env \<Rightarrow> string \<Rightarrow> string \<Rightarrow> resp prog" where
  "delete_nsg_artifacts_associated_with_vm E resource_group_name name =
     retried E (no_result (
       bnd (call (Network (ListNsgs resource_group_name))) (\<lambda>r.
       bnd (expect as_nsgs r) (for_each (rollback_nsg resource_group_name name)))))"

section \<open>Which calls the methods make\<close>

lemmas retried_intros = emits_retried emits_retried_on_retryable halts_retried halts_retried_on_retryable

lemma emits_get_next_available_ip [emits_intros]:
  assumes "\<And>pool res owner sub ips v. P (Session (CheckoutFromPool pool res owner sub ips), v)"
  shows "emits P (get_next_available_ip_from_cs_pool E reservation_id cidr owner)"
  unfolding get_next_available_ip_from_cs_pool_def
  by (auto intro!: emits_intros assms split: sum.splits)

lemma emits_release_ips [emits_intros]:
  "(\<And>v. P (Session (ReleaseFromPool ips (get_pool_id r) r (get_pool_item_owner owner)), v)) \<Longrightarrow>
     emits P (release_ips r ips owner)"
  unfolding release_ips_def by (auto intro!: emits_intros)

lemma emits_create_public_ip:
  assumes "retry_law E" "\<And>a v. P (Network (PutPublicIp g n region a tags), v)"
    "\<And>i v. P (Poller (PollResult i), v)"
  shows "emits P (create_public_ip E region g n t tags)"
  unfolding create_public_ip_def
  by (auto intro!: emits_intros retried_intros assms split: sum.splits)

lemma emits_create_nic:
  assumes "retry_law E" "\<And>p v. P (Network (PutNic g n p), v)" "\<And>i v. P (Poller (PollResult i), v)"
    "\<And>v. P (Runtime Now, v)"
    "\<And>pool res owner sub ips v. P (Session (CheckoutFromPool pool res owner sub ips), v)"
  shows "emits P (create_nic E n g ip region sub alloc tags res fwd nsg)"
  unfolding create_nic_def
  by (auto intro!: emits_intros retried_intros assms)

lemma emits_create_network_for_vm:
  assumes "retry_law E" "\<And>p v. P (Network (PutNic g n p), v)" "\<And>i v. P (Poller (PollResult i), v)"
    "\<And>v. P (Runtime Now, v)" "\<And>a v. P (Network (PutPublicIp g ipn (cp_region cp) a tags), v)"
    "\<And>pool res owner sub ips v. P (Session (CheckoutFromPool pool res owner sub ips), v)"
  shows "emits P (create_network_for_vm E g n ipn cp sub tags add t res fwd nsg)"
  unfolding create_network_for_vm_def
  by (auto intro!: emits_intros retried_intros emits_create_nic emits_create_public_ip assms)

lemma emits_get_public_ip:
  assumes "retry_law E" "\<And>v. P (Network (GetPublicIp g n), v)"
  shows "emits P (get_public_ip E g n)"
  unfolding get_public_ip_def by (auto intro!: emits_intros retried_intros assms)

lemma emits_delete_nics:
  assumes "retry_law E" "\<And>n v. n \<in> set ns \<Longrightarrow> P (Network (DeleteNic g n), v)" "\<And>i v. P (Poller (PollWait i), v)"
  shows "emits P (delete_nics E g ns)"
  unfolding delete_nics_def by (auto intro!: emits_intros retried_intros assms)

lemma emits_delete_nic:
  assumes "retry_law E" "\<And>v. P (Network (DeleteNic g n), v)" "\<And>i v. P (Poller (PollWait i), v)"
  shows "emits P (delete_nic E g n)"
  unfolding delete_nic_def by (auto intro!: emits_intros retried_intros assms)

lemma emits_delete_ips:
  assumes "retry_law E" "\<And>n v. n \<in> set ns \<Longrightarrow> P (Network (DeletePublicIp g n), v)" "\<And>i v. P (Poller (PollWait i), v)"
  shows "emits P (delete_ips E g ns)"
  unfolding delete_ips_def by (auto intro!: emits_intros retried_intros assms)

lemma emits_delete_ip:
  assumes "retry_law E" "\<And>v. P (Network (DeletePublicIp g n), v)" "\<And>i v. P (Poller (PollWait i), v)"
  shows "emits P (delete_ip E g n)"
  unfolding delete_ip_def by (auto intro!: emits_intros retried_intros assms)

lemma emits_create_subnet:
  assumes "retry_law E" "\<And>v. P (Network (PutSubnet g (vn_name vnet) n (NewSubnet cidr nsg)), v)"
    "\<And>i v. P (Poller (PollResult i), v)"
  shows "emits P (create_subnet E g n cidr vnet nsg w)"
  unfolding create_subnet_def by (auto intro!: emits_intros retried_intros assms)

lemma emits_update_subnet:
  assumes "retry_law E" "\<And>v. P (Network (PutSubnet g vnet n (UpdatedSubnet sub)), v)"
    "\<And>i v. P (Poller (PollResult i), v)"
  shows "emits P (update_subnet E g vnet n sub)"
  unfolding update_subnet_def by (auto intro!: emits_intros retried_intros assms)

lemma emits_delete_subnet:
  assumes "retry_law E" "\<And>v. P (Network (DeleteSubnet g vnet n), v)" "\<And>i v. P (Poller (PollWait i), v)"
  shows "emits P (delete_subnet E g vnet n)"
  unfolding delete_subnet_def by (auto intro!: emits_intros retried_intros assms)

lemma emits_get_virtual_networks:
  assumes "retry_law E" "\<And>v. P (Network (ListVnets g), v)"
  shows "emits P (get_virtual_networks E g)"
  unfolding get_virtual_networks_def by (auto intro!: emits_intros retried_intros assms)

lemma emits_get_sandbox_virtual_network:
  assumes "retry_law E" "\<And>v. P (Network (ListVnets g), v)"
  shows "emits P (get_sandbox_virtual_network E g)"
  unfolding get_sandbox_virtual_network_def
  by (auto intro!: emits_intros emits_get_virtual_networks assms)

lemma emits_delete_nsg_artifacts:
  assumes "retry_law E" "\<And>v. P (Network (ListNsgs g), v)" "\<And>i v. P (Poller (PollWait i), v)"
    "\<And>n v. py_in name n \<Longrightarrow> P (Network (DeleteNsg g n), v)"
    "\<And>n r v. py_in SANDBOX_NSG_NAME n \<Longrightarrow> py_in name r \<Longrightarrow> P (Network (DeleteRule g n r), v)"
  shows "emits P (delete_nsg_artifacts_associated_with_vm E g name)"
  unfolding delete_nsg_artifacts_associated_with_vm_def rollback_nsg_def rollback_rule_def
  by (auto intro!: emits_intros retried_intros assms)

text \<open>No method of the service runs forever.\<close>

lemma halts_network [halts_intros]:
  assumes "retry_law E"
  shows "halts (get_virtual_networks E g)" "halts (get_sandbox_virtual_network E g)"
    "halts (delete_subnet E g vnet n)" "halts (update_subnet E g vnet n sub)"
    "halts (create_subnet E g n cidr vnet' nsg w)" "halts (delete_ip E g n)" "halts (delete_nic E g n)"
    "halts (delete_ips E g ns)" "halts (delete_nics E g ns)" "halts (get_public_ip E g n)"
    "halts (delete_nsg_artifacts_associated_with_vm E g n)" "halts (release_ips res ips owner)"
  unfolding get_virtual_networks_def get_sandbox_virtual_network_def delete_subnet_def
    update_subnet_def create_subnet_def delete_ip_def delete_nic_def delete_ips_def delete_nics_def
    get_public_ip_def delete_nsg_artifacts_associated_with_vm_def rollback_nsg_def rollback_rule_def
    release_ips_def
  by (auto intro!: halts_intros retried_intros assms)

lemma halts_create_network_for_vm [halts_intros]:
  assumes "retry_law E"
  shows "halts (create_network_for_vm E g n ipn cp sub tags add t res fwd nsg)"
  unfolding create_network_for_vm_def create_nic_def create_public_ip_def
    get_next_available_ip_from_cs_pool_def
  by (auto intro!: halts_intros retried_intros assms split: sum.splits)

section \<open>The artifacts of a vm\<close>

text \<open>The deletions that belong to a vm, from the security groups of its resource group.\<close>

definition nsg_deletions :: "string \<Rightarrow> string \<Rightarrow> nsg list \<Rightarrow> request list" where
  "nsg_deletions grp name nsgs = concat (map (\<lambda>g.
     (if py_in name (nsg_name g) then [Network (DeleteNsg grp (nsg_name g))] else []) @
     (if py_in SANDBOX_NSG_NAME (nsg_name g)
      then map (\<lambda>r. Network (DeleteRule grp (nsg_name g) (sr_name r)))
        (filter (\<lambda>r. py_in name (sr_name r)) (nsg_security_rules g))
      else [])) nsgs)"

fun is_deletion :: "request \<Rightarrow> bool" where
  "is_deletion (Network (DeleteNsg _ _)) \<longleftrightarrow> True"
| "is_deletion (Network (DeleteRule _ _ _)) \<longleftrightarrow> True"
| "is_deletion _ \<longleftrightarrow> False"

fun is_subnet_change :: "request \<Rightarrow> bool" where
  "is_subnet_change (Network (PutSubnet _ _ _ _)) \<longleftrightarrow> True"
| "is_subnet_change (Network (DeleteSubnet _ _ _)) \<longleftrightarrow> True"
| "is_subnet_change _ \<longleftrightarrow> False"

lemma nsg_deletions_snoc:
  "nsg_deletions grp name (gs @ [g]) = nsg_deletions grp name gs @ nsg_deletions grp name [g]"
  by (simp add: nsg_deletions_def)

lemma wp_rollback_rules:
  "wp (recorder is_deletion) (for_each (rollback_rule grp name g) rs)
     (\<lambda>_ t. t = s @ map (\<lambda>r. Network (DeleteRule grp (nsg_name g) (sr_name r)))
       (filter (\<lambda>r. py_in name (sr_name r)) rs)) (\<lambda>_ _. True) (\<lambda>_. True) s"
  by (rule wp_for_each_upto [where I = "\<lambda>rs t. t = s @
      map (\<lambda>r. Network (DeleteRule grp (nsg_name g) (sr_name r))) (filter (\<lambda>r. py_in name (sr_name r)) rs)"])
    (auto simp: rollback_rule_def wp_simps split: option.splits)

lemma wp_rollback_nsg:
  "wp (recorder is_deletion) (rollback_nsg grp name g)
     (\<lambda>_ t. t = s @ nsg_deletions grp name [g]) (\<lambda>_ _. True) (\<lambda>_. True) s"
proof (cases "py_in name (nsg_name g)")
  case True
  then show ?thesis
    using wp_rollback_rules [of grp name g "nsg_security_rules g" "s @ [Network (DeleteNsg grp (nsg_name g))]"]
    by (simp add: rollback_nsg_def wp_simps nsg_deletions_def split: option.splits)
next
  case False
  then show ?thesis
    using wp_rollback_rules [of grp name g "nsg_security_rules g" s]
    by (simp add: rollback_nsg_def wp_simps nsg_deletions_def)
qed

lemma wp_nsg_deletions:
  "wp (recorder is_deletion) (for_each (rollback_nsg grp name) gs)
     (\<lambda>_ s. s = nsg_deletions grp name gs) (\<lambda>_ _. True) (\<lambda>_. True) []"
proof (rule wp_for_each_upto [where I = "\<lambda>gs s. s = nsg_deletions grp name gs"])
  fix ys g zs s assume "s = nsg_deletions grp name ys"
  then show "wp (recorder is_deletion) (rollback_nsg grp name g)
      (\<lambda>_ t. t = nsg_deletions grp name (ys @ [g])) (\<lambda>_ _. True) (\<lambda>_. True) s"
    using wp_rollback_nsg [of grp name g s] by (simp add: nsg_deletions_snoc)
qed (simp_all add: nsg_deletions_def)

text \<open>
  C16: When the security artifacts of a vm were removed, the deletions requested after the last
  listing of the resource group's security groups are exactly: each group that has the vm's name
  in its name, and, in each sandbox subnets group, each rule that has it.
\<close>

theorem nsg_artifacts_deleted:
  assumes "retry_law E" "exec (delete_nsg_artifacts_associated_with_vm E grp name) es (Ok r)"
  shows "\<exists>es0 es1 gs. es = es0 @ (Network (ListNsgs grp), Inr (RNsgs gs)) # es1 \<and>
    filter is_deletion (map fst es1) = nsg_deletions grp name gs"
proof -
  from assms obtain es0 es2 where es: "es = es0 @ es2" and run: "exec (no_result (
       bnd (call (Network (ListNsgs grp))) (\<lambda>r.
       bnd (expect as_nsgs r) (for_each (rollback_nsg grp name))))) es2 (Ok r)"
    unfolding delete_nsg_artifacts_associated_with_vm_def by (elim exec_retriedE)
  from run obtain v gs es1 u where list: "as_nsgs v = Some gs"
      and es2: "es2 = (Network (ListNsgs grp), Inr v) # es1"
      and loop: "exec (for_each (rollback_nsg grp name) gs) es1 (Ok u)"
    by (auto simp: no_result_def exec_bnd exec_simps split: option.splits)
  from list have "v = RNsgs gs" by (cases v) auto
  moreover have "filter is_deletion (map fst es1) = nsg_deletions grp name gs"
    using wpD [OF wp_nsg_deletions loop] by (simp add: track_recorder)
  ultimately show ?thesis using es es2 by auto
qed

text \<open>An environment and values for concrete runs.\<close>

definition sample_env :: env where
  "sample_env = loop_env (\<lambda>_. Inr [''10.0.0.0'', ''10.0.0.1'', ''10.0.0.2'', ''10.0.0.3'', ''10.0.0.4'']) 3"

lemma sample_env_law: "retry_law sample_env"
  by (simp add: sample_env_def retry_law_loop_env)

definition sample_rule :: "string \<Rightarrow> int \<Rightarrow> security_rule" where
  "sample_rule n p = \<lparr>sr_name = n, sr_access = AccessAllow, sr_direction = ''Inbound'',
     sr_source_address_prefix = InternetHop, sr_source_port_range = ''*'',
     sr_destination_address_prefix = ''10.0.0.4'', sr_destination_port_range = ''80'',
     sr_priority = p, sr_protocol = Proto ''tcp''\<rparr>"

definition sample_nsg :: "string \<Rightarrow> security_rule list \<Rightarrow> nsg" where
  "sample_nsg n rs = \<lparr>nsg_name = n, nsg_id = n, nsg_security_rules = rs\<rparr>"

lemma nsg_artifacts_sample_run:
  "exec (delete_nsg_artifacts_associated_with_vm sample_env ''rg'' ''vm1'')
    [(Network (ListNsgs ''rg''), Inl (ClientRequestError [])),
     (Network (ListNsgs ''rg''), Inr (RNsgs [sample_nsg ''NSG_vm1'' []])),
     (Network (DeleteNsg ''rg'' ''NSG_vm1''), Inr (RPoller 0)),
     (Poller (PollWait 0), Inr RNone)]
    (Ok RNone)"
  by (rule exec_replay [where vs = "[Inl (ClientRequestError []),
      Inr (RNsgs [sample_nsg ''NSG_vm1'' []]), Inr (RPoller 0), Inr RNone]"]) code_simp

theorem nsg_artifacts_deleted_witness:
  "\<exists>es0 es1 gs.
    [(Network (ListNsgs ''rg''), Inl (ClientRequestError [])),
     (Network (ListNsgs ''rg''), Inr (RNsgs [sample_nsg ''NSG_vm1'' []])),
     (Network (DeleteNsg ''rg'' ''NSG_vm1''), Inr (RPoller 0)),
     (Poller (PollWait 0), Inr RNone)] = es0 @ (Network (ListNsgs ''rg''), Inr (RNsgs gs)) # es1 \<and>
    filter is_deletion (map fst es1) = nsg_deletions ''rg'' ''vm1'' gs"
  by (rule nsg_artifacts_deleted [OF sample_env_law nsg_artifacts_sample_run])

end
