(* ===== verification/Priorities.thy ===== *)
theory Priorities
  imports Monitor
begin

text \<open>
  The generator of rule priorities, \<^verbatim>\<open>SecurityGroupService._rule_priority_generator\<close> in
  \<^verbatim>\<open>domain/services/security_group.py\<close>, as a state and a function that yields the next value.
  The state is the sorted list of the relevant priorities, closed by infinity, and the index the
  search goes on from. The interface \<open>fresh_numbers\<close> says what its clients rely on: the numbers
  drawn are above the start, increasing, and not in use; the generator provides it.
\<close>

section \<open>Priorities with an infinite one\<close>

text \<open>\<^verbatim>\<open>float("inf")\<close> is the end of the list.\<close>

datatype pri = Pri int | Inf

instantiation pri :: linorder
begin

fun less_eq_pri :: "pri \<Rightarrow> pri \<Rightarrow> bool" where
  "less_eq_pri (Pri a) (Pri b) \<longleftrightarrow> a \<le> b"
| "less_eq_pri (Pri a) Inf \<longleftrightarrow> True"
| "less_eq_pri Inf (Pri b) \<longleftrightarrow> False"
| "less_eq_pri Inf Inf \<longleftrightarrow> True"

definition less_pri :: "pri \<Rightarrow> pri \<Rightarrow> bool" where
  "less_pri a b \<longleftrightarrow> a \<le> b \<and> \<not> b \<le> (a :: pri)"

instance
proof
  fix a b c :: pri
  show "a < b \<longleftrightarrow> a \<le> b \<and> \<not> b \<le> a" by (simp add: less_pri_def)
  show "a \<le> a" by (cases a) auto
  show "a \<le> b \<Longrightarrow> b \<le> c \<Longrightarrow> a \<le> c" by (cases a; cases b; cases c) auto
  show "a \<le> b \<Longrightarrow> b \<le> a \<Longrightarrow> a = b" by (cases a; cases b) auto
  show "a \<le> b \<or> b \<le> a" by (cases a; cases b) auto
qed

end

lemma less_pri_simps [simp]:
  "Pri a < Pri b \<longleftrightarrow> a < b" "Pri a < Inf" "\<not> Inf < x"
  by (auto simp: less_pri_def) (cases x; simp)

lemma le_Inf [simp]: "x \<le> Inf"
  by (cases x) auto

section \<open>The generator\<close>

definition RULE_DEFAULT_PRIORITY :: int where "RULE_DEFAULT_PRIORITY = 1000"
definition RULE_PRIORITY_INCREASE_STEP :: int where "RULE_PRIORITY_INCREASE_STEP = 5"

record generator =
  relevant_existing_priorities :: "pri list"
  gen_index :: nat

definition rule_priority_generator :: "int list \<Rightarrow> int option \<Rightarrow> generator" where
  "rule_priority_generator existing start_from =
     (let start = (case start_from of None \<Rightarrow> RULE_DEFAULT_PRIORITY | Some s \<Rightarrow> s);
          start_limit = Pri (start - RULE_PRIORITY_INCREASE_STEP);
          existing_priorities = map Pri existing @ [start_limit, Inf]
      in \<lparr>relevant_existing_priorities = sort (filter (\<lambda>ep. start_limit \<le> ep) existing_priorities),
          gen_index = 0\<rparr>)"

text \<open>
  \<^verbatim>\<open>next(generator)\<close>: one round of the loop per unfolding. Reading behind the end of the list is
  an \<^verbatim>\<open>IndexError\<close>; infinity plus a number is infinity, and nothing is greater.
\<close>

function next_priority :: "pri list \<Rightarrow> nat \<Rightarrow> exn + (int \<times> generator)" where
  "next_priority rel i =
     (if length rel \<le> i + 1 then Inl IndexError
      else (case rel ! i of
          Inf \<Rightarrow> next_priority rel (i + 1)
        | Pri k \<Rightarrow>
            (let priority = k + RULE_PRIORITY_INCREASE_STEP
             in if Pri priority < rel ! (i + 1)
                then Inr (priority, \<lparr>relevant_existing_priorities =
                       take (i + 1) rel @ Pri priority # drop (i + 1) rel, gen_index = i + 1\<rparr>)
                else next_priority rel (i + 1))))"
  by pat_completeness auto
termination by (relation "measure (\<lambda>(rel, i). length rel - i)") auto

declare next_priority.simps [simp del]

definition generator_next :: "generator \<Rightarrow> exn + (int \<times> generator)" where
  "generator_next g = next_priority (relevant_existing_priorities g) (gen_index g)"

section \<open>The interface\<close>

text \<open>
  A source of fresh numbers: in a valid state it yields a number not in use that lies above the last
  one by a gap at least, and stays valid with that number in use.
\<close>

locale fresh_numbers =
  fixes gap :: int
    and valid :: "'g \<Rightarrow> bool"
    and in_use :: "'g \<Rightarrow> int set"
    and low :: "'g \<Rightarrow> int"
    and nxt :: "'g \<Rightarrow> 'e + (int \<times> 'g)"
  assumes gap_pos: "0 < gap"
    and nxt_total: "valid g \<Longrightarrow> \<exists>p g'. nxt g = Inr (p, g')"
    and nxt_valid: "valid g \<Longrightarrow> nxt g = Inr (p, g') \<Longrightarrow> valid g'"
    and nxt_above: "valid g \<Longrightarrow> nxt g = Inr (p, g') \<Longrightarrow> low g + gap \<le> p"
    and nxt_low: "valid g \<Longrightarrow> nxt g = Inr (p, g') \<Longrightarrow> low g' = p"
    and nxt_fresh: "valid g \<Longrightarrow> nxt g = Inr (p, g') \<Longrightarrow> p \<notin> in_use g"
    and nxt_in_use: "valid g \<Longrightarrow> nxt g = Inr (p, g') \<Longrightarrow> in_use g' = insert p (in_use g)"

text \<open>The next \<open>n\<close> numbers.\<close>

primrec draw :: "('g \<Rightarrow> 'e + (int \<times> 'g)) \<Rightarrow> nat \<Rightarrow> 'g \<Rightarrow> 'e + (int list \<times> 'g)" where
  "draw nxt 0 g = Inr ([], g)"
| "draw nxt (Suc n) g = (case nxt g of
     Inl e \<Rightarrow> Inl e
   | Inr (p, g') \<Rightarrow> (case draw nxt n g' of Inl e \<Rightarrow> Inl e | Inr (ps, h) \<Rightarrow> Inr (p # ps, h)))"

context fresh_numbers
begin

lemma draw_fresh:
  "valid g \<Longrightarrow> \<exists>ps h. draw nxt n g = Inr (ps, h) \<and> length ps = n \<and> valid h \<and>
     sorted_wrt (\<lambda>a b. a + gap \<le> b) (low g # ps) \<and> set ps \<inter> in_use g = {} \<and> in_use h = set ps \<union> in_use g"
proof (induction n arbitrary: g)
  case (Suc n)
  from nxt_total [OF Suc.prems] obtain p g' where nxt: "nxt g = Inr (p, g')" by blast
  note facts = nxt_valid [OF Suc.prems nxt] nxt_above [OF Suc.prems nxt] nxt_low [OF Suc.prems nxt]
    nxt_fresh [OF Suc.prems nxt] nxt_in_use [OF Suc.prems nxt]
  from Suc.IH [OF facts(1)] obtain ps h where
      "draw nxt n g' = Inr (ps, h)" "length ps = n" "valid h" "sorted_wrt (\<lambda>a b. a + gap \<le> b) (low g' # ps)"
      "set ps \<inter> in_use g' = {}" "in_use h = set ps \<union> in_use g'" by blast
  with nxt facts(2-5) have "draw nxt (Suc n) g = Inr (p # ps, h) \<and> length (p # ps) = Suc n \<and> valid h \<and>
      sorted_wrt (\<lambda>a b. a + gap \<le> b) (low g # p # ps) \<and> set (p # ps) \<inter> in_use g = {} \<and> in_use h = set (p # ps) \<union> in_use g"
    using gap_pos by fastforce
  then show ?case by blast
qed simp

end

section \<open>The generator provides it\<close>

definition generator_valid :: "generator \<Rightarrow> bool" where
  "generator_valid g \<longleftrightarrow> (let rel = relevant_existing_priorities g; i = gen_index g in
     sorted rel \<and> i + 1 < length rel \<and> last rel = Inf \<and> rel ! i \<noteq> Inf)"

definition generator_in_use :: "generator \<Rightarrow> int set" where
  "generator_in_use g = {k. Pri k \<in> set (relevant_existing_priorities g)}"

fun pri_int :: "pri \<Rightarrow> int" where
  "pri_int (Pri k) = k"
| "pri_int Inf = 0"

definition generator_low :: "generator \<Rightarrow> int" where
  "generator_low g = pri_int (relevant_existing_priorities g ! gen_index g)"

lemma sorted_split:
  assumes "sorted (rel :: pri list)" "i + 1 < length rel" "rel ! i < x" "x < rel ! (i + 1)"
  shows "x \<notin> set rel" "sorted (take (i + 1) rel @ x # drop (i + 1) rel)"
proof -
  have below: "y \<le> rel ! i" if "y \<in> set (take (i + 1) rel)" for y
    using that assms(1,2) by (auto simp: in_set_conv_nth sorted_iff_nth_mono)
  have above: "rel ! (i + 1) \<le> y" if "y \<in> set (drop (i + 1) rel)" for y
    using that assms(1,2) by (auto simp: in_set_conv_nth sorted_iff_nth_mono)
  have "set rel = set (take (i + 1) rel) \<union> set (drop (i + 1) rel)"
    by (metis append_take_drop_id set_append)
  then show "x \<notin> set rel"
    using below above assms(3,4) by fastforce
  show "sorted (take (i + 1) rel @ x # drop (i + 1) rel)"
    using assms(1,3,4) below above
    by (fastforce simp: sorted_append intro: sorted_wrt_take sorted_wrt_drop)
qed

lemma next_priority_spec:
  assumes "sorted rel" "i + 1 < length rel" "last rel = Inf" "rel ! i = Pri a"
  shows "\<exists>p j. next_priority rel i = Inr (p, \<lparr>relevant_existing_priorities =
           take (j + 1) rel @ Pri p # drop (j + 1) rel, gen_index = j + 1\<rparr>) \<and>
         a + RULE_PRIORITY_INCREASE_STEP \<le> p \<and> j + 1 < length rel \<and> rel ! j < Pri p \<and> Pri p < rel ! (j + 1)"
  using assms
proof (induction rel i arbitrary: a rule: next_priority.induct)
  case (1 rel i)
  let ?p = "a + RULE_PRIORITY_INCREASE_STEP"
  have step: "next_priority rel i = (if Pri ?p < rel ! (i + 1)
      then Inr (?p, \<lparr>relevant_existing_priorities = take (i + 1) rel @ Pri ?p # drop (i + 1) rel,
        gen_index = i + 1\<rparr>)
      else next_priority rel (i + 1))"
    using 1(4,6) by (subst next_priority.simps) (simp add: Let_def)
  show ?case
  proof (cases "Pri ?p < rel ! (i + 1)")
    case True
    with step 1(4,6) show ?thesis
      by (intro exI [of _ ?p] exI [of _ i]) (simp add: RULE_PRIORITY_INCREASE_STEP_def)
  next
    case False
    then obtain b where b: "rel ! (i + 1) = Pri b" by (cases "rel ! (i + 1)") auto
    have "a \<le> b"
      using 1(3,4,6) b by (metis le_add1 less_eq_pri.simps(1) sorted_iff_nth_mono)
    moreover have "i + 1 + 1 < length rel"
    proof (rule ccontr)
      assume "\<not> i + 1 + 1 < length rel"
      with 1(4) have "rel ! (i + 1) = last rel"
        by (metis (no_types) Suc_eq_plus1 add_diff_cancel_right' last_conv_nth length_0_conv
            linorder_neqE_nat not_less_eq not_less_zero)
      with 1(5) b show False by simp
    qed
    ultimately have "\<exists>p j. next_priority rel (i + 1) = Inr (p, \<lparr>relevant_existing_priorities =
           take (j + 1) rel @ Pri p # drop (j + 1) rel, gen_index = j + 1\<rparr>) \<and>
         b + RULE_PRIORITY_INCREASE_STEP \<le> p \<and> j + 1 < length rel \<and> rel ! j < Pri p \<and> Pri p < rel ! (j + 1)"
      using 1(3-6) b False by (intro 1(1)) (simp_all add: not_le)
    with \<open>a \<le> b\<close> False show ?thesis
      unfolding step by fastforce
  qed
qed

lemma generator_next_spec:
  assumes "generator_valid g"
  obtains p g' where "generator_next g = Inr (p, g')" "generator_valid g'"
    "generator_low g + RULE_PRIORITY_INCREASE_STEP \<le> p" "generator_low g' = p"
    "p \<notin> generator_in_use g" "generator_in_use g' = insert p (generator_in_use g)"
proof -
  let ?rel = "relevant_existing_priorities g"
  from assms obtain a where rel: "sorted ?rel" "gen_index g + 1 < length ?rel" "last ?rel = Inf"
      "?rel ! gen_index g = Pri a"
    by (auto simp: generator_valid_def Let_def) (metis pri.exhaust)
  from next_priority_spec [OF rel] obtain p j where
      nxt: "generator_next g = Inr (p, \<lparr>relevant_existing_priorities =
        take (j + 1) ?rel @ Pri p # drop (j + 1) ?rel, gen_index = j + 1\<rparr>)" (is "_ = Inr (p, ?g)")
      and p: "a + RULE_PRIORITY_INCREASE_STEP \<le> p" "j + 1 < length ?rel" "?rel ! j < Pri p" "Pri p < ?rel ! (j + 1)"
    by (auto simp: generator_next_def)
  note split = sorted_split [OF rel(1) p(2-4)]
  have here: "(take (j + 1) ?rel @ Pri p # drop (j + 1) ?rel) ! (j + 1) = Pri p"
    using p(2) by (simp add: nth_append)
  have "set ?rel = set (take (j + 1) ?rel) \<union> set (drop (j + 1) ?rel)"
    by (metis append_take_drop_id set_append)
  then have "generator_in_use ?g = insert p (generator_in_use g)"
    by (auto simp: generator_in_use_def)
  moreover have "generator_valid ?g"
    using split(2) p(2) here rel(3) by (simp add: generator_valid_def Let_def last_append)
  ultimately show thesis
    using that [OF nxt] split(1) p(1) rel(4) here
    by (simp add: generator_low_def generator_in_use_def)
qed

interpretation priorities: fresh_numbers RULE_PRIORITY_INCREASE_STEP generator_valid
  generator_in_use generator_low generator_next
proof
  show "0 < RULE_PRIORITY_INCREASE_STEP" by (simp add: RULE_PRIORITY_INCREASE_STEP_def)
qed (auto elim: generator_next_spec)

section \<open>Properties\<close>

definition start_priority :: "int option \<Rightarrow> int" where
  "start_priority start_from = (case start_from of None \<Rightarrow> RULE_DEFAULT_PRIORITY | Some s \<Rightarrow> s)"

lemma sort_first:
  fixes x :: "'a :: linorder"
  assumes "x \<in> set xs" "\<forall>y \<in> set xs. x \<le> y"
  shows "sort xs ! 0 = x"
proof -
  from assms(1) have "x \<in> set (sort xs)" by simp
  then obtain j where j: "j < length (sort xs)" "sort xs ! j = x" by (metis in_set_conv_nth)
  then have "sort xs ! 0 \<le> x" by (metis le0 sorted_iff_nth_mono sorted_sort)
  moreover have "sort xs ! 0 \<in> set (sort xs)" using j by (intro nth_mem) auto
  ultimately show ?thesis using assms(2) by (metis antisym set_sort)
qed

lemma sort_last:
  fixes x :: "'a :: linorder"
  assumes "x \<in> set xs" "\<forall>y \<in> set xs. y \<le> x"
  shows "last (sort xs) = x"
proof -
  from assms(1) have ne: "sort xs \<noteq> []" by (metis empty_iff list.set(1) set_sort)
  then have "last (sort xs) \<in> set xs" by (metis last_in_set set_sort)
  moreover have "x \<le> last (sort xs)"
  proof -
    from assms(1) have "x \<in> set (sort xs)" by simp
    then obtain j where j: "j < length (sort xs)" "sort xs ! j = x" by (metis in_set_conv_nth)
    then have "sort xs ! j \<le> sort xs ! (length (sort xs) - 1)"
      by (intro sorted_nth_mono) auto
    with j ne show ?thesis by (simp add: last_conv_nth)
  qed
  ultimately show ?thesis using assms(2) by (metis antisym)
qed

lemma rule_priority_generator_start:
  fixes existing start_from
  defines "g \<equiv> rule_priority_generator existing start_from"
  shows "generator_valid g" "generator_low g = start_priority start_from - RULE_PRIORITY_INCREASE_STEP"
    "k \<in> set existing \<Longrightarrow> start_priority start_from - RULE_PRIORITY_INCREASE_STEP \<le> k \<Longrightarrow> k \<in> generator_in_use g"
proof -
  let ?lim = "start_priority start_from - RULE_PRIORITY_INCREASE_STEP"
  let ?xs = "filter (\<lambda>ep. Pri ?lim \<le> ep) (map Pri existing @ [Pri ?lim, Inf])"
  have g: "g = \<lparr>relevant_existing_priorities = sort ?xs, gen_index = 0\<rparr>"
    by (simp add: g_def rule_priority_generator_def start_priority_def Let_def)
  have len: "1 < length (sort ?xs)" by simp
  have first: "sort ?xs ! 0 = Pri ?lim" by (rule sort_first) auto
  have last: "last (sort ?xs) = Inf" by (rule sort_last) auto
  show "generator_valid g"
    using len first last by (simp add: generator_valid_def Let_def g)
  show "generator_low g = ?lim"
    using first by (simp add: generator_low_def g)
  show "k \<in> set existing \<Longrightarrow> ?lim \<le> k \<Longrightarrow> k \<in> generator_in_use g"
    by (simp add: generator_in_use_def g)
qed

lemma priorities_drawn:
  "\<exists>ps g. draw generator_next n (rule_priority_generator existing start_from) = Inr (ps, g) \<and>
     length ps = n \<and> sorted_wrt (\<lambda>a b. a + 5 \<le> b) ps \<and>
     list_all (\<lambda>p. start_priority start_from \<le> p \<and> p \<notin> set existing) ps"
proof -
  let ?g = "rule_priority_generator existing start_from"
  note start = rule_priority_generator_start [where existing = existing and start_from = start_from]
  from priorities.draw_fresh [OF start(1)] obtain ps h where draw: "draw generator_next n ?g = Inr (ps, h)"
      "length ps = n" "sorted_wrt (\<lambda>a b. a + RULE_PRIORITY_INCREASE_STEP \<le> b) (generator_low ?g # ps)"
      "set ps \<inter> generator_in_use ?g = {}" by blast
  from draw(3) start(2) have above: "\<forall>p \<in> set ps. start_priority start_from \<le> p" by simp
  moreover have "p \<notin> set existing" if "p \<in> set ps" for p
    using bspec [OF above that] that draw(4) start(3) [where k = p]
    by (auto simp: RULE_PRIORITY_INCREASE_STEP_def)
  ultimately show ?thesis
    using draw by (auto simp: list_all_iff RULE_PRIORITY_INCREASE_STEP_def)
qed

text \<open>
  C15: However many priorities are drawn for new rules, the generator yields them all: each is at
  least the start, differs from the priority of every existing rule, and lies at least five
  above the one before it.
\<close>

theorem drawn_priorities:
  "\<exists>ps g. draw generator_next n (rule_priority_generator existing start_from) = Inr (ps, g) \<and>
     length ps = n \<and> sorted_wrt (\<lambda>a b. a + 5 \<le> b) ps \<and>
     list_all (\<lambda>p. start_priority start_from \<le> p \<and> p \<notin> set existing) ps"
  by (rule priorities_drawn)

lemma draw_in_row:
  assumes "relevant_existing_priorities g = map Pri ks @ [Inf]" "gen_index g + 1 = length ks" "last ks = k"
  shows "\<exists>h. draw generator_next n g = Inr (map (\<lambda>i. k + 5 * (int i + 1)) [0..<n], h)"
  using assms
proof (induction n arbitrary: g ks k)
  case (Suc n)
  have ks: "ks \<noteq> []" using Suc.prems(2) by auto
  then have at: "(map Pri ks @ [Inf]) ! gen_index g = Pri k"
    using Suc.prems(2,3) by (simp add: nth_append last_conv_nth) (metis diff_Suc_Suc diff_zero)
  let ?g = "\<lparr>relevant_existing_priorities = map Pri (ks @ [k + 5]) @ [Inf], gen_index = gen_index g + 1\<rparr>"
  have "generator_next g = Inr (k + 5, ?g)"
    using Suc.prems(1,2) at
    by (simp add: generator_next_def next_priority.simps [of "map Pri ks @ [Inf]"] Let_def
        RULE_PRIORITY_INCREASE_STEP_def nth_append)
  moreover from Suc.IH [of ?g "ks @ [k + 5]" "k + 5"] Suc.prems(2) obtain h where
      "draw generator_next n ?g = Inr (map (\<lambda>i. k + 5 + 5 * (int i + 1)) [0..<n], h)" by auto
  moreover have "map (\<lambda>i. k + 5 * (int i + 1)) [0..<Suc n] =
      (k + 5) # map (\<lambda>i. k + 5 + 5 * (int i + 1)) [0..<n]"
    by (simp add: upt_conv_Cons map_Suc_upt [symmetric] del: upt_Suc)
  ultimately show ?case by simp
qed simp

text \<open>Without existing rules the priorities are the start, five more, ten more, and so on.\<close>

lemma first_priorities:
  "\<exists>g. draw generator_next n (rule_priority_generator [] start_from) =
     Inr (map (\<lambda>i. start_priority start_from + 5 * int i) [0..<n], g)"
proof -
  let ?k = "start_priority start_from - 5"
  have "rule_priority_generator [] start_from =
      \<lparr>relevant_existing_priorities = map Pri [?k] @ [Inf], gen_index = 0\<rparr>"
    by (simp add: rule_priority_generator_def start_priority_def Let_def RULE_PRIORITY_INCREASE_STEP_def)
  from draw_in_row [of "rule_priority_generator [] start_from" "[?k]" ?k n] this show ?thesis
    by (simp add: algebra_simps)
qed

end
