(* ===== verification/SecurityGroups.thy ===== *)
theory SecurityGroups
  imports Networks Priorities RuleParsers
begin

text \<open>
  \<^verbatim>\<open>domain/services/security_group.py\<close>: the network security groups (NSGs) and their rules. The
  lemmas give the rule that is built from rule data, the rules that are created and deleted, and
  that the rules of an NSG only change under the lock.
\<close>

section \<open>SecurityGroupService\<close>

definition list_network_security_group :: "env \<Rightarrow> string \<Rightarrow> resp prog" where
  "list_network_security_group E group_name =
     retried E (bnd (call (Network (ListNsgs group_name))) (\<lambda>r.
       bnd (expect as_nsgs r) (\<lambda>gs. Return (RNsgs gs))))"

definition create_network_security_group ::
  "env \<Rightarrow> string \<Rightarrow> string \<Rightarrow> string \<Rightarrow> dict option \<Rightarrow> resp prog"
where
  "create_network_security_group E group_name security_group_name region tags =
     retried E (poll_result (call (Network (PutNsg group_name security_group_name region tags))))"

definition prepare_security_group_rule ::
  "inbound_rule \<Rightarrow> string \<Rightarrow> int \<Rightarrow> access \<Rightarrow> address \<Rightarrow> exn + security_rule"
where
  "prepare_security_group_rule rule_data destination_address priority access source_address =
     (let rule_name = ''rule_'' @ int_str priority;
          rule = (\<lambda>name acc src ports prot.
            \<lparr>sr_name = (if truthy name then the name else rule_name), sr_access = acc,
             sr_direction = ''Inbound'', sr_source_address_prefix = src,
             sr_source_port_range = ''*'', sr_destination_address_prefix = destination_address,
             sr_destination_port_range = ports, sr_priority = priority, sr_protocol = prot\<rparr>)
      in case rule_data of
        ARule rd \<Rightarrow> Inr (rule (rd_name rd) (rd_access rd) source_address
          (if truthy (rd_port rd) then the (rd_port rd)
           else str_opt (rd_from_port rd) @ ''-'' @ str_opt (rd_to_port rd)) (rd_protocol rd))
      | APort pd \<Rightarrow> Inr (rule (pd_name pd) access (pd_source pd)
          (if pd_from_port pd = pd_to_port pd then pd_from_port pd
           else pd_from_port pd @ ''-'' @ pd_to_port pd) (pd_protocol pd))
      | AnotherObject \<Rightarrow> Inl (ValueError ''Unsupported type''))"

definition create_network_security_group_rule ::
  "env \<Rightarrow> string \<Rightarrow> string \<Rightarrow> inbound_rule \<Rightarrow> string \<Rightarrow> int \<Rightarrow> address \<Rightarrow> resp prog"
where
  "create_network_security_group_rule E group_name security_group_name rule_data destination_addr
     priority source_address =
   retried E (case prepare_security_group_rule rule_data destination_addr priority
       (AccessText ''Allow'') source_address of
     Inl e \<Rightarrow> Raise e
   | Inr rule \<Rightarrow> poll_result (call (Network (PutRule group_name security_group_name
       (sr_name rule) rule))))"

definition create_network_security_group_custom_rule ::
  "env \<Rightarrow> string \<Rightarrow> string \<Rightarrow> security_rule \<Rightarrow> bool \<Rightarrow> resp prog"
where
  "create_network_security_group_custom_rule E group_name security_group_name rule async =
   retried E (bnd (call (Network (PutRule group_name security_group_name (sr_name rule) rule)))
     (\<lambda>r. if async then Return r
       else bnd (expect as_poller r) (\<lambda>n. call (Poller (PollResult n)))))"

definition get_first_network_security_group :: "env \<Rightarrow> string \<Rightarrow> resp prog" where
  "get_first_network_security_group E group_name =
     retried E (bnd (list_network_security_group E group_name) (\<lambda>r.
       bnd (expect as_nsgs r) (\<lambda>gs. case gs of
         [] \<Rightarrow> Raise (PyException (''The resource group '' @ group_name @
           '' does not contain a network security group.''))
       | g # _ \<Rightarrow> Return (RNsg g))))"

definition get_network_security_group :: "env \<Rightarrow> string \<Rightarrow> string \<Rightarrow> resp prog" where
  "get_network_security_group E group_name name =
     retried E (call (Network (GetNsg group_name name)))"

text \<open>The loop over the rules draws one priority for each.\<close>

fun create_rules ::
  "env \<Rightarrow> string \<Rightarrow> string \<Rightarrow> string \<Rightarrow> address \<Rightarrow> generator \<Rightarrow> inbound_rule list \<Rightarrow> unit prog"
where
  "create_rules E group_name security_group_name destination_addr source_address g [] = Return ()"
| "create_rules E group_name security_group_name destination_addr source_address g (rd # rds) =
     (case generator_next g of
        Inl e \<Rightarrow> Raise e
      | Inr (priority, g') \<Rightarrow>
          thn (create_network_security_group_rule E group_name security_group_name rd
            destination_addr priority source_address)
          (create_rules E group_name security_group_name destination_addr source_address g' rds))"

definition create_network_security_group_rules ::
  "env \<Rightarrow> string \<Rightarrow> string \<Rightarrow> inbound_rule list \<Rightarrow> string \<Rightarrow> lock \<Rightarrow> int option \<Rightarrow> address \<Rightarrow> resp prog"
where
  "create_network_security_group_rules E group_name security_group_name inbound_rules
     destination_addr lk start_from source_address =
   retried E (no_result (with_lock lk (
     bnd (call (Network (ListRules group_name security_group_name))) (\<lambda>r.
     bnd (expect as_rules r) (\<lambda>security_rules.
     create_rules E group_name security_group_name destination_addr source_address
       (rule_priority_generator (map sr_priority security_rules) start_from) inbound_rules)))))"

definition allow_azure_lb :: security_rule where
  "allow_azure_lb = \<lparr>sr_name = ''allow_azure_lb'', sr_access = AccessAllow,
     sr_direction = ''Inbound'', sr_source_address_prefix = Addr ''AzureLoadBalancer'',
     sr_source_port_range = ''*'', sr_destination_address_prefix = ''*'',
     sr_destination_port_range = ''*'', sr_priority = 4010, sr_protocol = Proto ''*''\<rparr>"

definition deny_all_in :: security_rule where
  "deny_all_in = \<lparr>sr_name = ''deny_all_in'', sr_access = AccessDeny,
     sr_direction = ''Inbound'', sr_source_address_prefix = Addr ''*'',
     sr_source_port_range = ''*'', sr_destination_address_prefix = ''*'',
     sr_destination_port_range = ''*'', sr_priority = 4020, sr_protocol = Proto ''*''\<rparr>"

definition create_isolated_network_security_group_rules ::
  "env \<Rightarrow> string \<Rightarrow> string \<Rightarrow> lock \<Rightarrow> resp prog"
where
  "create_isolated_network_security_group_rules E group_name security_group_name lk =
   retried E (no_result (with_lock lk (
     thn (poll_result (call (Network (PutRule group_name security_group_name
       (sr_name allow_azure_lb) allow_azure_lb))))
     (poll_result (call (Network (PutRule group_name security_group_name
       (sr_name deny_all_in) deny_all_in)))))))"

definition delete_rule :: "string \<Rightarrow> string \<Rightarrow> security_rule \<Rightarrow> unit prog" where
  "delete_rule group_name security_group_name rule =
     thn (poll_wait (call (Network (DeleteRule group_name security_group_name (sr_name rule)))))
       (Return ())"

definition is_custom_rule :: "security_rule \<Rightarrow> bool" where
  "is_custom_rule r \<longleftrightarrow> py_in ''custom_rule'' (sr_name r)"

definition delete_custom_security_rules_from_nsg ::
  "env \<Rightarrow> string \<Rightarrow> string \<Rightarrow> lock \<Rightarrow> resp prog"
where
  "delete_custom_security_rules_from_nsg E resource_group_name network_security_group_name lk =
   retried E (no_result (
     bnd (call (Network (ListRules resource_group_name network_security_group_name))) (\<lambda>r.
     bnd (expect as_rules r) (\<lambda>rules_in_nsg.
     with_lock lk (for_each (delete_rule resource_group_name network_security_group_name)
       (filter is_custom_rule rules_in_nsg))))))"

definition delete_security_rules :: "env \<Rightarrow> string \<Rightarrow> string \<Rightarrow> lock \<Rightarrow> resp prog" where
  "delete_security_rules E resource_group_name name lk =
   retried E (no_result (
     bnd (get_private_ip E resource_group_name name) (\<lambda>r.
     bnd (expect as_str r) (\<lambda>private_ip_address.
     bnd (get_first_network_security_group E resource_group_name) (\<lambda>r.
     bnd (expect as_nsg r) (\<lambda>security_group.
     (let vm_rules = filter (\<lambda>rule. sr_destination_address_prefix rule = private_ip_address)
            (nsg_security_rules security_group)
      in only_if (vm_rules \<noteq> []) (with_lock lk
        (for_each (delete_rule resource_group_name (nsg_name security_group)) vm_rules)))))))))"

definition get_subnets_nsg_name :: "string \<Rightarrow> string" where
  "get_subnets_nsg_name reservation_id = SANDBOX_NSG_NAME @ reservation_id"

section \<open>Which calls the methods make\<close>

fun is_rule_change :: "request \<Rightarrow> bool" where
  "is_rule_change (Network (PutRule _ _ _ _)) \<longleftrightarrow> True"
| "is_rule_change (Network (DeleteRule _ _ _)) \<longleftrightarrow> True"
| "is_rule_change _ \<longleftrightarrow> False"

lemma emits_create_network_security_group_rule:
  assumes "retry_law E" "\<And>r v. P (Network (PutRule grp n (sr_name r) r), v)" "\<And>i v. P (Poller (PollResult i), v)"
  shows "emits P (create_network_security_group_rule E grp n rd dest prio src)"
  unfolding create_network_security_group_rule_def
  by (auto intro!: emits_intros retried_intros assms split: sum.splits)

lemma halts_create_network_security_group_rule [halts_intros]:
  "retry_law E \<Longrightarrow> halts (create_network_security_group_rule E grp n rd dest prio src)"
  unfolding create_network_security_group_rule_def
  by (auto intro!: halts_intros retried_intros split: sum.splits)

lemma emits_create_rules:
  assumes "retry_law E" "\<And>r v. P (Network (PutRule grp n (sr_name r) r), v)" "\<And>i v. P (Poller (PollResult i), v)"
  shows "emits P (create_rules E grp n dest src g rds)"
  by (induction rds arbitrary: g)
    (auto intro!: emits_intros emits_create_network_security_group_rule assms split: sum.splits)

lemma halts_create_rules [halts_intros]:
  "retry_law E \<Longrightarrow> halts (create_rules E grp n dest src g rds)"
  by (induction rds arbitrary: g) (auto intro!: halts_intros split: sum.splits)

lemma emits_delete_rule [emits_intros]:
  "(\<And>v. P (Network (DeleteRule grp n (sr_name r)), v)) \<Longrightarrow> (\<And>i v. P (Poller (PollWait i), v)) \<Longrightarrow>
     emits P (delete_rule grp n r)"
  unfolding delete_rule_def by (auto intro!: emits_intros)

lemma halts_delete_rule [halts_intros]: "halts (delete_rule grp n r)"
  unfolding delete_rule_def by (auto intro!: halts_intros)

lemma emits_create_network_security_group:
  assumes "retry_law E" "\<And>v. P (Network (PutNsg grp n region tags), v)" "\<And>i v. P (Poller (PollResult i), v)"
  shows "emits P (create_network_security_group E grp n region tags)"
  unfolding create_network_security_group_def by (auto intro!: emits_intros retried_intros assms)

lemma halts_create_network_security_group [halts_intros]:
  "retry_law E \<Longrightarrow> halts (create_network_security_group E grp n region tags)"
  unfolding create_network_security_group_def by (auto intro!: halts_intros retried_intros)

lemma emits_create_network_security_group_rules:
  assumes "retry_law E" "\<And>v. P (Memory (Acquire lk), v)" "\<And>v. P (Memory (Release lk), v)"
    "\<And>v. P (Network (ListRules grp n), v)"
    "\<And>r v. P (Network (PutRule grp n (sr_name r) r), v)" "\<And>i v. P (Poller (PollResult i), v)"
  shows "emits P (create_network_security_group_rules E grp n rds dest lk start src)"
  unfolding create_network_security_group_rules_def
  by (auto intro!: emits_intros retried_intros emits_create_rules assms)

lemma halts_create_network_security_group_rules [halts_intros]:
  "retry_law E \<Longrightarrow> halts (create_network_security_group_rules E grp n rds dest lk start src)"
  unfolding create_network_security_group_rules_def
  by (auto intro!: halts_intros retried_intros)

lemma emits_isolated_rules:
  assumes "retry_law E" "\<And>v. P (Memory (Acquire lk), v)" "\<And>v. P (Memory (Release lk), v)"
    "\<And>r v. P (Network (PutRule grp n (sr_name r) r), v)" "\<And>i v. P (Poller (PollResult i), v)"
  shows "emits P (create_isolated_network_security_group_rules E grp n lk)"
  unfolding create_isolated_network_security_group_rules_def
  by (auto intro!: emits_intros retried_intros assms)

lemma halts_isolated_rules [halts_intros]:
  "retry_law E \<Longrightarrow> halts (create_isolated_network_security_group_rules E grp n lk)"
  unfolding create_isolated_network_security_group_rules_def
  by (auto intro!: halts_intros retried_intros)

section \<open>Rules change under the lock\<close>

lemma keeps_lock_rule_methods:
  assumes "retry_law E"
    and "p \<in> {create_network_security_group_rules E grp n rds dest lk start src,
      create_isolated_network_security_group_rules E grp n lk,
      delete_custom_security_rules_from_nsg E grp n lk, delete_security_rules E grp n lk}"
  shows "keeps_lock lk is_rule_change p"
proof -
  have untouched: "lock_untouched lk (Network q, v)" "lock_untouched lk (Poller q', v)" for q q' v
    by (simp_all add: lock_untouched_def)
  have free: "lock_free lk is_rule_change (Network (ListRules a b), v)"
      "lock_free lk is_rule_change (Network (ListNsgs a), v)"
      "lock_free lk is_rule_change (Network (GetNic a b), v)" for a b v
    by (simp_all add: lock_free_def)
  have create: "keeps_lock lk is_rule_change (create_network_security_group_rules E grp n rds dest lk start src)"
    unfolding create_network_security_group_rules_def no_result_def
    by (intro lock_intros assms(1) emits_intros halts_intros emits_create_rules untouched)
  have isolated: "keeps_lock lk is_rule_change (create_isolated_network_security_group_rules E grp n lk)"
    unfolding create_isolated_network_security_group_rules_def no_result_def
    by (intro lock_intros assms(1) emits_intros halts_intros untouched)
  have expect: "keeps_lock lk is_rule_change (expect sel r)" for sel :: "resp \<Rightarrow> 'z option" and r
    by (intro keeps_lock_free emits_intros halts_intros)
  have delete_loop: "emits (lock_untouched lk) (for_each (delete_rule grp m) rs)" for m rs
    by (intro emits_intros untouched)
  have custom: "keeps_lock lk is_rule_change (delete_custom_security_rules_from_nsg E grp n lk)"
    unfolding delete_custom_security_rules_from_nsg_def no_result_def
    by (intro lock_intros assms(1) delete_loop halts_intros expect)
      (intro keeps_lock_free emits_intros halts_intros free)
  have ip: "keeps_lock lk is_rule_change (get_private_ip E grp n)"
    unfolding get_private_ip_def
    by (intro keeps_lock_free retried_intros assms(1) emits_intros halts_intros free)
  have first: "keeps_lock lk is_rule_change (get_first_network_security_group E grp)"
    unfolding get_first_network_security_group_def list_network_security_group_def
    by (intro keeps_lock_free retried_intros assms(1) emits_intros halts_intros free)
      (auto intro!: emits_intros halts_intros split: list.splits)
  have delete: "keeps_lock lk is_rule_change (delete_security_rules E grp n lk)"
    unfolding delete_security_rules_def no_result_def Let_def
    by (intro lock_intros assms(1) delete_loop halts_intros expect ip first)
  from assms(2) show ?thesis using create isolated custom delete by blast
qed

text \<open>They give the lock back on every outcome, take it once at a time, and always come to an end.\<close>

lemma rules_change_under_lock:
  assumes "retry_law E"
    and "p \<in> {create_network_security_group_rules E grp n rds dest lk start src,
      create_isolated_network_security_group_rules E grp n lk,
      delete_custom_security_rules_from_nsg E grp n lk, delete_security_rules E grp n lk}"
    and "exec p es out"
  shows "disciplined lk is_rule_change es \<and> out \<noteq> Hang"
  using keeps_lock_rule_methods [OF assms(1,2)] assms(3) keeps_lock_disciplined keeps_lock_halts haltsD by blast

section \<open>The rules that are created and deleted\<close>

lemma wp_delete_rules:
  "wp (recorder is_deletion) (for_each (delete_rule grp n) rs)
     (\<lambda>_ t. t = s @ map (\<lambda>r. Network (DeleteRule grp n (sr_name r))) rs) (\<lambda>_ _. True) (\<lambda>_. True) s"
  by (rule wp_for_each_upto [where I = "\<lambda>rs t. t = s @ map (\<lambda>r. Network (DeleteRule grp n (sr_name r))) rs"])
    (auto simp: delete_rule_def wp_simps split: option.splits)

text \<open>
  When the custom rules of a security group were removed, the deletions requested after the last listing
  of its rules are exactly those of the listed rules with \<^verbatim>\<open>custom_rule\<close> in the name, in their order.
\<close>

lemma custom_rules_deleted:
  assumes "retry_law E" "exec (delete_custom_security_rules_from_nsg E grp n lk) es (Ok r)"
  shows "\<exists>es0 es1 rules. es = es0 @ (Network (ListRules grp n), Inr (RRules rules)) # es1 \<and>
    filter is_deletion (map fst es1) =
      map (\<lambda>r. Network (DeleteRule grp n (sr_name r))) (filter (\<lambda>r. py_in ''custom_rule'' (sr_name r)) rules)"
proof -
  let ?body = "\<lambda>rules. with_lock lk (for_each (delete_rule grp n) (filter is_custom_rule rules))"
  from assms obtain es0 es2 where es: "es = es0 @ es2" and run: "exec (no_result (
     bnd (call (Network (ListRules grp n))) (\<lambda>r. bnd (expect as_rules r) ?body))) es2 (Ok r)"
    unfolding delete_custom_security_rules_from_nsg_def by (elim exec_retriedE)
  from run obtain v rules es1 u where list: "as_rules v = Some rules"
      and es2: "es2 = (Network (ListRules grp n), Inr v) # es1" and loop: "exec (?body rules) es1 (Ok u)"
    by (auto simp: no_result_def exec_bnd exec_simps split: option.splits)
  have "wp (recorder is_deletion) (?body rules) (\<lambda>_ t. t = map (\<lambda>r. Network (DeleteRule grp n (sr_name r)))
      (filter is_custom_rule rules)) (\<lambda>_ _. True) (\<lambda>_. True) []"
    using wp_delete_rules [of grp n "filter is_custom_rule rules" "[]"] by (simp add: wp_simps)
  with loop have "filter is_deletion (map fst es1) =
      map (\<lambda>r. Network (DeleteRule grp n (sr_name r))) (filter is_custom_rule rules)"
    by (auto dest: wpD simp: track_recorder)
  moreover from list have "v = RRules rules" by (cases v) auto
  ultimately show ?thesis using es es2 by (auto simp: is_custom_rule_def [abs_def])
qed

fun is_put_rule :: "request \<Rightarrow> bool" where
  "is_put_rule (Network (PutRule _ _ _ _)) \<longleftrightarrow> True"
| "is_put_rule _ \<longleftrightarrow> False"

abbreviation put_rule :: "string \<Rightarrow> string \<Rightarrow> security_rule \<Rightarrow> request" where
  "put_rule grp n r \<equiv> Network (PutRule grp n (sr_name r) r)"

lemma remdups_adj_replicate_append:
  "xs = [] \<or> hd xs \<noteq> q \<Longrightarrow> remdups_adj (replicate (Suc k) q @ xs) = q # remdups_adj xs"
proof (induction k)
  case 0
  then show ?case by (cases xs) auto
qed auto

lemma remdups_adj_runs:
  "length ks = length qs \<Longrightarrow> distinct qs \<Longrightarrow>
     remdups_adj (concat (map2 (\<lambda>k q. replicate (Suc k) q) ks qs)) = qs"
proof (induction ks qs rule: list_induct2)
  case (Cons k ks q qs)
  let ?rest = "concat (map2 (\<lambda>k q. replicate (Suc k) q) ks qs)"
  have "?rest = [] \<or> hd ?rest \<noteq> q"
    using Cons.hyps Cons.prems by (cases ks; cases qs) auto
  from remdups_adj_replicate_append [OF this, of k] Cons show ?case by simp
qed simp

text \<open>One rule is put on the group once or, after connection errors, several times.\<close>

lemma wp_create_rule:
  assumes "retry_law E"
  shows "wp (recorder is_put_rule) (create_network_security_group_rule E grp n rd dest p src)
    (\<lambda>_ t. \<exists>rule k. prepare_security_group_rule rd dest p (AccessText ''Allow'') src = Inr rule \<and>
       t = s @ replicate (Suc k) (put_rule grp n rule)) (\<lambda>_ _. True) (\<lambda>_. False) s"
proof (cases "prepare_security_group_rule rd dest p (AccessText ''Allow'') src")
  case (Inl e)
  then show ?thesis
    unfolding create_network_security_group_rule_def
    by (intro wp_retried [OF assms, where I = "\<lambda>_. True"]) (simp_all add: wp_simps)
next
  case (Inr rule)
  have more: "\<exists>k'. (s @ replicate k q) @ [q] = s @ replicate k' q \<and> 0 < k'" for k and q :: request
    by (intro exI [of _ "Suc k"]) (simp add: replicate_append_same [symmetric])
  show ?thesis
    unfolding create_network_security_group_rule_def
  proof (rule wp_retried [OF assms, where I = "\<lambda>t. \<exists>k. t = s @ replicate k (put_rule grp n rule)"])
    fix t assume "\<exists>k. t = s @ replicate k (put_rule grp n rule)"
    then obtain k where t: "t = s @ replicate k (put_rule grp n rule)" by blast
    have "\<exists>k'. t @ [put_rule grp n rule] = s @ replicate k' (put_rule grp n rule)"
        "\<exists>k'. t @ [put_rule grp n rule] = s @ replicate (Suc k') (put_rule grp n rule)"
      using more [of k "put_rule grp n rule"] unfolding t by (auto simp: gr0_conv_Suc)
    then show "wp (recorder is_put_rule)
       (case prepare_security_group_rule rd dest p (AccessText ''Allow'') src of
         Inl e \<Rightarrow> Raise e
       | Inr rule \<Rightarrow> poll_result (call (Network (PutRule grp n (sr_name rule) rule))))
       (\<lambda>_ t. \<exists>rule k. prepare_security_group_rule rd dest p (AccessText ''Allow'') src = Inr rule \<and>
         t = s @ replicate (Suc k) (put_rule grp n rule))
       (\<lambda>e t. True \<and> (retry_if_connection_error e \<longrightarrow> (\<exists>k. t = s @ replicate k (put_rule grp n rule))))
       (\<lambda>_. False) t"
      using Inr by (simp add: wp_simps split: option.splits)
  qed (intro exI [of _ 0], simp)
qed

text \<open>The rules for the drawn priorities.\<close>

definition rules_for ::
  "string \<Rightarrow> address \<Rightarrow> inbound_rule list \<Rightarrow> int list \<Rightarrow> security_rule list \<Rightarrow> bool"
where
  "rules_for dest src rds ps rules \<longleftrightarrow>
     map2 (\<lambda>rd p. prepare_security_group_rule rd dest p (AccessText ''Allow'') src) rds ps = map Inr rules"

text \<open>The puts recorded from \<open>s\<close> to \<open>t\<close> are those of the rules for the data, with repetitions.\<close>

definition puts_drawn :: "string \<Rightarrow> string \<Rightarrow> string \<Rightarrow> address \<Rightarrow> generator \<Rightarrow> inbound_rule list \<Rightarrow> request list \<Rightarrow> request list \<Rightarrow> bool"
where
  "puts_drawn grp n dest src g rds s t \<longleftrightarrow> (\<exists>ps h rules ks. draw generator_next (length rds) g = Inr (ps, h) \<and>
     rules_for dest src rds ps rules \<and> length rules = length rds \<and> length ks = length rules \<and>
     t = s @ concat (map2 (\<lambda>k q. replicate (Suc k) q) ks (map (put_rule grp n) rules)))"

lemma puts_drawn_Cons:
  assumes "generator_next g = Inr (p, g')"
    "prepare_security_group_rule rd dest p (AccessText ''Allow'') src = Inr rule"
    "puts_drawn grp n dest src g' rds (s @ replicate (Suc k) (put_rule grp n rule)) t"
  shows "puts_drawn grp n dest src g (rd # rds) s t"
proof -
  from assms(3) obtain ps h rules ks where "draw generator_next (length rds) g' = Inr (ps, h)"
      "rules_for dest src rds ps rules" "length rules = length rds" "length ks = length rules"
      "t = (s @ replicate (Suc k) (put_rule grp n rule)) @
        concat (map2 (\<lambda>k q. replicate (Suc k) q) ks (map (put_rule grp n) rules))"
    unfolding puts_drawn_def by blast
  with assms(1,2) show ?thesis
    unfolding puts_drawn_def
    by (intro exI [of _ "p # ps"] exI [of _ h] exI [of _ "rule # rules"] exI [of _ "k # ks"])
      (simp add: rules_for_def del: replicate_Suc)
qed

lemma wp_create_rules:
  assumes "retry_law E"
  shows "wp (recorder is_put_rule) (create_rules E grp n dest src g rds)
    (\<lambda>_. puts_drawn grp n dest src g rds s) (\<lambda>_ _. True) (\<lambda>_. False) s"
proof (induction rds arbitrary: g s)
  case Nil
  show ?case by (simp add: wp_simps puts_drawn_def rules_for_def)
next
  case (Cons rd rds)
  show ?case
  proof (cases "generator_next g")
    case (Inl e)
    then show ?thesis by (simp add: wp_simps)
  next
    case (Inr pg)
    then obtain p g' where nxt: "generator_next g = Inr (p, g')" by (cases pg) auto
    have rest: "wp (recorder is_put_rule) (create_rules E grp n dest src g' rds)
        (\<lambda>_. puts_drawn grp n dest src g (rd # rds) s) (\<lambda>_ _. True) (\<lambda>_. False) t"
      if "\<exists>rule k. prepare_security_group_rule rd dest p (AccessText ''Allow'') src = Inr rule \<and>
         t = s @ replicate (Suc k) (put_rule grp n rule)" for t
      using that by (elim exE conjE, intro wp_mono [OF Cons.IH]) (auto intro: puts_drawn_Cons [OF nxt])
    show ?thesis
      by (simp add: nxt wp_bnd, rule wp_mono [OF wp_create_rule [OF assms]]) (use rest in simp_all)
  qed
qed

lemma prepared_priority:
  "prepare_security_group_rule rd dest p acc src = Inr rule \<Longrightarrow> sr_priority rule = p"
  by (cases rd) (auto simp: prepare_security_group_rule_def Let_def)

lemma rules_for_priorities:
  "rules_for dest src rds ps rules \<Longrightarrow> length ps = length rds \<Longrightarrow> map sr_priority rules = ps"
proof (induction rds ps arbitrary: rules rule: list_induct2')
  case (4 rd rds p ps)
  then show ?case
    by (cases rules) (auto simp: rules_for_def prepared_priority)
qed (auto simp: rules_for_def)

lemma distinct_by_priority:
  assumes "sorted_wrt (\<lambda>a b. a + 5 \<le> b) (map sr_priority rules)"
  shows "distinct (map (put_rule grp n) rules)"
proof -
  from assms have "sorted_wrt (<) (map sr_priority rules)"
    by (rule sorted_wrt_mono_rel [rotated]) simp
  then have "distinct (map sr_priority rules)"
    by (simp add: strict_sorted_iff)
  then show ?thesis
    by (auto simp: distinct_map inj_on_def)
qed

text \<open>A method that returned: what its last attempt has listed, and the loop over the rules.\<close>

lemma exec_create_network_security_group_rules_Ok:
  assumes "retry_law E" "exec (create_network_security_group_rules E grp n rds dest lk start src) es (Ok r)"
  obtains es0 existing es1 b u where
    "es = es0 @ (Network (ListRules grp n), Inr (RRules existing)) # es1 @ [(Memory (Release lk), b)]"
    "exec (create_rules E grp n dest src (rule_priority_generator (map sr_priority existing) start) rds) es1 (Ok u)"
proof -
  let ?gen = "\<lambda>existing. rule_priority_generator (map sr_priority existing) start"
  from assms obtain es0 es2 where es: "es = es0 @ es2" and run: "exec (no_result (with_lock lk (
     bnd (call (Network (ListRules grp n))) (\<lambda>r. bnd (expect as_rules r) (\<lambda>existing.
     create_rules E grp n dest src (?gen existing) rds))))) es2 (Ok r)"
    unfolding create_network_security_group_rules_def by (elim exec_retriedE)
  from run obtain u where "exec (with_lock lk (
     bnd (call (Network (ListRules grp n))) (\<lambda>r. bnd (expect as_rules r) (\<lambda>existing.
     create_rules E grp n dest src (?gen existing) rds)))) es2 (Ok u)"
    by (auto simp: no_result_def exec_bnd exec_simps)
  then obtain a v existing es1 b where es2: "es2 = (Memory (Acquire lk), a) #
        (Network (ListRules grp n), Inr v) # es1 @ [(Memory (Release lk), b)]"
      and list: "as_rules v = Some existing"
      and loop: "exec (create_rules E grp n dest src (?gen existing) rds) es1 (Ok u)"
    by (auto elim!: exec_with_lockE simp: exec_bnd exec_simps split: option.splits)
  from list have "v = RRules existing" by (cases v) auto
  with es es2 have "es = (es0 @ [(Memory (Acquire lk), a)]) @ (Network (ListRules grp n), Inr (RRules existing)) #
      es1 @ [(Memory (Release lk), b)]" by simp
  with loop show thesis by (rule that [rotated])
qed

text \<open>
  C14: When rules were created on a security group, then after the last listing of its rules the
  rules put on it are, up to repeated attempts, one for each given rule data, in order, built
  from it and its priority; the priorities are at least the start, at least five apart and
  increasing, and none is the priority of a listed rule.
\<close>

theorem rules_created:
  assumes "retry_law E"
    and "exec (create_network_security_group_rules E grp n rds dest lk start src) es (Ok r)"
  shows "\<exists>es0 es1 existing rules.
    es = es0 @ (Network (ListRules grp n), Inr (RRules existing)) # es1 \<and>
    remdups_adj (filter is_put_rule (map fst es1)) =
      map (\<lambda>rule. Network (PutRule grp n (sr_name rule) rule)) rules \<and>
    length rules = length rds \<and> rules_for dest src rds (map sr_priority rules) rules \<and>
    sorted_wrt (\<lambda>a b. a + 5 \<le> b) (map sr_priority rules) \<and>
    list_all (\<lambda>p. start_priority start \<le> p \<and> p \<notin> set (map sr_priority existing)) (map sr_priority rules)"
proof -
  obtain es0 existing es1 b u where
      es: "es = es0 @ (Network (ListRules grp n), Inr (RRules existing)) # es1 @ [(Memory (Release lk), b)]"
      and loop: "exec (create_rules E grp n dest src (rule_priority_generator (map sr_priority existing) start) rds) es1 (Ok u)"
    by (rule exec_create_network_security_group_rules_Ok [OF assms])
  from wpD [OF wp_create_rules [OF assms(1), where s = "[]"] loop] obtain ps h rules ks where
      draw: "draw generator_next (length rds) (rule_priority_generator (map sr_priority existing) start) = Inr (ps, h)"
      and rules: "rules_for dest src rds ps rules" "length rules = length rds" "length ks = length rules"
      and puts: "filter is_put_rule (map fst es1) =
        concat (map2 (\<lambda>k q. replicate (Suc k) q) ks (map (put_rule grp n) rules))"
    by (auto simp: track_recorder puts_drawn_def)
  from priorities_drawn [of "length rds" "map sr_priority existing" start] draw have ps:
      "length ps = length rds" "sorted_wrt (\<lambda>a b. a + 5 \<le> b) ps"
      "list_all (\<lambda>p. start_priority start \<le> p \<and> p \<notin> set (map sr_priority existing)) ps"
    by auto
  have prio: "map sr_priority rules = ps"
    using rules(1) ps(1) by (rule rules_for_priorities)
  with ps(2) have "remdups_adj (filter is_put_rule (map fst (es1 @ [(Memory (Release lk), b)]))) =
      map (put_rule grp n) rules"
    using remdups_adj_runs [of ks "map (put_rule grp n) rules"] distinct_by_priority [of rules grp n] rules(3) puts prio
    by (simp del: replicate_Suc)
  with es rules(1,2) ps prio show ?thesis by blast
qed

definition sample_create_run :: "event list" where
  "sample_create_run = (let rule = sample_rule ''rule_1010'' 1010 in
    [(Memory (Acquire SubnetLocker), Inr RNone),
     (Network (ListRules ''rg'' ''NSG_a''), Inr (RRules [sample_rule ''r1'' 1000, sample_rule ''r2'' 1005])),
     (Network (PutRule ''rg'' ''NSG_a'' ''rule_1010'' rule), Inl (ClientRequestError [])),
     (Network (PutRule ''rg'' ''NSG_a'' ''rule_1010'' rule), Inr (RPoller 0)),
     (Poller (PollResult 0), Inr (RRule rule)),
     (Memory (Release SubnetLocker), Inr RNone)])"

definition sample_rule_data :: inbound_rule where
  "sample_rule_data =
     ARule (rule_data_init (Proto ''tcp'') (Some ''80'') None None AccessAllow None)"

lemma sample_create_exec:
  "exec (create_network_security_group_rules sample_env ''rg'' ''NSG_a'' [sample_rule_data]
     ''10.0.0.4'' SubnetLocker None InternetHop) sample_create_run (Ok RNone)"
  by (rule exec_replay [where vs = "map snd sample_create_run"]) code_simp

theorem rules_created_witness:
  "\<exists>es0 es1 existing rules.
    sample_create_run = es0 @ (Network (ListRules ''rg'' ''NSG_a''), Inr (RRules existing)) # es1 \<and>
    remdups_adj (filter is_put_rule (map fst es1)) =
      map (\<lambda>rule. Network (PutRule ''rg'' ''NSG_a'' (sr_name rule) rule)) rules \<and>
    length rules = length [sample_rule_data] \<and>
    rules_for ''10.0.0.4'' InternetHop [sample_rule_data] (map sr_priority rules) rules \<and>
    sorted_wrt (\<lambda>a b. a + 5 \<le> b) (map sr_priority rules) \<and>
    list_all (\<lambda>p. start_priority None \<le> p \<and> p \<notin> set (map sr_priority existing)) (map sr_priority rules)"
  by (rule rules_created [OF sample_env_law sample_create_exec])

end
