(* ===== verification/VmService.thy ===== *)
theory VmService
  imports Networks
begin

text \<open>
  \<^verbatim>\<open>domain/services/task_waiter.py\<close>, \<^verbatim>\<open>domain/services/virtual_machine_service.py\<close> and
  \<^verbatim>\<open>domain/services/image_data.py\<close>: waiting for a long running operation, and the operations on
  virtual machines, resource groups, images and disks.
\<close>

section \<open>TaskWaiterService\<close>

text \<open>
  \<^verbatim>\<open>while not poller.done(): ...\<close>; the number bounds the rounds that are followed. \<open>logged\<close> says
  whether a logger was given, in which case the status is read.
\<close>

fun wait_until_ready :: "nat \<Rightarrow> nat \<Rightarrow> nat \<Rightarrow> bool \<Rightarrow> unit prog" where
  "wait_until_ready n operation_poller wait_time logged =
     bnd (call (Poller (PollDone operation_poller))) (\<lambda>r. bnd (expect as_bool r) (\<lambda>ready.
       only_if (\<not> ready) (case n of
         0 \<Rightarrow> Diverge
       | Suc m \<Rightarrow>
           thn (only_if logged (thn (call (Poller (PollStatus operation_poller))) (Return ())))
           (thn check_if_cancelled
           (thn (signal (Runtime (Sleep wait_time)))
           (wait_until_ready m operation_poller wait_time logged))))))"

declare wait_until_ready.simps [simp del]

definition wait_for_task :: "env \<Rightarrow> nat \<Rightarrow> nat \<Rightarrow> bool \<Rightarrow> resp prog" where
  "wait_for_task E operation_poller wait_time logged =
     thn (wait_until_ready (loop_bound E) operation_poller wait_time logged)
       (call (Poller (PollResult operation_poller)))"

definition now :: "int prog" where
  "now = bnd (call (Runtime Now)) (expect as_int)"

definition is_ready :: "nat \<Rightarrow> bool prog" where
  "is_ready operation_poller = bnd (call (Poller (PollDone operation_poller))) (expect as_bool)"

text \<open>The loop until the operation is ready or the time is up; the result is the last time read.\<close>

fun wait_until_ready_or_late :: "nat \<Rightarrow> nat \<Rightarrow> nat \<Rightarrow> int \<Rightarrow> int \<Rightarrow> bool \<Rightarrow> int prog" where
  "wait_until_ready_or_late n operation_poller wait_time next_time datetime_now logged =
     bnd (is_ready operation_poller) (\<lambda>ready.
       if \<not> ready \<and> datetime_now < next_time then (case n of
           0 \<Rightarrow> Diverge
         | Suc m \<Rightarrow>
             thn check_if_cancelled
             (thn (only_if logged (thn (call (Poller (PollStatus operation_poller))) (Return ())))
             (thn (signal (Runtime (Sleep wait_time)))
             (bnd now (\<lambda>datetime_now.
              wait_until_ready_or_late m operation_poller wait_time next_time datetime_now logged)))))
       else Return datetime_now)"

declare wait_until_ready_or_late.simps [simp del]

definition wait_for_task_with_timeout :: "env \<Rightarrow> nat \<Rightarrow> nat \<Rightarrow> int \<Rightarrow> bool \<Rightarrow> resp prog" where
  "wait_for_task_with_timeout E operation_poller wait_time timeout logged =
     bnd now (\<lambda>datetime_now. (let next_time = datetime_now + timeout in
     bnd (wait_until_ready_or_late (loop_bound E) operation_poller wait_time next_time
       datetime_now logged) (\<lambda>datetime_now.
     bnd (is_ready operation_poller) (\<lambda>ready.
     if \<not> ready \<and> next_time < datetime_now
     then thn (only_if logged (thn (call (Poller (PollStatus operation_poller))) (Return ())))
       (Raise QualiTimeoutException)
     else call (Poller (PollResult operation_poller))))))"

section \<open>VirtualMachineService\<close>

definition get_vm :: "env \<Rightarrow> string \<Rightarrow> string \<Rightarrow> resp prog" where
  "get_vm E group_name name = retried E (call (Compute (GetVm group_name name)))"

definition get_active_vm :: "env \<Rightarrow> string \<Rightarrow> string \<Rightarrow> vm prog" where
  "get_active_vm E group_name name =
     bnd (get_vm E group_name name) (\<lambda>r. bnd (expect as_vm r) (\<lambda>machine.
       if vm_provisioning_state machine \<noteq> ''Succeeded''
       then Raise (PyException
         (''Can'' @ [CHR 0x27] @ ''t perform action. Azure instance is not in active state''))
       else Return machine))"

text \<open>The disk of a new vm: its size and the storage type.\<close>

definition get_storage_type :: "string \<Rightarrow> storage_type option" where
  "get_storage_type disk_type =
     (let t = py_strip (py_upper disk_type)
      in if t = ''HDD'' then Some StandardLRS else if t = ''SSD'' then Some PremiumLRS else None)"

definition prepare_os_disk :: "string \<Rightarrow> string \<Rightarrow> exn + (int option \<times> storage_type option)" where
  "prepare_os_disk disk_type disk_size =
     (if py_isdigit disk_size
      then (let disk_size_num = int (digits_value disk_size)
        in if 1023 < disk_size_num
           then Inl (PyException ''Disk size cannot be larger than 1023 GB'')
           else Inr (Some disk_size_num, get_storage_type disk_type))
      else Inr (None, get_storage_type disk_type))"

text \<open>The references of the NICs: the first one is the primary one.\<close>

definition prepare_network_interfaces :: "nic list \<Rightarrow> exn + nic_ref list" where
  "prepare_network_interfaces nics =
     (case map (\<lambda>n. \<lparr>nr_id = nic_id n, nr_primary = False\<rparr>) nics of
        [] \<Rightarrow> Inl IndexError
      | r # rs \<Rightarrow> Inr (r\<lparr>nr_primary := True\<rparr> # rs))"

definition create_vm :: "env \<Rightarrow> string \<Rightarrow> string \<Rightarrow> vm_parameters \<Rightarrow> bool \<Rightarrow> resp prog" where
  "create_vm E group_name name virtual_machine logged =
     retried E (retried_on_retryable E (
       bnd (call (Compute (PutVm group_name name virtual_machine))) (\<lambda>r.
       bnd (expect as_poller r) (\<lambda>operation_poller.
       wait_for_task E operation_poller 30 logged))))"

definition prepare_image_os_type :: "string \<Rightarrow> os_type" where
  "prepare_image_os_type image_os_type =
     (if py_lower image_os_type = ''linux'' then Linux else Windows)"

definition vm_parameters_of ::
  "string \<Rightarrow> dict \<Rightarrow> vm_credentials \<Rightarrow> string \<Rightarrow> string \<Rightarrow> nic_ref list \<Rightarrow>
     int option \<times> storage_type option \<Rightarrow> image_source \<Rightarrow> plan option \<Rightarrow> vm_parameters"
where
  "vm_parameters_of region tags creds computer_name machine_size nics disk img vm_plan =
     \<lparr>vp_location = region, vp_tags = tags, vp_admin_username = vc_admin_username creds,
      vp_admin_password = vc_admin_password creds, vp_linux_key = vc_ssh_key creds,
      vp_computer_name = computer_name, vp_vm_size = machine_size, vp_network_interfaces = nics,
      vp_disk_size_gb = fst disk, vp_storage_account_type = snd disk, vp_image = img,
      vp_plan = vm_plan\<rparr>"

definition create_vm_from_custom_image ::
  "env \<Rightarrow> string \<Rightarrow> string \<Rightarrow> string \<Rightarrow> vm_credentials \<Rightarrow> string \<Rightarrow> string \<Rightarrow> nic list \<Rightarrow> string \<Rightarrow>
     string \<Rightarrow> dict \<Rightarrow> string \<Rightarrow> string \<Rightarrow> resp prog"
where
  "create_vm_from_custom_image E image_name image_resource_group disk_type creds computer_name
     group_name nics region name tags machine_size disk_size =
   (case prepare_network_interfaces nics of
      Inl e \<Rightarrow> Raise e
    | Inr network_interfaces \<Rightarrow>
        bnd (call (Compute (GetImage image_resource_group image_name))) (\<lambda>r.
        bnd (expect as_image r) (\<lambda>(image_id, _).
        case prepare_os_disk disk_type disk_size of
          Inl e \<Rightarrow> Raise e
        | Inr disk \<Rightarrow> create_vm E group_name name (vm_parameters_of region tags creds
            computer_name machine_size network_interfaces disk (CustomImage image_id) None) True)))"

definition create_vm_from_marketplace ::
  "env \<Rightarrow> string \<Rightarrow> string \<Rightarrow> string \<Rightarrow> string \<Rightarrow> string \<Rightarrow> vm_credentials \<Rightarrow> string \<Rightarrow> string \<Rightarrow>
     nic list \<Rightarrow> string \<Rightarrow> string \<Rightarrow> dict \<Rightarrow> string \<Rightarrow> plan option \<Rightarrow> string \<Rightarrow> resp prog"
where
  "create_vm_from_marketplace E image_offer image_publisher image_sku image_version disk_type creds
     computer_name group_name nics region name tags machine_size purchase_plan disk_size =
   (case prepare_network_interfaces nics of
      Inl e \<Rightarrow> Raise e
    | Inr network_interfaces \<Rightarrow>
        (case prepare_os_disk disk_type disk_size of
          Inl e \<Rightarrow> Raise e
        | Inr disk \<Rightarrow> create_vm E group_name name (vm_parameters_of region tags creds
            computer_name machine_size network_interfaces disk
            (MarketplaceImage image_publisher image_offer image_sku image_version)
            purchase_plan) False))"

definition create_resource_group :: "env \<Rightarrow> string \<Rightarrow> string \<Rightarrow> dict \<Rightarrow> resp prog" where
  "create_resource_group E group_name region tags =
     retried E (call (Resource (PutResourceGroup group_name region tags)))"

definition get_resource_group :: "env \<Rightarrow> string \<Rightarrow> resp prog" where
  "get_resource_group E group_name = retried E (call (Resource (GetResourceGroup group_name)))"

definition delete_resource_group :: "env \<Rightarrow> string \<Rightarrow> resp prog" where
  "delete_resource_group E group_name =
     retried E (no_result (poll_wait (call (Resource (DeleteResourceGroup group_name)))))"

definition delete_vm :: "env \<Rightarrow> string \<Rightarrow> string \<Rightarrow> resp prog" where
  "delete_vm E group_name name =
     retried E (no_result (poll_wait (call (Compute (DeleteVm group_name name)))))"

definition start_vm :: "env \<Rightarrow> string \<Rightarrow> string \<Rightarrow> bool \<Rightarrow> resp prog" where
  "start_vm E group_name name async =
     retried E (bnd (call (Compute (StartVm group_name name))) (\<lambda>r.
       if async then Return RNone
       else bnd (expect as_poller r) (\<lambda>n. call (Poller (PollResult n)))))"

definition stop_vm :: "env \<Rightarrow> string \<Rightarrow> string \<Rightarrow> bool \<Rightarrow> resp prog" where
  "stop_vm E group_name name async =
     retried E (bnd (call (Compute (DeallocateVm group_name name))) (\<lambda>r.
       if async then Return RNone
       else no_result (bnd (expect as_poller r) (\<lambda>n. call (Poller (PollWait n))))))"

definition get_virtual_machine_image ::
  "env \<Rightarrow> string \<Rightarrow> string \<Rightarrow> string \<Rightarrow> string \<Rightarrow> resp prog"
where
  "get_virtual_machine_image E location publisher_name offer skus =
     retried E (bnd (call (Compute (ListVmImages location publisher_name offer skus))) (\<lambda>r.
       bnd (expect as_strs r) (\<lambda>versions.
       if versions = [] then Raise IndexError
       else call (Compute (GetVmImage location publisher_name offer skus (last versions))))))"

definition list_virtual_machine_sizes :: "env \<Rightarrow> string \<Rightarrow> resp prog" where
  "list_virtual_machine_sizes E location = retried E (call (Compute (ListVmSizes location)))"

definition delete_managed_disk :: "env \<Rightarrow> string \<Rightarrow> string \<Rightarrow> resp prog" where
  "delete_managed_disk E resource_group disk_name =
     retried E (poll_result (call (Compute (DeleteDisk resource_group disk_name))))"

section \<open>The image of a deployment\<close>

text \<open>\<^verbatim>\<open>models/image_data.py\<close>\<close>

datatype image_data =
    MarketplaceImageData os_type "plan option"
  | CustomImageData string os_type

fun image_os_type :: "image_data \<Rightarrow> os_type" where
  "image_os_type (MarketplaceImageData t _) = t"
| "image_os_type (CustomImageData _ t) = t"

text \<open>The image part of the deployment models: custom image, marketplace image, or another class.\<close>

datatype deployment_image =
    FromCustomImage string string  \<comment> \<open>image name and resource group\<close>
  | FromMarketplace string string string string  \<comment> \<open>publisher, offer, sku, version\<close>
  | FromElsewhere

fun get_image_data_model :: "env \<Rightarrow> string \<Rightarrow> deployment_image \<Rightarrow> image_data prog" where
  "get_image_data_model E region (FromCustomImage image_name image_resource_group) =
     bnd (call (Compute (GetImage image_resource_group image_name))) (\<lambda>r.
     bnd (expect as_image r) (\<lambda>(i, t). Return (CustomImageData i t)))"
| "get_image_data_model E region (FromMarketplace publisher offer sku version) =
     bnd (get_virtual_machine_image E region publisher offer sku) (\<lambda>r.
     bnd (expect as_vm_image r) (\<lambda>(t, p). Return (MarketplaceImageData t p)))"
| "get_image_data_model E region FromElsewhere =
     Raise (PyException ''Unsupported deployment_model type'')"

section \<open>Which calls the methods make\<close>

lemma emits_wait_until_ready:
  assumes "\<And>v. P (Poller (PollDone p), v)" "\<And>v. P (Poller (PollStatus p), v)"
    "\<And>v. P (Runtime IsCancelled, v)" "\<And>v. P (Runtime (Sleep w), v)"
  shows "emits P (wait_until_ready n p w logged)"
  by (induction n) (subst wait_until_ready.simps, auto intro!: emits_intros assms)+

lemma emits_wait_for_task [emits_intros]:
  assumes "\<And>q v. P (Poller q, v)" "\<And>v. P (Runtime IsCancelled, v)" "\<And>v. P (Runtime (Sleep w), v)"
  shows "emits P (wait_for_task E p w logged)"
  unfolding wait_for_task_def by (auto intro!: emits_intros emits_wait_until_ready assms)

lemma emits_now [emits_intros]: "(\<And>v. P (Runtime Now, v)) \<Longrightarrow> emits P now"
  unfolding now_def by (auto intro!: emits_intros)

lemma emits_is_ready [emits_intros]: "(\<And>v. P (Poller (PollDone p), v)) \<Longrightarrow> emits P (is_ready p)"
  unfolding is_ready_def by (auto intro!: emits_intros)

lemma emits_wait_until_ready_or_late:
  assumes "\<And>q v. P (Poller q, v)" "\<And>v. P (Runtime IsCancelled, v)" "\<And>v. P (Runtime (Sleep w), v)"
    "\<And>v. P (Runtime Now, v)"
  shows "emits P (wait_until_ready_or_late n p w t0 t logged)"
  by (induction n arbitrary: t)
    (subst wait_until_ready_or_late.simps, auto intro!: emits_intros assms split: if_splits)+

lemma emits_wait_for_task_with_timeout [emits_intros]:
  assumes "\<And>q v. P (Poller q, v)" "\<And>v. P (Runtime IsCancelled, v)" "\<And>v. P (Runtime (Sleep w), v)"
    "\<And>v. P (Runtime Now, v)"
  shows "emits P (wait_for_task_with_timeout E p w timeout logged)"
  unfolding wait_for_task_with_timeout_def Let_def
  by (auto intro!: emits_intros emits_wait_until_ready_or_late assms split: if_splits)

lemma emits_create_vm:
  assumes "retry_law E" "\<And>v. P (Compute (PutVm g n params), v)"
    "\<And>q v. P (Poller q, v)" "\<And>v. P (Runtime IsCancelled, v)" "\<And>v. P (Runtime (Sleep 30), v)"
  shows "emits P (create_vm E g n params logged)"
  unfolding create_vm_def by (auto intro!: emits_intros retried_intros assms)

lemma emits_create_vm_from_custom_image:
  assumes "retry_law E" "\<And>q v. P (Compute q, v)" "\<And>q v. P (Poller q, v)" "\<And>q v. P (Runtime q, v)"
  shows "emits P (create_vm_from_custom_image E img rg dt creds cn g nics region n tags ms ds)"
  unfolding create_vm_from_custom_image_def
  by (auto intro!: emits_intros emits_create_vm assms split: sum.splits)

lemma emits_create_vm_from_marketplace:
  assumes "retry_law E" "\<And>q v. P (Compute q, v)" "\<And>q v. P (Poller q, v)" "\<And>q v. P (Runtime q, v)"
  shows "emits P (create_vm_from_marketplace E o1 pu sku ver dt creds cn g nics region n tags ms plan ds)"
  unfolding create_vm_from_marketplace_def
  by (auto intro!: emits_intros emits_create_vm assms split: sum.splits)

lemma emits_get_vm:
  assumes "retry_law E" "\<And>v. P (Compute (GetVm g n), v)"
  shows "emits P (get_vm E g n)"
  unfolding get_vm_def by (auto intro!: emits_intros retried_intros assms)

lemma emits_delete_vm:
  assumes "retry_law E" "\<And>v. P (Compute (DeleteVm g n), v)" "\<And>i v. P (Poller (PollWait i), v)"
  shows "emits P (delete_vm E g n)"
  unfolding delete_vm_def by (auto intro!: emits_intros retried_intros assms)

lemma emits_delete_managed_disk:
  assumes "retry_law E" "\<And>v. P (Compute (DeleteDisk g n), v)" "\<And>i v. P (Poller (PollResult i), v)"
  shows "emits P (delete_managed_disk E g n)"
  unfolding delete_managed_disk_def by (auto intro!: emits_intros retried_intros assms)

lemma emits_resource_group:
  assumes "retry_law E"
  shows "(\<And>v. P (Resource (PutResourceGroup g r t), v)) \<Longrightarrow> emits P (create_resource_group E g r t)"
    "(\<And>v. P (Resource (DeleteResourceGroup g), v)) \<Longrightarrow> (\<And>i v. P (Poller (PollWait i), v)) \<Longrightarrow>
       emits P (VmService.delete_resource_group E g)"
  unfolding create_resource_group_def delete_resource_group_def
  by (auto intro!: emits_intros retried_intros assms)

lemma emits_get_image_data_model:
  assumes "retry_law E" "\<And>q v. P (Compute q, v)"
  shows "emits P (get_image_data_model E region d)"
  by (cases d) (auto simp: get_virtual_machine_image_def intro!: emits_intros retried_intros assms)

lemma halts_vm_service [halts_intros]:
  assumes "retry_law E"
  shows "halts (get_vm E g n)" "halts (delete_vm E g n)" "halts (delete_managed_disk E g n)"
    "halts (create_resource_group E g r t)" "halts (delete_resource_group E g)"
    "halts (get_image_data_model E region d)"
proof -
  show "halts (get_vm E g n)" "halts (delete_vm E g n)" "halts (delete_managed_disk E g n)"
    "halts (create_resource_group E g r t)" "halts (delete_resource_group E g)"
    unfolding get_vm_def delete_vm_def delete_managed_disk_def create_resource_group_def delete_resource_group_def
    by (auto intro!: halts_intros retried_intros assms)
  show "halts (get_image_data_model E region d)"
    by (cases d) (auto simp: get_virtual_machine_image_def intro!: halts_intros retried_intros assms)
qed

section \<open>Waiting for an operation\<close>

abbreviation not_ready :: "nat \<Rightarrow> event" where
  "not_ready p \<equiv> (Poller (PollDone p), Inr (RBool False))"

abbreviation cancelled :: event where
  "cancelled \<equiv> (Runtime IsCancelled, Inr (RBool True))"

text \<open>The monitor that keeps the whole run.\<close>

definition tape :: "event list monitor" where
  "tape s ev = Some (s @ [ev])"

lemma track_tape: "track tape s es = Some (s @ es)"
  by (induction es arbitrary: s) (auto simp: tape_def)

lemma allowed_tape [wp_simps]: "allowed tape s ev K \<longleftrightarrow> K (s @ [ev])"
  by (simp add: allowed_def tape_def)

lemma as_bool_Some: "as_bool r = Some b \<longleftrightarrow> r = RBool b"
  by (cases r) auto

lemma wp_tape_check:
  assumes "N () (s @ [(Runtime IsCancelled, Inr (RBool False))])" "\<And>e t. X e t"
  shows "wp tape check_if_cancelled N X D s"
  using assms by (auto simp: check_if_cancelled_def wp_simps as_bool_Some split: option.splits)

lemma wp_wait_until_ready:
  "wp tape (wait_until_ready m p w logged)
     (\<lambda>_ t. \<exists>es0. t = s @ es0 @ [(Poller (PollDone p), Inr (RBool True))] \<and> cancelled \<notin> set es0 \<and>
        length (filter (\<lambda>ev. ev = not_ready p) es0) \<le> m)
     (\<lambda>_ _. True) (\<lambda>t. \<exists>es. t = s @ es \<and> length (filter (\<lambda>ev. ev = not_ready p) es) = Suc m) s"
proof (induction m arbitrary: s)
  case 0
  show ?case
    by (subst wait_until_ready.simps) (auto simp: wp_simps as_bool_Some split: option.splits)
next
  case (Suc m)
  let ?N = "\<lambda>_ t. \<exists>es0. t = s @ es0 @ [(Poller (PollDone p), Inr (RBool True))] \<and> cancelled \<notin> set es0 \<and>
        length (filter (\<lambda>ev. ev = not_ready p) es0) \<le> Suc m"
  let ?D = "\<lambda>t. \<exists>es. t = s @ es \<and> length (filter (\<lambda>ev. ev = not_ready p) es) = Suc (Suc m)"
  let ?rest = "wait_until_ready m p w logged"
  have rest: "wp tape ?rest ?N (\<lambda>_ _. True) ?D (s @ es)"
    if "length (filter (\<lambda>ev. ev = not_ready p) es) = 1" "cancelled \<notin> set es" for es
  proof (rule wp_mono [OF Suc.IH [of "s @ es"]])
    fix t assume "\<exists>es0. t = (s @ es) @ es0 @ [(Poller (PollDone p), Inr (RBool True))] \<and>
        cancelled \<notin> set es0 \<and> length (filter (\<lambda>ev. ev = not_ready p) es0) \<le> m"
    then obtain es0 where "t = (s @ es) @ es0 @ [(Poller (PollDone p), Inr (RBool True))]"
        "cancelled \<notin> set es0" "length (filter (\<lambda>ev. ev = not_ready p) es0) \<le> m" by blast
    with that show "?N x t" for x by (intro exI [of _ "es @ es0"]) simp
  next
    fix t assume "\<exists>es'. t = (s @ es) @ es' \<and> length (filter (\<lambda>ev. ev = not_ready p) es') = Suc m"
    then obtain es' where "t = (s @ es) @ es'" "length (filter (\<lambda>ev. ev = not_ready p) es') = Suc m"
      by blast
    with that show "?D t" by (intro exI [of _ "es @ es'"]) simp
  qed simp
  have tail: "wp tape (thn check_if_cancelled (thn (signal (Runtime (Sleep w))) ?rest)) ?N (\<lambda>_ _. True) ?D (s @ es)"
    if "length (filter (\<lambda>ev. ev = not_ready p) es) = 1" "cancelled \<notin> set es" for es
    unfolding wp_bnd
      using that rest [of "es @ [(Runtime IsCancelled, Inr (RBool False)), (Runtime (Sleep w), v)]" for v]
    by (intro wp_tape_check) (simp_all add: wp_simps)
  show ?case
    using tail [of "[not_ready p]"] tail [of "[not_ready p, _]"]
    by (subst wait_until_ready.simps)
      (auto simp: wp_simps as_bool_Some split: option.splits)
qed

text \<open>
  C20: Waiting for an operation returns the result that was read right after the operation was
  found ready, after at most as many rounds as are followed and with no cancellation seen; it
  goes on forever only if the operation was found not ready in every one of these rounds.
\<close>

theorem wait_for_task_outcome:
  assumes "exec (wait_for_task E p w logged) es out"
  shows "case out of
      Ok r \<Rightarrow> \<exists>es0. es = es0 @ [(Poller (PollDone p), Inr (RBool True)), (Poller (PollResult p), Inr r)] \<and>
        cancelled \<notin> set es0 \<and> length (filter (\<lambda>ev. ev = not_ready p) es0) \<le> loop_bound E
    | Err e \<Rightarrow> True
    | Hang \<Rightarrow> length (filter (\<lambda>ev. ev = not_ready p) es) = Suc (loop_bound E)"
proof -
  have "wp tape (wait_for_task E p w logged)
     (\<lambda>r t. \<exists>es0. t = es0 @ [(Poller (PollDone p), Inr (RBool True)), (Poller (PollResult p), Inr r)] \<and>
        cancelled \<notin> set es0 \<and> length (filter (\<lambda>ev. ev = not_ready p) es0) \<le> loop_bound E)
     (\<lambda>_ _. True) (\<lambda>t. length (filter (\<lambda>ev. ev = not_ready p) t) = Suc (loop_bound E)) []"
    unfolding wait_for_task_def wp_bnd
    by (rule wp_mono [OF wp_wait_until_ready]) (auto simp: wp_simps)
  from wpD [OF this assms] show ?thesis
    by (cases out) (auto simp: track_tape)
qed

lemma wait_sample_run:
  "exec (wait_for_task sample_env 7 30 False)
     [(Poller (PollDone 7), Inr (RBool False)), (Runtime IsCancelled, Inr (RBool False)),
      (Runtime (Sleep 30), Inr RNone), (Poller (PollDone 7), Inr (RBool True)),
      (Poller (PollResult 7), Inr (RStr ''id''))] (Ok (RStr ''id''))"
  by (rule exec_replay [where vs = "[Inr (RBool False), Inr (RBool False), Inr RNone,
      Inr (RBool True), Inr (RStr ''id'')]"]) code_simp

theorem wait_for_task_outcome_witness:
  "case Ok (RStr ''id'') of
      Ok r \<Rightarrow> \<exists>es0. [(Poller (PollDone 7), Inr (RBool False)), (Runtime IsCancelled, Inr (RBool False)),
          (Runtime (Sleep 30), Inr RNone), (Poller (PollDone 7), Inr (RBool True)),
          (Poller (PollResult 7), Inr (RStr ''id''))] =
        es0 @ [(Poller (PollDone 7), Inr (RBool True)), (Poller (PollResult 7), Inr r)] \<and>
        cancelled \<notin> set es0 \<and> length (filter (\<lambda>ev. ev = not_ready 7) es0) \<le> loop_bound sample_env
    | Err e \<Rightarrow> True
    | Hang \<Rightarrow> False"
  using wait_for_task_outcome [OF wait_sample_run] by simp

section \<open>The machines that are requested\<close>

definition valid_vm_request :: "vm_parameters \<Rightarrow> bool" where
  "valid_vm_request ps \<longleftrightarrow>
     (case vp_disk_size_gb ps of None \<Rightarrow> True | Some gb \<Rightarrow> 0 \<le> gb \<and> gb \<le> 1023) \<and>
     map nr_primary (vp_network_interfaces ps) =
       True # replicate (length (vp_network_interfaces ps) - 1) False"

fun vm_request_ok :: "event \<Rightarrow> bool" where
  "vm_request_ok (Compute (PutVm _ _ ps), _) \<longleftrightarrow> valid_vm_request ps"
| "vm_request_ok _ \<longleftrightarrow> True"

lemma prepare_os_disk_size:
  "prepare_os_disk dt ds = Inr disk \<Longrightarrow>
     (case fst disk of None \<Rightarrow> True | Some gb \<Rightarrow> 0 \<le> gb \<and> gb \<le> 1023)"
  by (auto simp: prepare_os_disk_def Let_def split: if_splits)

lemma prepare_network_interfaces_primary:
  "prepare_network_interfaces nics = Inr refs \<Longrightarrow>
     map nr_primary refs = True # replicate (length refs - 1) False \<and> map nr_id refs = map nic_id nics"
  by (cases nics) (auto simp: prepare_network_interfaces_def map_replicate_const comp_def)

lemma valid_vm_parameters_of:
  assumes "prepare_network_interfaces nics = Inr refs" "prepare_os_disk dt ds = Inr disk"
  shows "valid_vm_request (vm_parameters_of region tags creds cn ms refs disk img plan)"
  using prepare_os_disk_size [OF assms(2)] prepare_network_interfaces_primary [OF assms(1)]
  by (simp add: valid_vm_request_def vm_parameters_of_def)

text \<open>
  C21: Every virtual machine that is requested, from a custom image or from the marketplace, has a
  disk of at most 1023 GB (or of the default size) and exactly one primary network interface, the
  first one.
\<close>

theorem vm_requests_valid:
  assumes "retry_law E"
    and "p \<in> {create_vm_from_custom_image E img rg dt creds cn g nics region n tags ms ds,
      create_vm_from_marketplace E offer pu sku ver dt creds cn g nics region n tags ms plan ds}"
    and "exec p es out"
  shows "list_all vm_request_ok es"
proof -
  have other: "vm_request_ok (Poller q, v)" "vm_request_ok (Runtime q', v)"
      "vm_request_ok (Compute (GetImage a b), v)" for q q' v a b by simp_all
  have custom: "emits vm_request_ok (create_vm_from_custom_image E img rg dt creds cn g nics region n tags ms ds)"
    unfolding create_vm_from_custom_image_def
    by (auto intro!: emits_intros emits_create_vm assms(1) valid_vm_parameters_of split: sum.splits)
  have market: "emits vm_request_ok
      (create_vm_from_marketplace E offer pu sku ver dt creds cn g nics region n tags ms plan ds)"
    unfolding create_vm_from_marketplace_def
    by (auto intro!: emits_intros emits_create_vm assms(1) valid_vm_parameters_of split: sum.splits)
  from assms(2) custom market have "emits vm_request_ok p" by auto
  then show ?thesis using assms(3) by (rule emitsD)
qed

definition sample_creds :: vm_credentials where
  "sample_creds = \<lparr>vc_admin_username = ''adminuser'', vc_admin_password = Some ''pw'', vc_ssh_key = None\<rparr>"

definition sample_nic :: "string \<Rightarrow> nic" where
  "sample_nic n = \<lparr>nic_name = n, nic_id = ''/nics/'' @ n, nic_mac_address = ''m'',
     nic_resource_guid = ''g'', nic_primary = False, nic_ip_configurations = [],
     nic_network_security_group_id = ''nsg''\<rparr>"

definition sample_vm_program :: "resp prog" where
  "sample_vm_program = create_vm_from_marketplace sample_env ''o'' ''p'' ''s'' ''v'' ''SSD'' sample_creds
     ''vm1'' ''rg'' [sample_nic ''vm1-0'', sample_nic ''vm1-1''] ''westus'' ''vm1'' [] ''A1'' None ''1023''"

definition sample_vm_parameters :: vm_parameters where
  "sample_vm_parameters = vm_parameters_of ''westus'' [] sample_creds ''vm1'' ''A1''
     [\<lparr>nr_id = ''/nics/vm1-0'', nr_primary = True\<rparr>, \<lparr>nr_id = ''/nics/vm1-1'', nr_primary = False\<rparr>]
     (Some 1023, Some PremiumLRS) (MarketplaceImage ''p'' ''o'' ''s'' ''v'') None"

lemma sample_vm_run:
  "exec sample_vm_program
     [(Compute (PutVm ''rg'' ''vm1'' sample_vm_parameters), Inl (CloudError [] ''no quota'' []))]
     (Err (CloudError [] ''no quota'' []))"
  by (rule exec_replay [where vs = "[Inl (CloudError [] ''no quota'' [])]"]) code_simp

theorem vm_requests_valid_witness:
  "list_all vm_request_ok
     [(Compute (PutVm ''rg'' ''vm1'' sample_vm_parameters), Inl (CloudError [] ''no quota'' []))]"
  by (rule vm_requests_valid [OF sample_env_law _ sample_vm_run, where img = "[]" and rg = "[]"])
    (unfold sample_vm_program_def, rule insertI2, rule insertI1)

end
