(* ===== verification/Storage.thy ===== *)
theory Storage
  imports Networks
begin

text \<open>
  \<^verbatim>\<open>domain/services/storage_service.py\<close>: storage accounts, the caches of account keys and of file
  and blob services, files on a share, and the copying of a blob that several threads may want
  at the same time. The file and blob services of the SDK are handles (strings).
\<close>

section \<open>Storage accounts and their keys\<close>

definition create_storage_account ::
  "env \<Rightarrow> string \<Rightarrow> string \<Rightarrow> string \<Rightarrow> dict \<Rightarrow> bool \<Rightarrow> resp prog"
where
  "create_storage_account E group_name region storage_account_name tags wait_until_created =
     retried E (
       bnd (call (Storage (CreateStorageAccount group_name storage_account_name region tags))) (\<lambda>r.
       thn (only_if wait_until_created
         (bnd (expect as_poller r) (\<lambda>n. thn (call (Poller (PollWait n))) (Return ()))))
       (Return (RStr storage_account_name))))"

definition get_storage_per_resource_group :: "env \<Rightarrow> string \<Rightarrow> resp prog" where
  "get_storage_per_resource_group E group_name =
     retried E (call (Storage (ListStorageAccounts group_name)))"

text \<open>
  The lookup the caches share: read, and if there is nothing, take the lock, read again, make
  the value and store it. A write to a dictionary of the service cannot fail.
\<close>

definition cached_value :: "shared_dict \<Rightarrow> lock \<Rightarrow> string list \<Rightarrow> string prog \<Rightarrow> string prog" where
  "cached_value d l cached_key produce =
     bnd (bnd (call (Memory (DictFind d cached_key))) (expect (as_opt as_str))) (\<lambda>v. case v of
       Some x \<Rightarrow> Return x
     | None \<Rightarrow> with_lock l (
         bnd (bnd (call (Memory (DictFind d cached_key))) (expect (as_opt as_str))) (\<lambda>v. case v of
           Some x \<Rightarrow> Return x
         | None \<Rightarrow> bnd produce (\<lambda>x. thn (signal (Memory (DictPutStr d cached_key x))) (Return x)))))"

definition get_storage_account_key :: "env \<Rightarrow> string \<Rightarrow> string \<Rightarrow> resp prog" where
  "get_storage_account_key E group_name storage_name =
     retry_lib E 20 2000 retry_if_connection_error (
       bnd (cached_value CachedAccountKeys AccountKeysLock [group_name, storage_name] (
         bnd (call (Storage (ListStorageKeys group_name storage_name))) (\<lambda>r.
         bnd (expect as_strs r) first))) (\<lambda>k. Return (RStr k)))"

definition get_file_service :: "env \<Rightarrow> string \<Rightarrow> string \<Rightarrow> string prog" where
  "get_file_service E group_name storage_name =
     cached_value CachedFileServices FileServicesLock [group_name, storage_name] (
       bnd (bnd (get_storage_account_key E group_name storage_name) (expect as_str)) (\<lambda>account_key.
       bnd (call (Storage (NewFileService storage_name account_key))) (expect as_str)))"

definition get_blob_service :: "env \<Rightarrow> string \<Rightarrow> string \<Rightarrow> string prog" where
  "get_blob_service E group_name storage_name =
     cached_value CachedBlobServices BlobServicesLock [group_name, storage_name] (
       bnd (bnd (get_storage_account_key E group_name storage_name) (expect as_str)) (\<lambda>account_key.
       bnd (call (Storage (NewBlobService storage_name account_key))) (expect as_str)))"

section \<open>Files\<close>

definition get_file :: "env \<Rightarrow> string \<Rightarrow> string \<Rightarrow> string \<Rightarrow> string \<Rightarrow> string \<Rightarrow> resp prog" where
  "get_file E group_name storage_name share_name directory_name file_name =
     retried E (bnd (get_file_service E group_name storage_name) (\<lambda>file_service.
       call (Storage (GetFile file_service share_name directory_name file_name))))"

definition create_file ::
  "env \<Rightarrow> string \<Rightarrow> string \<Rightarrow> string \<Rightarrow> string \<Rightarrow> string \<Rightarrow> string \<Rightarrow> resp prog"
where
  "create_file E group_name storage_name share_name directory_name file_name file_content =
     retried E (no_result (bnd (get_file_service E group_name storage_name) (\<lambda>file_service.
       thn (call (Storage (CreateShare file_service share_name)))
       (call (Storage (CreateFile file_service share_name directory_name file_name file_content))))))"

section \<open>Blob addresses\<close>

text \<open>\<^verbatim>\<open>models/azure_blob_url.py\<close>\<close>

record azure_blob_url =
  bu_storage_name :: string
  bu_container_name :: string
  bu_blob_name :: string

text \<open>
  \<^verbatim>\<open>urlparse.urlparse\<close> of Python 2.7, the two parts the code reads: the network location and the
  path. The scheme ends at the first colon if only scheme characters stand before it, unless
  what follows looks like a port number; parameters are cut off the last segment of the path.
\<close>

definition is_scheme_char :: "char \<Rightarrow> bool" where
  "is_scheme_char c \<longleftrightarrow> is_alnum c \<or> c = CHR ''+'' \<or> c = CHR ''-'' \<or> c = CHR ''.''"

definition split_scheme :: "string \<Rightarrow> string \<times> string" where
  "split_scheme url =
     (let s = takeWhile (\<lambda>c. c \<noteq> CHR '':'') url; rest = drop (Suc (length s)) url
      in if length s < length url \<and> s \<noteq> [] \<and> list_all is_scheme_char s \<and>
           (s = ''http'' \<or> rest = [] \<or> \<not> list_all is_digit rest)
         then (py_lower s, rest) else ([], url))"

definition split_netloc :: "string \<Rightarrow> string \<times> string" where
  "split_netloc url =
     (if prefix ''//'' url
      then (let inside = (\<lambda>c. c \<noteq> CHR ''/'' \<and> c \<noteq> CHR ''?'' \<and> c \<noteq> CHR ''#'')
        in (takeWhile inside (drop 2 url), dropWhile inside (drop 2 url)))
      else ([], url))"

text \<open>The schemes whose paths carry parameters.\<close>

definition uses_params :: "string list" where
  "uses_params = [[], ''ftp'', ''hdl'', ''prospero'', ''http'', ''https'', ''shttp'', ''rtsp'',
     ''rtspu'', ''sip'', ''sips'', ''mms'', ''sftp'', ''tel'']"

definition cut_params :: "string \<Rightarrow> string" where
  "cut_params path =
     (let segment = last_part (CHR ''/'') path; dirs = take (length path - length segment) path
      in dirs @ takeWhile (\<lambda>c. c \<noteq> CHR '';'') segment)"

definition urlparse :: "string \<Rightarrow> exn + string \<times> string" where
  "urlparse url =
     (let (scheme, rest) = split_scheme url; (netloc, rest) = split_netloc rest
      in if (CHR ''['' \<in> set netloc) \<noteq> (CHR '']'' \<in> set netloc)
         then Inl (ValueError ''Invalid IPv6 URL'')
         else (let path = takeWhile (\<lambda>c. c \<noteq> CHR ''?'') (takeWhile (\<lambda>c. c \<noteq> CHR ''#'') rest)
           in Inr (netloc, if scheme \<in> set uses_params then cut_params path else path)))"

definition parse_blob_url :: "string \<Rightarrow> exn + azure_blob_url" where
  "parse_blob_url blob_url = (case urlparse blob_url of
     Inl e \<Rightarrow> Inl e
   | Inr (netloc, path) \<Rightarrow>
       (let splitted_path = py_split (CHR ''/'') path
        in if length splitted_path < 2 then Inl IndexError
           else Inr \<lparr>bu_storage_name = takeWhile (\<lambda>c. c \<noteq> CHR ''.'') netloc,
             bu_container_name = splitted_path ! (length splitted_path - 2),
             bu_blob_name = last splitted_path\<rparr>))"

section \<open>Copying blobs\<close>

fun is_cancellation :: "exn \<Rightarrow> bool" where
  "is_cancellation (CancellationException m) \<longleftrightarrow> True"
| "is_cancellation e \<longleftrightarrow> False"

fun wait_for_blob :: "nat \<Rightarrow> string \<Rightarrow> string \<Rightarrow> string \<Rightarrow> nat \<Rightarrow> unit prog" where
  "wait_for_blob n blob_service container_name blob_name sleep_time =
     bnd (bnd (call (Storage (GetBlobProperties blob_service container_name blob_name)))
       (expect as_blob)) (\<lambda>(status, copy_id).
     thn (catch check_if_cancelled (\<lambda>e.
       if is_cancellation e
       then thn (call (Storage (AbortCopyBlob blob_service container_name blob_name copy_id)))
         (Raise e)
       else Raise e))
     (if status = ''success'' then Return ()
      else if status = ''aborted'' \<or> status = ''failed''
      then bnd (bnd (call (Storage (MakeBlobUrl blob_service container_name blob_name None)))
        (expect as_str)) (\<lambda>blob_url.
        Raise (PyException (''Copying of file '' @ blob_url @ '' failed'')))
      else thn (signal (Runtime (Sleep sleep_time))) (case n of
          0 \<Rightarrow> Diverge
        | Suc m \<Rightarrow> wait_for_blob m blob_service container_name blob_name sleep_time)))"

declare wait_for_blob.simps [simp del]

definition wait_until_blob_copied :: "env \<Rightarrow> string \<Rightarrow> string \<Rightarrow> string \<Rightarrow> resp prog" where
  "wait_until_blob_copied E blob_service container_name blob_name =
     retried E (no_result (wait_for_blob (loop_bound E) blob_service container_name blob_name 10))"

definition SAS_TOKEN_EXPIRATION_DAYS :: int where "SAS_TOKEN_EXPIRATION_DAYS = 365"

definition make_blob_url :: "string \<Rightarrow> string \<Rightarrow> string \<Rightarrow> string option \<Rightarrow> string prog" where
  "make_blob_url service container_name blob_name sas_token =
     bnd (call (Storage (MakeBlobUrl service container_name blob_name sas_token))) (expect as_str)"

definition copy_blob_once ::
  "env \<Rightarrow> string \<Rightarrow> string \<Rightarrow> azure_blob_url \<Rightarrow> azure_blob_url \<Rightarrow> resp prog"
where
  "copy_blob_once E group_name_copy_from group_name_copy_to url_from url_to =
   retried E (
     bnd (get_blob_service E group_name_copy_from (bu_storage_name url_from)) (\<lambda>service_from.
     bnd (bnd (call (Runtime Now)) (expect as_int)) (\<lambda>datetime_now.
     bnd (bnd (call (Storage (GenerateSas service_from (bu_container_name url_from)
       (bu_blob_name url_from) (datetime_now + SAS_TOKEN_EXPIRATION_DAYS * 86400))))
       (expect as_str)) (\<lambda>sas_token.
     bnd (make_blob_url service_from (bu_container_name url_from) (bu_blob_name url_from)
       (Some sas_token)) (\<lambda>copy_source.
     bnd (get_blob_service E group_name_copy_to (bu_storage_name url_to)) (\<lambda>service_to.
     bnd (bnd (call (Storage (BlobExists service_to (bu_container_name url_to)
       (bu_blob_name url_to)))) (expect as_bool)) (\<lambda>present.
     thn (only_if (\<not> present)
       (thn (call (Storage (CreateContainer service_to (bu_container_name url_to))))
       (thn (call (Storage (StartCopyBlob service_to (bu_container_name url_to)
         (bu_blob_name url_to) copy_source)))
       (thn (wait_until_blob_copied E service_to (bu_container_name url_to) (bu_blob_name url_to))
       (Return ())))))
     (bnd (make_blob_url service_to (bu_container_name url_to) (bu_blob_name url_to) None)
       (\<lambda>u. Return (RStr u))))))))))"

text \<open>Under the lock: does this thread have to copy (first), or to wait for another one (second)?\<close>

definition claim_copy :: "string list \<Rightarrow> (bool \<times> bool) prog" where
  "claim_copy copied_blob_key =
     bnd (bnd (call (Memory (DictFind CachedCopiedBlobUrls copied_blob_key)))
       (expect (as_opt as_copied))) (\<lambda>copied_blob.
     if copied_blob = None \<or> copied_blob = Some CopyFailed
     then thn (signal (Memory (CopiedPut copied_blob_key CopyCopying))) (Return (True, False))
     else Return (False, copied_blob = Some CopyCopying))"

fun wait_for_other_copy :: "nat \<Rightarrow> string list \<Rightarrow> unit prog" where
  "wait_for_other_copy n copied_blob_key =
     thn check_if_cancelled
     (bnd (bnd (call (Memory (CopiedState copied_blob_key))) (expect as_copied)) (\<lambda>state.
      if state = CopySuccess then Return ()
      else if state = CopyFailed then Raise (PyException ''Blob copying was failed'')
      else thn (signal (Runtime (Sleep 1))) (case n of
          0 \<Rightarrow> Diverge
        | Suc m \<Rightarrow> wait_for_other_copy m copied_blob_key)))"

declare wait_for_other_copy.simps [simp del]

text \<open>The thread that copies: its entry of the dictionary exists, so the writes cannot fail.\<close>

definition copy_and_publish ::
  "env \<Rightarrow> string list \<Rightarrow> string \<Rightarrow> string \<Rightarrow> azure_blob_url \<Rightarrow> azure_blob_url \<Rightarrow> unit prog"
where
  "copy_and_publish E copied_blob_key group_name_copy_from group_name_copy_to url_from url_to =
     bnd (catch (bnd (copy_blob_once E group_name_copy_from group_name_copy_to url_from url_to)
         (expect as_str)) (\<lambda>e.
       thn (with_lock CopiedBlobUrlsLock
         (signal (Memory (CopiedSetState copied_blob_key CopyFailed)))) (Raise e))) (\<lambda>copied_blob_url.
     with_lock CopiedBlobUrlsLock
       (thn (signal (Memory (CopiedSetState copied_blob_key CopySuccess)))
        (signal (Memory (CopiedSetResult copied_blob_key copied_blob_url)))))"

definition is_copied :: "string list \<Rightarrow> bool prog" where
  "is_copied copied_blob_key =
     bnd (bnd (call (Memory (DictHas CachedCopiedBlobUrls copied_blob_key))) (expect as_bool)) (\<lambda>present.
     if present
     then bnd (bnd (call (Memory (CopiedState copied_blob_key))) (expect as_copied)) (\<lambda>state.
       Return (state = CopySuccess))
     else Return False)"

definition copy_blob ::
  "env \<Rightarrow> string \<Rightarrow> string \<Rightarrow> string \<Rightarrow> string \<Rightarrow> string \<Rightarrow> string \<Rightarrow> string option prog"
where
  "copy_blob E group_name_copy_to storage_name_copy_to container_name_copy_to blob_name_copy_to
     source_copy_from group_name_copy_from =
   (case parse_blob_url source_copy_from of Inl e \<Rightarrow> Raise e | Inr url_from \<Rightarrow>
   (let copied_blob_key = [storage_name_copy_to, container_name_copy_to, blob_name_copy_to] in
    bnd (is_copied copied_blob_key) (\<lambda>copied.
    thn (only_if (\<not> copied)
      (bnd (with_lock CopiedBlobUrlsLock (claim_copy copied_blob_key)) (\<lambda>(need_to_copy, need_to_wait).
       if need_to_wait then wait_for_other_copy (loop_bound E) copied_blob_key
       else only_if need_to_copy
         (copy_and_publish E copied_blob_key group_name_copy_from group_name_copy_to url_from
           \<lparr>bu_storage_name = storage_name_copy_to, bu_container_name = container_name_copy_to,
            bu_blob_name = blob_name_copy_to\<rparr>))))
    (bnd (call (Memory (CopiedResult copied_blob_key))) (expect (as_opt as_str))))))"

definition delete_blob :: "env \<Rightarrow> string \<Rightarrow> string \<Rightarrow> string \<Rightarrow> string \<Rightarrow> unit prog" where
  "delete_blob E group_name storage_name container_name blob_name =
     bnd (get_blob_service E group_name storage_name) (\<lambda>blob_service.
     thn (call (Storage (DeleteBlob blob_service container_name blob_name))) (Return ()))"

section \<open>The storage account of a sandbox\<close>

definition validate_single_storage_account :: "string list \<Rightarrow> exn + unit" where
  "validate_single_storage_account storage_accounts_list =
     (if length storage_accounts_list = 1 then Inr ()
      else Inl (ValidationError
        (''Sandbox Resource Group should contain only one storage account but found '' @
          nat_str (length storage_accounts_list) @ '' storage accounts'')))"

definition get_sandbox_storage_account_name :: "env \<Rightarrow> string \<Rightarrow> string prog" where
  "get_sandbox_storage_account_name E group_name =
     bnd (bnd (get_storage_per_resource_group E group_name) (expect as_strs)) (\<lambda>names.
     case validate_single_storage_account names of Inl e \<Rightarrow> Raise e | Inr _ \<Rightarrow> first names)"

section \<open>Which calls the methods make\<close>

text \<open>The locks and dictionaries of the caches.\<close>

definition is_cache_lock :: "lock \<Rightarrow> bool" where
  "is_cache_lock l \<longleftrightarrow>
     l \<in> {AccountKeysLock, FileServicesLock, BlobServicesLock, CopiedBlobUrlsLock, KeyPairLock}"

fun is_cache_access :: "memory_request \<Rightarrow> bool" where
  "is_cache_access (Acquire l) \<longleftrightarrow> is_cache_lock l"
| "is_cache_access (Release l) \<longleftrightarrow> is_cache_lock l"
| "is_cache_access (DictFind d k) \<longleftrightarrow> d \<noteq> LockDictionary"
| "is_cache_access (DictHas d k) \<longleftrightarrow> d \<noteq> LockDictionary"
| "is_cache_access (DictGet d k) \<longleftrightarrow> d \<noteq> LockDictionary"
| "is_cache_access (DictPutStr d k x) \<longleftrightarrow> d \<noteq> LockDictionary"
| "is_cache_access (DictPutKeys d k x) \<longleftrightarrow> d \<noteq> LockDictionary"
| "is_cache_access _ \<longleftrightarrow> False"

lemma is_cache_lock_simps [simp]:
  "is_cache_lock AccountKeysLock" "is_cache_lock FileServicesLock" "is_cache_lock BlobServicesLock"
  "is_cache_lock CopiedBlobUrlsLock" "is_cache_lock KeyPairLock" "\<not> is_cache_lock SubnetLocker"
  "\<not> is_cache_lock ProviderLock" "\<not> is_cache_lock InstancesLock" "\<not> is_cache_lock (ResourceLock n)"
  by (simp_all add: is_cache_lock_def)

lemma emits_cached_value [emits_intros]:
  assumes "emits P produce" "is_cache_lock l" "d \<noteq> LockDictionary"
    "\<And>m v. is_cache_access m \<Longrightarrow> P (Memory m, v)"
  shows "emits P (cached_value d l k produce)"
  unfolding cached_value_def by (auto intro!: emits_intros assms split: option.splits)

lemma halts_cached_value [halts_intros]: "halts produce \<Longrightarrow> halts (cached_value d l k produce)"
  unfolding cached_value_def by (auto intro!: halts_intros split: option.splits)

lemma emits_get_storage_account_key:
  assumes "retry_law E" "\<And>m v. is_cache_access m \<Longrightarrow> P (Memory m, v)" "\<And>v. P (Storage (ListStorageKeys g s), v)"
  shows "emits P (get_storage_account_key E g s)"
  unfolding get_storage_account_key_def
  by (auto intro!: emits_retry_lib emits_intros assms)

lemma halts_get_storage_account_key [halts_intros]:
  "retry_law E \<Longrightarrow> halts (get_storage_account_key E g s)"
  unfolding get_storage_account_key_def by (auto intro!: halts_retry_lib halts_intros)

lemma halts_get_service [halts_intros]:
  assumes "retry_law E"
  shows "halts (get_file_service E g s)" "halts (get_blob_service E g s)"
  unfolding get_file_service_def get_blob_service_def by (auto intro!: halts_intros assms)

lemma emits_get_service:
  assumes "retry_law E" "\<And>m v. is_cache_access m \<Longrightarrow> P (Memory m, v)" "\<And>q v. P (Storage q, v)"
  shows "emits P (get_file_service E g s)" "emits P (get_blob_service E g s)"
  unfolding get_file_service_def get_blob_service_def
  by (auto intro!: emits_intros emits_get_storage_account_key assms)

lemma halts_storage [halts_intros]:
  assumes "retry_law E"
  shows "halts (create_storage_account E g r n t w)" "halts (get_file E g s sh d f)"
    "halts (create_file E g s sh d f c)" "halts (Storage.delete_blob E g s c b)"
    "halts (get_sandbox_storage_account_name E g)"
  unfolding create_storage_account_def get_file_def create_file_def delete_blob_def
    get_sandbox_storage_account_name_def get_storage_per_resource_group_def
  by (auto intro!: halts_intros retried_intros assms split: sum.splits)

lemma emits_storage:
  assumes "retry_law E" "\<And>m v. is_cache_access m \<Longrightarrow> P (Memory m, v)" "\<And>q v. P (Storage q, v)"
  shows "(\<And>i v. P (Poller (PollWait i), v)) \<Longrightarrow> emits P (create_storage_account E g r n t w)"
    "emits P (get_file E g s sh d f)"
    "emits P (create_file E g s sh d f ct)" "emits P (Storage.delete_blob E g s c b)"
    "emits P (get_sandbox_storage_account_name E g)"
  unfolding create_storage_account_def get_file_def create_file_def delete_blob_def
    get_sandbox_storage_account_name_def get_storage_per_resource_group_def
  by (auto intro!: emits_intros emits_get_service retried_intros assms split: sum.splits)

section \<open>The caches change under their locks\<close>

fun is_key_access :: "request \<Rightarrow> bool" where
  "is_key_access (Storage (ListStorageKeys _ _)) \<longleftrightarrow> True"
| "is_key_access (Memory (DictPutStr d _ _)) \<longleftrightarrow> d = CachedAccountKeys"
| "is_key_access _ \<longleftrightarrow> False"

fun is_service_creation :: "request \<Rightarrow> bool" where
  "is_service_creation (Storage (NewFileService _ _)) \<longleftrightarrow> True"
| "is_service_creation (Memory (DictPutStr d _ _)) \<longleftrightarrow> d = CachedFileServices"
| "is_service_creation _ \<longleftrightarrow> False"

lemma keeps_lock_read:
  "\<not> G (Memory (DictFind d k)) \<Longrightarrow>
     keeps_lock l G (bnd (call (Memory (DictFind d k))) (expect (as_opt as_str)))"
  by (intro lock_intros keeps_lock_call) (simp add: lock_free_def)

lemma keeps_lock_option [lock_intros]:
  "keeps_lock l G p \<Longrightarrow> (\<And>x. keeps_lock l G (f x)) \<Longrightarrow>
     keeps_lock l G (case v of None \<Rightarrow> p | Some x \<Rightarrow> f x)"
  by (cases v) auto

lemma keeps_lock_cached_value:
  assumes "emits (lock_untouched l) produce" "halts produce" "\<not> G (Memory (DictFind d k))"
  shows "keeps_lock l G (cached_value d l k produce)"
proof -
  have inner: "emits (lock_untouched l) (case v of None \<Rightarrow> bnd produce
      (\<lambda>x. thn (signal (Memory (DictPutStr d k x))) (Return x)) | Some x \<Rightarrow> Return x)"
    "halts (case v of None \<Rightarrow> bnd produce
      (\<lambda>x. thn (signal (Memory (DictPutStr d k x))) (Return x)) | Some x \<Rightarrow> Return x)" for v
    by (cases v; auto intro!: emits_intros halts_intros assms(1,2) simp: lock_untouched_def)+
  have read: "lock_untouched l (Memory (DictFind d k), v)" for v
    by (simp add: lock_untouched_def)
  show ?thesis
    unfolding cached_value_def
    by (intro keeps_lock_bnd keeps_lock_option keeps_lock_read keeps_lock_with_lock
        emits_intros halts_intros inner read lock_intros assms(3))
qed

lemma keeps_lock_cached_value_other:
  assumes "keeps_lock l G produce" "l \<noteq> l'" "\<And>q. q \<in> {Acquire l', Release l', DictFind d k} \<Longrightarrow> \<not> G (Memory q)"
    "\<And>x. \<not> G (Memory (DictPutStr d k x))"
  shows "keeps_lock l G (cached_value d l' k produce)"
proof -
  have put: "keeps_lock l G (signal (Memory (DictPutStr d k x)))" for x
    using assms(4) by (intro keeps_lock_signal) (simp add: lock_free_def)
  show ?thesis
    unfolding cached_value_def
    by (intro keeps_lock_bnd keeps_lock_option keeps_lock_read keeps_lock_with_other_lock
        lock_intros put assms) simp_all
qed

lemma key_cache_untouched: "emits (lock_untouched AccountKeysLock) (bnd (call (Storage (ListStorageKeys g s))) (\<lambda>r.
    bnd (expect as_strs r) first))"
  by (auto intro!: emits_intros simp: lock_untouched_def)

lemma keeps_lock_account_key:
  "retry_law E \<Longrightarrow> keeps_lock AccountKeysLock is_key_access (get_storage_account_key E g s)"
  unfolding get_storage_account_key_def
  by (intro keeps_lock_retry_lib lock_intros keeps_lock_cached_value key_cache_untouched
      halts_intros) simp_all

lemma keeps_lock_service:
  assumes "retry_law E"
  shows "keeps_lock AccountKeysLock is_key_access (get_file_service E g s)"
    "keeps_lock AccountKeysLock is_key_access (get_blob_service E g s)"
    "keeps_lock FileServicesLock is_service_creation (get_file_service E g s)"
proof -
  have "keeps_lock AccountKeysLock is_key_access (call (Storage (NewFileService s k)))"
    "keeps_lock AccountKeysLock is_key_access (call (Storage (NewBlobService s k)))" for k
    by (intro keeps_lock_call, simp add: lock_free_def)+
  then show "keeps_lock AccountKeysLock is_key_access (get_file_service E g s)"
    "keeps_lock AccountKeysLock is_key_access (get_blob_service E g s)"
    unfolding get_file_service_def get_blob_service_def
    by (intro keeps_lock_cached_value_other lock_intros keeps_lock_account_key assms; auto)+
  have "emits (lock_untouched FileServicesLock)
      (bnd (bnd (get_storage_account_key E g s) (expect as_str)) (\<lambda>account_key.
       bnd (call (Storage (NewFileService s account_key))) (expect as_str)))"
    unfolding get_storage_account_key_def cached_value_def
    by (auto intro!: emits_intros emits_retry_lib assms simp: lock_untouched_def split: option.splits)
  then show "keeps_lock FileServicesLock is_service_creation (get_file_service E g s)"
    unfolding get_file_service_def
    by (intro keeps_lock_cached_value halts_intros assms) simp_all
qed


definition sample_get_file_run :: "event list" where
  "sample_get_file_run =
    [(Memory (DictFind CachedFileServices [''rg'', ''st'']), Inr RNone),
     (Memory (Acquire FileServicesLock), Inr RNone),
     (Memory (DictFind CachedFileServices [''rg'', ''st'']), Inr RNone),
     (Memory (DictFind CachedAccountKeys [''rg'', ''st'']), Inr RNone),
     (Memory (Acquire AccountKeysLock), Inr RNone),
     (Memory (DictFind CachedAccountKeys [''rg'', ''st'']), Inr RNone),
     (Storage (ListStorageKeys ''rg'' ''st''), Inr (RStrs [''key1'', ''key2''])),
     (Memory (DictPutStr CachedAccountKeys [''rg'', ''st''] ''key1''), Inr RNone),
     (Memory (Release AccountKeysLock), Inr RNone),
     (Storage (NewFileService ''st'' ''key1''), Inr (RStr ''service'')),
     (Memory (DictPutStr CachedFileServices [''rg'', ''st''] ''service''), Inr RNone),
     (Memory (Release FileServicesLock), Inr RNone),
     (Storage (GetFile ''service'' ''share'' [] ''id_rsa''), Inr (RStr ''content''))]"

lemma sample_get_file_exec:
  "exec (get_file sample_env ''rg'' ''st'' ''share'' [] ''id_rsa'') sample_get_file_run (Ok (RStr ''content''))"
  by (rule exec_replay [where vs = "map snd sample_get_file_run"]) code_simp


section \<open>A copy is never left unfinished\<close>

text \<open>
  What this thread wrote last to the state of an entry of the dictionary of copied blobs, with
  whether it published a result.
\<close>

definition copy_writes :: "string list \<Rightarrow> (copy_state option \<times> string option) monitor" where
  "copy_writes key s ev = Some (case fst ev of
     Memory (CopiedPut k st) \<Rightarrow> if k = key then (Some st, None) else s
   | Memory (CopiedSetState k st) \<Rightarrow> if k = key then (Some st, snd s) else s
   | Memory (CopiedSetResult k u) \<Rightarrow> if k = key then (fst s, Some u) else s
   | _ \<Rightarrow> s)"

definition no_copy_write :: "event \<Rightarrow> bool" where
  "no_copy_write ev \<longleftrightarrow> (case fst ev of
     Memory (CopiedPut k st) \<Rightarrow> False
   | Memory (CopiedSetState k st) \<Rightarrow> False
   | Memory (CopiedSetResult k u) \<Rightarrow> False
   | _ \<Rightarrow> True)"

lemma copy_writes_stays: "no_copy_write ev \<Longrightarrow> copy_writes key s ev = Some s"
  by (cases ev) (auto simp: copy_writes_def no_copy_write_def split: request.splits memory_request.splits)

lemma emits_wait_for_blob:
  assumes "\<And>q v. P (Storage q, v)" "\<And>q v. P (Runtime q, v)"
  shows "emits P (wait_for_blob n s c b w)"
  by (induction n) (subst wait_for_blob.simps; auto intro!: emits_intros assms split: prod.splits nat.splits)+

lemma emits_copy_blob_once:
  assumes "retry_law E" "\<And>q v. P (Storage q, v)" "\<And>q v. P (Runtime q, v)"
    "\<And>d k v. P (Memory (DictFind d k), v)" "\<And>d k x v. P (Memory (DictPutStr d k x), v)"
    "\<And>l v. P (Memory (Acquire l), v)" "\<And>l v. P (Memory (Release l), v)"
  shows "emits P (copy_blob_once E g1 g2 u1 u2)"
proof -
  have service: "emits P (get_blob_service E g s)" for g s
    unfolding get_blob_service_def get_storage_account_key_def cached_value_def
    by (auto intro!: emits_intros emits_retry_lib assms split: option.splits)
  show ?thesis
    unfolding copy_blob_once_def wait_until_blob_copied_def make_blob_url_def
    by (auto intro!: emits_intros retried_intros emits_wait_for_blob service assms)
qed

lemma emits_wait_for_other_copy:
  assumes "\<And>q v. P (Runtime q, v)" "\<And>k v. P (Memory (CopiedState k), v)"
  shows "emits P (wait_for_other_copy n k)"
  by (induction n) (subst wait_for_other_copy.simps; auto intro!: emits_intros assms split: nat.splits)+

lemma wp_copy_and_publish:
  assumes "retry_law E"
  shows "wp (copy_writes key) (copy_and_publish E key g1 g2 u1 u2)
     (\<lambda>_ s. \<exists>u. s = (Some CopySuccess, Some u)) (\<lambda>e s. s = (Some CopyFailed, None)) (\<lambda>_. True)
     (Some CopyCopying, None)"
proof -
  have allowed_write: "allowed (copy_writes key) s (q, v) K \<longleftrightarrow>
      (case copy_writes key s (q, v) of None \<Rightarrow> False | Some s' \<Rightarrow> K s')" for s q v K
    by (simp add: allowed_def)
  have "emits (\<lambda>ev. copy_writes key (Some CopyCopying, None) ev = Some (Some CopyCopying, None))
      (bnd (copy_blob_once E g1 g2 u1 u2) (expect as_str))"
    by (intro emits_intros emits_copy_blob_once assms copy_writes_stays)
      (simp_all add: no_copy_write_def)
  then have "wp (copy_writes key) (bnd (copy_blob_once E g1 g2 u1 u2) (expect as_str))
      (\<lambda>_ s. s = (Some CopyCopying, None)) (\<lambda>_ s. s = (Some CopyCopying, None)) (\<lambda>_. True) (Some CopyCopying, None)"
    by (rule wp_stays_or_hangs) simp_all
  then show ?thesis
    unfolding copy_and_publish_def wp_bnd [of _ "catch _ _"] wp_catch
    by (rule wp_mono) (simp_all add: wp_simps allowed_write copy_writes_def)
qed

text \<open>Nothing was written, or a failure, or a success with an address.\<close>

definition copy_finished :: "copy_state option \<times> string option \<Rightarrow> bool" where
  "copy_finished s \<longleftrightarrow> s = (None, None) \<or> s = (Some CopyFailed, None) \<or>
     (fst s = Some CopySuccess \<and> snd s \<noteq> None)"

lemma wp_claim_copy:
  "wp (copy_writes key) (with_lock CopiedBlobUrlsLock (claim_copy key))
     (\<lambda>(need_to_copy, need_to_wait) s.
        if need_to_copy then s = (Some CopyCopying, None) \<and> \<not> need_to_wait else s = (None, None))
     (\<lambda>_ s. s = (None, None)) (\<lambda>_. True) (None, None)"
  unfolding claim_copy_def
  by (auto simp: wp_simps allowed_def copy_writes_def split: option.split)

lemma wp_copy_finished:
  assumes "emits no_copy_write p" "copy_finished s"
  shows "wp (copy_writes key) p (\<lambda>_. copy_finished) (\<lambda>_. copy_finished) (\<lambda>_. True) s"
  using assms by (intro wp_stays_or_hangs) (auto elim!: emits_mono intro: copy_writes_stays)

lemma wp_copy_or_wait:
  assumes "retry_law E"
  shows "wp (copy_writes key) (only_if (\<not> copied)
      (bnd (with_lock CopiedBlobUrlsLock (claim_copy key)) (\<lambda>(need_to_copy, need_to_wait).
       if need_to_wait then wait_for_other_copy (loop_bound E) key
       else only_if need_to_copy (copy_and_publish E key g_from g_to u1 u2))))
      (\<lambda>_. copy_finished) (\<lambda>_. copy_finished) (\<lambda>_. True) (None, None)"
proof -
  have unwritten: "copy_finished (None, None)" by (simp add: copy_finished_def)
  have waiting: "wp (copy_writes key) (wait_for_other_copy n key) (\<lambda>_. copy_finished) (\<lambda>_. copy_finished) (\<lambda>_. True) (None, None)" for n
    by (intro wp_copy_finished emits_wait_for_other_copy unwritten) (simp_all add: no_copy_write_def)
  have copying: "wp (copy_writes key) (copy_and_publish E key g_from g_to u1 u2)
      (\<lambda>_. copy_finished) (\<lambda>_. copy_finished) (\<lambda>_. True) (Some CopyCopying, None)" for u1 u2
    by (rule wp_mono [OF wp_copy_and_publish [OF assms(1)]]) (auto simp: copy_finished_def)
  have claimed: "wp (copy_writes key) (bnd (with_lock CopiedBlobUrlsLock (claim_copy key)) (\<lambda>(need_to_copy, need_to_wait).
       if need_to_wait then wait_for_other_copy (loop_bound E) key
       else only_if need_to_copy (copy_and_publish E key g_from g_to u1 u2)))
      (\<lambda>_. copy_finished) (\<lambda>_. copy_finished) (\<lambda>_. True) (None, None)"
    unfolding wp_bnd [of _ "with_lock _ _"]
    by (rule wp_mono [OF wp_claim_copy]) (auto simp: wp_only_if waiting copying unwritten split: if_splits)
  show ?thesis
    by (cases copied) (simp_all add: wp_only_if unwritten, simp add: only_if_def claimed)
qed

lemma wp_copy_blob:
  assumes "retry_law E"
  shows "wp (copy_writes [s_to, c_to, b_to]) (copy_blob E g_to s_to c_to b_to source g_from)
    (\<lambda>_. copy_finished) (\<lambda>_. copy_finished) (\<lambda>_. True) (None, None)"
proof (cases "parse_blob_url source")
  case (Inr u)
  let ?key = "[s_to, c_to, b_to]"
  have checked: "wp (copy_writes ?key) (is_copied ?key) (\<lambda>_ s. s = (None, None)) (\<lambda>_ s. s = (None, None)) (\<lambda>_. True) (None, None)"
    unfolding is_copied_def
    by (intro wp_stays_or_hangs emits_intros)
      (auto intro!: emits_intros copy_writes_stays simp: no_copy_write_def)
  have result: "wp (copy_writes ?key) (bnd (call (Memory (CopiedResult ?key))) (expect (as_opt as_str)))
      (\<lambda>_. copy_finished) (\<lambda>_. copy_finished) (\<lambda>_. True) s" if "copy_finished s" for s
    using that by (intro wp_copy_finished emits_intros) (simp add: no_copy_write_def)
  show ?thesis
    unfolding copy_blob_def Inr sum.case Let_def wp_bnd [of _ "is_copied _"] wp_bnd [of _ "only_if _ _"]
    by (rule wp_mono [OF checked])
      (auto simp: copy_finished_def intro!: wp_mono [OF wp_copy_or_wait [OF assms]] result)
qed (simp add: copy_blob_def wp_simps copy_finished_def)


definition sample_failed_copy :: "event list" where
  "sample_failed_copy =
    [(Memory (DictHas CachedCopiedBlobUrls [''st'', ''images'', ''disk'']), Inr (RBool False)),
     (Memory (Acquire CopiedBlobUrlsLock), Inr RNone),
     (Memory (DictFind CachedCopiedBlobUrls [''st'', ''images'', ''disk'']), Inr RNone),
     (Memory (CopiedPut [''st'', ''images'', ''disk''] CopyCopying), Inr RNone),
     (Memory (Release CopiedBlobUrlsLock), Inr RNone),
     (Memory (DictFind CachedBlobServices [''rg0'', ''acc'']), Inr (RStr ''service'')),
     (Runtime Now, Inr (RInt 0)),
     (Storage (GenerateSas ''service'' ''images'' ''disk.vhd'' 31536000), Inl (PyException ''no access'')),
     (Memory (Acquire CopiedBlobUrlsLock), Inr RNone),
     (Memory (CopiedSetState [''st'', ''images'', ''disk''] CopyFailed), Inr RNone),
     (Memory (Release CopiedBlobUrlsLock), Inr RNone)]"

lemma sample_failed_copy_exec:
  "exec (copy_blob sample_env ''rg'' ''st'' ''images'' ''disk'' ''https://acc.blob.net/images/disk.vhd'' ''rg0'')
     sample_failed_copy (Err (PyException ''no access''))"
  by (rule exec_replay [where vs = "map snd sample_failed_copy"]) code_simp


section \<open>The parts of a blob address\<close>

definition url_delimiters :: "char set" where
  "url_delimiters = {CHR ''/'', CHR ''?'', CHR ''#'', CHR ''['', CHR '']'', CHR '';''}"

definition blob_url :: "string \<Rightarrow> string \<Rightarrow> string \<Rightarrow> string \<Rightarrow> string" where
  "blob_url account domain container blob =
     ''https://'' @ account @ ''.'' @ domain @ ''/'' @ container @ ''/'' @ blob"

lemma split_scheme_https: "split_scheme (''https:'' @ CHR ''/'' # s) = (''https'', CHR ''/'' # s)"
proof -
  have "list_all is_scheme_char ''https''" "py_lower ''https'' = ''https''" "\<not> is_digit (CHR ''/'')"
    by code_simp+
  then show ?thesis by (simp add: split_scheme_def)
qed

lemma takeWhile_upto: "(\<And>x. x \<in> set xs \<Longrightarrow> P x) \<Longrightarrow> \<not> P y \<Longrightarrow> takeWhile P (xs @ y # ys) = xs"
  by (induction xs) auto

lemma dropWhile_upto: "(\<And>x. x \<in> set xs \<Longrightarrow> P x) \<Longrightarrow> \<not> P y \<Longrightarrow> dropWhile P (xs @ y # ys) = y # ys"
  by (induction xs) auto

lemma takeWhile_all: "(\<And>x. x \<in> set xs \<Longrightarrow> P x) \<Longrightarrow> takeWhile P xs = xs"
  by (simp add: takeWhile_eq_all_conv)

lemma no_delimiter:
  "c \<notin> url_delimiters \<Longrightarrow>
     c \<noteq> CHR ''/'' \<and> c \<noteq> CHR ''?'' \<and> c \<noteq> CHR ''#'' \<and> c \<noteq> CHR ''['' \<and> c \<noteq> CHR '']'' \<and> c \<noteq> CHR '';''"
  by (simp add: url_delimiters_def)

lemma cut_params_blob:
  assumes "CHR ''/'' \<notin> set blob" "CHR '';'' \<notin> set blob"
  shows "cut_params (''/'' @ container @ ''/'' @ blob) = ''/'' @ container @ ''/'' @ blob"
proof -
  have "last_part (CHR ''/'') (''/'' @ container @ ''/'' @ blob) = blob"
    using assms(1) last_part_append [of "CHR ''/''" "CHR ''/'' # container" blob] by (simp add: last_part_idle)
  moreover have "takeWhile (\<lambda>c. c \<noteq> CHR '';'') blob = blob"
    using assms(2) by (intro takeWhile_all) auto
  ultimately show ?thesis by (simp add: cut_params_def)
qed

lemma urlparse_https:
  assumes "\<And>c. c \<in> set host \<Longrightarrow> c \<notin> url_delimiters" "\<And>c. c \<in> set path \<Longrightarrow> c \<noteq> CHR ''?'' \<and> c \<noteq> CHR ''#''"
    "cut_params (CHR ''/'' # path) = CHR ''/'' # path"
  shows "urlparse (''https:'' @ ''//'' @ host @ CHR ''/'' # path) = Inr (host, CHR ''/'' # path)"
proof -
  note host = no_delimiter [OF assms(1)]
  have netloc: "split_netloc (''//'' @ host @ CHR ''/'' # path) = (host, CHR ''/'' # path)"
    using takeWhile_upto [of host "\<lambda>c. c \<noteq> CHR ''/'' \<and> c \<noteq> CHR ''?'' \<and> c \<noteq> CHR ''#''" "CHR ''/''"]
      dropWhile_upto [of host "\<lambda>c. c \<noteq> CHR ''/'' \<and> c \<noteq> CHR ''?'' \<and> c \<noteq> CHR ''#''" "CHR ''/''"] host
    by (simp add: split_netloc_def Let_def)
  have brackets: "CHR ''['' \<notin> set host" "CHR '']'' \<notin> set host"
    using host by blast+
  have path: "c \<noteq> CHR ''?'' \<and> c \<noteq> CHR ''#''" if "c \<in> set (CHR ''/'' # path)" for c
  proof -
    from that consider "c = CHR ''/''" | "c \<in> set path" by auto
    then show ?thesis by cases (simp, use assms(2) in blast)
  qed
  have no_query: "takeWhile (\<lambda>c. c \<noteq> CHR ''#'') (CHR ''/'' # path) = CHR ''/'' # path"
      "takeWhile (\<lambda>c. c \<noteq> CHR ''?'') (CHR ''/'' # path) = CHR ''/'' # path"
    using path by (intro takeWhile_all; blast)+
  have params: "''https'' \<in> set uses_params" by code_simp
  have "split_scheme (''https:'' @ ''//'' @ host @ CHR ''/'' # path) = (''https'', ''//'' @ host @ CHR ''/'' # path)"
    using split_scheme_https [of "''/'' @ host @ CHR ''/'' # path"] by simp
  then show ?thesis
    unfolding urlparse_def by (simp only: Let_def prod.case netloc brackets no_query assms(3) params if_True if_False refl simp_thms)
qed

text \<open>
  C27: The address of a blob is taken apart into the storage account, the container and the name it
  was made of, when none of them contains a delimiter of addresses.
\<close>

theorem parse_blob_url_round_trip:
  assumes "\<And>s. s \<in> {account, domain, container, blob} \<Longrightarrow> set s \<inter> url_delimiters = {}"
    and "CHR ''.'' \<notin> set account"
  shows "parse_blob_url (blob_url account domain container blob) =
    Inr \<lparr>bu_storage_name = account, bu_container_name = container, bu_blob_name = blob\<rparr>"
proof -
  let ?host = "account @ ''.'' @ domain" and ?path = "container @ ''/'' @ blob"
  have clean: "c \<notin> url_delimiters" if "c \<in> set s" "s \<in> {account, domain, container, blob}" for c s
    using assms(1) [OF that(2)] that(1) by blast
  have dot: "CHR ''.'' \<notin> url_delimiters" by (simp add: url_delimiters_def)
  have host: "c \<notin> url_delimiters" if "c \<in> set ?host" for c
  proof -
    from that consider "c \<in> set account" | "c = CHR ''.''" | "c \<in> set domain" by auto
    then show ?thesis by cases (use clean [of c] dot in blast)+
  qed
  have path: "c \<noteq> CHR ''?'' \<and> c \<noteq> CHR ''#''" if "c \<in> set ?path" for c
  proof -
    from that consider "c \<in> set container" | "c = CHR ''/''" | "c \<in> set blob" by auto
    then show ?thesis by cases (use clean [of c] no_delimiter [of c] in \<open>blast, simp, blast\<close>)
  qed
  have no_slash: "CHR ''/'' \<notin> set container" "CHR ''/'' \<notin> set blob" "CHR '';'' \<notin> set blob"
    using clean [of _ container] clean [of _ blob] no_delimiter by blast+
  have "cut_params (CHR ''/'' # ?path) = CHR ''/'' # ?path"
    using cut_params_blob [OF no_slash(2,3), of container] by simp
  from urlparse_https [of ?host ?path, OF host path this]
  have url: "urlparse (blob_url account domain container blob) = Inr (?host, CHR ''/'' # ?path)"
    by (simp add: blob_url_def)
  have "py_split (CHR ''/'') (CHR ''/'' # ?path) = [[], container, blob]"
    using no_slash by (simp add: py_split_append_sep py_split_no_sep)
  moreover have "takeWhile (\<lambda>c. c \<noteq> CHR ''.'') ?host = account"
    unfolding append.simps by (rule takeWhile_upto) (use assms(2) in auto)
  ultimately show ?thesis
    by (simp add: parse_blob_url_def url)
qed

theorem parse_blob_url_round_trip_witness:
  "parse_blob_url (blob_url ''someaccount'' ''blob.core.windows.net'' ''images'' ''disk.vhd'') =
    Inr \<lparr>bu_storage_name = ''someaccount'', bu_container_name = ''images'', bu_blob_name = ''disk.vhd''\<rparr>"
  by (rule parse_blob_url_round_trip) (auto simp: url_delimiters_def)

end
