(* ===== verification/Credentials.thy ===== *)
theory Credentials
  imports Storage
begin

text \<open>
  \<^verbatim>\<open>domain/services/vm_credentials_service.py\<close>, \<^verbatim>\<open>domain/services/key_pair.py\<close> and
  \<^verbatim>\<open>domain/vm_management/operations/access_key_operation.py\<close>: passwords and SSH keys of virtual
  machines, kept on a share of the storage account of the sandbox.
\<close>

section \<open>KeyPairService\<close>

definition FILE_SHARE_NAME :: string where "FILE_SHARE_NAME = ''sshkeypair''"
definition FILE_SHARE_DIRECTORY :: string where "FILE_SHARE_DIRECTORY = []"
definition SSH_PUB_KEY_NAME :: string where "SSH_PUB_KEY_NAME = ''id_rsa.pub''"
definition SSH_PRIVATE_KEY_NAME :: string where "SSH_PRIVATE_KEY_NAME = ''id_rsa''"

definition generate_key_pair :: "nat \<Rightarrow> ssh_key prog" where
  "generate_key_pair key_length = bnd (call (Runtime (RsaGenerate key_length))) (expect as_ssh_key)"

definition save_key_pair :: "env \<Rightarrow> string \<Rightarrow> string \<Rightarrow> ssh_key \<Rightarrow> unit prog" where
  "save_key_pair E group_name storage_name key_pair =
     thn (create_file E group_name storage_name FILE_SHARE_NAME FILE_SHARE_DIRECTORY
       SSH_PUB_KEY_NAME (sk_public_key key_pair))
     (thn (create_file E group_name storage_name FILE_SHARE_NAME FILE_SHARE_DIRECTORY
       SSH_PRIVATE_KEY_NAME (sk_private_key key_pair))
     (Return ()))"

definition read_key_file :: "env \<Rightarrow> string \<Rightarrow> string \<Rightarrow> string \<Rightarrow> string prog" where
  "read_key_file E group_name storage_name file_name =
     bnd (get_file E group_name storage_name FILE_SHARE_NAME FILE_SHARE_DIRECTORY file_name)
       (expect as_str)"

definition get_key_pair :: "env \<Rightarrow> string \<Rightarrow> string \<Rightarrow> ssh_key prog" where
  "get_key_pair E group_name storage_name =
     (let cached_key = [group_name, storage_name] in
      thn (bnd (bnd (call (Memory (DictHas CachedKeyPairs cached_key))) (expect as_bool)) (\<lambda>present.
        only_if (\<not> present) (with_lock KeyPairLock (
          bnd (bnd (call (Memory (DictFind CachedKeyPairs cached_key)))
            (expect (as_opt as_ssh_key))) (\<lambda>ssh_key.
          only_if (ssh_key = None)
            (bnd (read_key_file E group_name storage_name SSH_PUB_KEY_NAME) (\<lambda>pub_key.
             bnd (read_key_file E group_name storage_name SSH_PRIVATE_KEY_NAME) (\<lambda>private_key.
             signal (Memory (DictPutKeys CachedKeyPairs cached_key
               \<lparr>sk_private_key = private_key, sk_public_key = pub_key\<rparr>))))))))))
      (bnd (call (Memory (DictGet CachedKeyPairs cached_key))) (expect as_ssh_key)))"

section \<open>VMCredentialsService\<close>

definition DEFAULT_LINUX_USERNAME :: string where "DEFAULT_LINUX_USERNAME = ''adminuser''"
definition DEFAULT_WINDOWS_USERNAME :: string where "DEFAULT_WINDOWS_USERNAME = ''adminuser''"

definition ascii_lowercase :: string where "ascii_lowercase = ''abcdefghijklmnopqrstuvwxyz''"
definition ascii_uppercase :: string where "ascii_uppercase = ''ABCDEFGHIJKLMNOPQRSTUVWXYZ''"
definition ascii_digits :: string where "ascii_digits = ''0123456789''"

text \<open>
  \<^verbatim>\<open>random.choice(cs)\<close> is one of the characters, \<^verbatim>\<open>random.sample(xrange(n), k)\<close> are \<open>k\<close>
  different numbers below \<open>n\<close>, or a \<^verbatim>\<open>ValueError\<close> when there are not so many.
\<close>

fun as_choice :: "string \<Rightarrow> resp \<Rightarrow> char option" where
  "as_choice cs (RStr s) = (case s of [c] \<Rightarrow> if c \<in> set cs then Some c else None | _ \<Rightarrow> None)"
| "as_choice cs _ = None"

fun as_sample :: "nat \<Rightarrow> nat \<Rightarrow> resp \<Rightarrow> nat list option" where
  "as_sample n k (RNats is) =
     (if length is = k \<and> distinct is \<and> list_all (\<lambda>i. i < n) is then Some is else None)"
| "as_sample n k _ = None"

definition random_choice :: "string \<Rightarrow> char prog" where
  "random_choice cs = bnd (call (Runtime (RandomChoice cs))) (expect (as_choice cs))"

definition random_sample :: "nat \<Rightarrow> nat \<Rightarrow> nat list prog" where
  "random_sample n k =
     (if n < k then Raise (ValueError ''sample larger than population'')
      else bnd (call (Runtime (RandomSample n k))) (expect (as_sample n k)))"

fun set_symbols :: "string \<Rightarrow> (nat \<times> string) list \<Rightarrow> string prog" where
  "set_symbols password [] = Return password"
| "set_symbols password ((idx, symbols_range) # rest) =
     bnd (random_choice symbols_range) (\<lambda>c. set_symbols (password[idx := c]) rest)"

definition generate_password :: "nat \<Rightarrow> string prog" where
  "generate_password len =
     bnd (map_prog (\<lambda>_. random_choice ascii_lowercase) [0..<len]) (\<lambda>password.
     bnd (random_sample len 2) (\<lambda>rand_idxs.
     set_symbols password (zip rand_idxs [ascii_uppercase, ascii_digits])))"

definition prepare_windows_credentials ::
  "string option \<Rightarrow> string option \<Rightarrow> (string \<times> string option) prog"
where
  "prepare_windows_credentials username password =
     (let username = (if truthy username then the username else DEFAULT_WINDOWS_USERNAME)
      in if truthy password then Return (username, password)
         else bnd (generate_password 10) (\<lambda>pw. Return (username, Some pw)))"

definition get_ssh_key :: "env \<Rightarrow> string \<Rightarrow> string \<Rightarrow> string \<Rightarrow> authorized_key prog" where
  "get_ssh_key E username group_name storage_name =
     bnd (get_key_pair E group_name storage_name) (\<lambda>key_pair.
     Return \<lparr>ak_path_to_key = ''/home/'' @ username @ ''/.ssh/authorized_keys'',
       ak_key_data = sk_public_key key_pair\<rparr>)"

definition prepare_linux_credentials ::
  "env \<Rightarrow> string option \<Rightarrow> string option \<Rightarrow> string \<Rightarrow> string \<Rightarrow>
     (string \<times> string option \<times> authorized_key option) prog"
where
  "prepare_linux_credentials E username password group_name storage_name =
     (let username = (if truthy username then the username else DEFAULT_LINUX_USERNAME)
      in if truthy password then Return (username, password, None)
         else bnd (get_ssh_key E username group_name storage_name) (\<lambda>k.
           Return (username, password, Some k)))"

definition prepare_credentials ::
  "env \<Rightarrow> os_type \<Rightarrow> string option \<Rightarrow> string option \<Rightarrow> string \<Rightarrow> string \<Rightarrow> vm_credentials prog"
where
  "prepare_credentials E image_os username password group_name storage_name =
     (if image_os = Linux
      then bnd (prepare_linux_credentials E username password group_name storage_name)
        (\<lambda>(username, password, ssh_key). Return \<lparr>vc_admin_username = username,
          vc_admin_password = password, vc_ssh_key = ssh_key\<rparr>)
      else bnd (prepare_windows_credentials username password) (\<lambda>(username, password).
        Return \<lparr>vc_admin_username = username, vc_admin_password = password, vc_ssh_key = None\<rparr>))"

section \<open>AccessKeyOperation\<close>

definition get_access_key :: "env \<Rightarrow> string \<Rightarrow> string prog" where
  "get_access_key E group_name =
     bnd (get_sandbox_storage_account_name E group_name) (\<lambda>storage_account_name.
     bnd (get_key_pair E group_name storage_account_name) (\<lambda>ssh_key.
     Return (sk_private_key ssh_key)))"

section \<open>Which calls the methods make\<close>

lemma halts_random [halts_intros]: "halts (random_choice cs)" "halts (random_sample n k)"
  unfolding random_choice_def random_sample_def by (auto intro!: halts_intros)

lemma halts_set_symbols [halts_intros]: "halts (set_symbols pw irs)"
  by (induction pw irs rule: set_symbols.induct) (auto intro!: halts_intros)

lemma halts_generate_password [halts_intros]: "halts (generate_password n)"
  unfolding generate_password_def by (auto intro!: halts_intros)

lemma emits_random [emits_intros]:
  "(\<And>v. P (Runtime (RandomChoice cs), v)) \<Longrightarrow> emits P (random_choice cs)"
  "(\<And>v. P (Runtime (RandomSample n k), v)) \<Longrightarrow> emits P (random_sample n k)"
  unfolding random_choice_def random_sample_def by (auto intro!: emits_intros)

lemma emits_set_symbols [emits_intros]:
  "(\<And>cs v. P (Runtime (RandomChoice cs), v)) \<Longrightarrow> emits P (set_symbols pw irs)"
  by (induction pw irs rule: set_symbols.induct) (auto intro!: emits_intros)

lemma emits_generate_password [emits_intros]:
  "(\<And>q v. P (Runtime q, v)) \<Longrightarrow> emits P (generate_password n)"
  unfolding generate_password_def by (auto intro!: emits_intros)

lemma halts_key_pairs [halts_intros]:
  assumes "retry_law E"
  shows "halts (get_key_pair E g s)" "halts (save_key_pair E g s k)" "halts (generate_key_pair n)"
    "halts (get_access_key E g)" "halts (prepare_credentials E t u p g s)"
  unfolding get_key_pair_def save_key_pair_def generate_key_pair_def get_access_key_def
    prepare_credentials_def prepare_linux_credentials_def prepare_windows_credentials_def
    get_ssh_key_def read_key_file_def Let_def
  by (auto intro!: halts_intros assms)

lemma emits_key_pairs:
  assumes "retry_law E" "\<And>m v. is_cache_access m \<Longrightarrow> P (Memory m, v)" "\<And>q v. P (Storage q, v)"
  shows "emits P (get_key_pair E g s)" "emits P (save_key_pair E g s k)"
  unfolding get_key_pair_def save_key_pair_def read_key_file_def Let_def
  by (auto intro!: emits_intros emits_storage assms)

lemma emits_prepare_credentials:
  assumes "retry_law E" "\<And>m v. is_cache_access m \<Longrightarrow> P (Memory m, v)" "\<And>q v. P (Storage q, v)" "\<And>q v. P (Runtime q, v)"
  shows "emits P (prepare_credentials E t u p g s)"
  unfolding prepare_credentials_def prepare_linux_credentials_def prepare_windows_credentials_def
    get_ssh_key_def Let_def
  by (auto intro!: emits_intros emits_key_pairs assms)

section \<open>Passwords\<close>

lemma yields_random_choice: "yields (\<lambda>c. c \<in> set cs) (random_choice cs)"
  unfolding random_choice_def
  by (rule yields_bnd [OF yields_any], rule yields_expect)
    (auto elim!: as_choice.elims split: list.splits if_splits)

lemma yields_random_sample:
  "yields (\<lambda>is. length is = k \<and> distinct is \<and> list_all (\<lambda>i. i < n) is) (random_sample n k)"
  unfolding random_sample_def
  by (auto intro!: yields_bnd [OF yields_any] yields_expect elim!: as_sample.elims
    simp: yields_simps split: if_splits)

lemma symbol_classes:
  "c \<in> set ascii_lowercase \<Longrightarrow> is_lower c" "c \<in> set ascii_uppercase \<Longrightarrow> is_upper c"
  "c \<in> set ascii_digits \<Longrightarrow> is_digit c"
  unfolding ascii_lowercase_def ascii_uppercase_def ascii_digits_def
  by (auto simp: is_lower_def is_upper_def is_digit_def code_def)

text \<open>
  C29: A generated password has the length that was asked for, letters and digits only, and at least
  one uppercase letter and one digit.
\<close>

theorem generated_password_shape:
  assumes "exec (generate_password n) es (Ok pw)"
  shows "length pw = n \<and> list_all is_alnum pw \<and> list_ex is_upper pw \<and> list_ex is_digit pw"
proof -
  let ?Q = "\<lambda>pw. length pw = n \<and> list_all is_alnum pw \<and> list_ex is_upper pw \<and> list_ex is_digit pw"
  have "yields ?Q (generate_password n)"
    unfolding generate_password_def
  proof (intro yields_bnd [OF yields_map_prog, OF yields_random_choice] yields_bnd [OF yields_random_sample])
    fix pw rand_idxs
    assume pw: "list_all2 (\<lambda>_ c. c \<in> set ascii_lowercase) [0..<n] pw"
      and idxs: "length rand_idxs = 2 \<and> distinct rand_idxs \<and> list_all (\<lambda>i. i < n) rand_idxs"
    from pw have len: "length pw = n" by (auto dest: list_all2_lengthD)
    from pw have low: "list_all is_lower pw"
      by (auto simp: list_all2_conv_all_nth list_all_length symbol_classes)
    from idxs obtain i j where ij: "rand_idxs = [i, j]" "i \<noteq> j" "i < n" "j < n"
      by (auto simp: numeral_2_eq_2 length_Suc_conv)
    have "length (pw[i := u, j := d]) = n \<and> list_all is_alnum (pw[i := u, j := d]) \<and>
        list_ex is_upper (pw[i := u, j := d]) \<and> list_ex is_digit (pw[i := u, j := d])"
      if "is_upper u" "is_digit d" for u d
    proof -
      have "pw[i := u, j := d] ! i = u" "pw[i := u, j := d] ! j = d"
        using ij len by simp_all
      moreover have "list_all is_alnum (pw[i := u, j := d])"
        using low that ij len by (auto simp: list_all_length nth_list_update is_alnum_def split: if_splits)
      ultimately show ?thesis
        using that ij len by (auto simp: list_ex_length)
    qed
    then have "yields ?Q (set_symbols pw [(i, ascii_uppercase), (j, ascii_digits)])"
      unfolding set_symbols.simps
      by (intro yields_bnd [OF yields_random_choice] yields_simps(1) [THEN iffD2]) (blast intro: symbol_classes)
    then show "yields ?Q (set_symbols pw (zip rand_idxs [ascii_uppercase, ascii_digits]))"
      using ij(1) by simp
  qed
  then show ?thesis using assms by (rule yieldsD)
qed

lemma sample_password_run:
  "exec (generate_password 4)
     (map (\<lambda>c. (Runtime (RandomChoice ascii_lowercase), Inr (RStr [c]))) ''abcd'' @
      [(Runtime (RandomSample 4 2), Inr (RNats [3, 0])),
       (Runtime (RandomChoice ascii_uppercase), Inr (RStr ''Z'')),
       (Runtime (RandomChoice ascii_digits), Inr (RStr ''7''))]) (Ok ''7bcZ'')"
  by (rule exec_replay [where vs = "map (\<lambda>c. Inr (RStr [c])) ''abcd'' @
    [Inr (RNats [3, 0]), Inr (RStr ''Z''), Inr (RStr ''7'')]"]) code_simp

theorem generated_password_shape_witness:
  "length ''7bcZ'' = 4 \<and> list_all is_alnum ''7bcZ'' \<and> list_ex is_upper ''7bcZ'' \<and> list_ex is_digit ''7bcZ''"
  by (rule generated_password_shape [OF sample_password_run])

section \<open>Keys are read back as they were saved\<close>

text \<open>The files of the share after a run, and whether the reads of a run agree with some files.\<close>

type_synonym files = "string \<times> string \<times> string \<Rightarrow> string option"

definition files_step :: "files monitor" where
  "files_step fs ev = Some (case ev of
     (Storage (CreateFile svc sh d f content), Inr _) \<Rightarrow> fs((sh, d, f) \<mapsto> content)
   | _ \<Rightarrow> fs)"

fun reads_from :: "files \<Rightarrow> event \<Rightarrow> bool" where
  "reads_from fs (Storage (GetFile svc sh d f), Inr r) \<longleftrightarrow> fs (sh, d, f) \<noteq> None \<and> r = RStr (the (fs (sh, d, f)))"
| "reads_from fs _ \<longleftrightarrow> True"

definition key_files :: "ssh_key \<Rightarrow> files \<Rightarrow> bool" where
  "key_files k fs \<longleftrightarrow>
     fs (FILE_SHARE_NAME, FILE_SHARE_DIRECTORY, SSH_PUB_KEY_NAME) = Some (sk_public_key k) \<and>
     fs (FILE_SHARE_NAME, FILE_SHARE_DIRECTORY, SSH_PRIVATE_KEY_NAME) = Some (sk_private_key k)"

definition other_than_files :: "event \<Rightarrow> bool" where
  "other_than_files ev \<longleftrightarrow> (case fst ev of
     Storage (CreateFile _ _ _ _ _) \<Rightarrow> False
   | Storage (GetFile _ _ _ _) \<Rightarrow> False
   | Memory (DictPutKeys _ _ _) \<Rightarrow> False
   | _ \<Rightarrow> True)"

lemma emits_get_file_service_other: "retry_law E \<Longrightarrow> emits other_than_files (get_file_service E g s)"
  unfolding get_file_service_def get_storage_account_key_def cached_value_def
  by (auto intro!: emits_intros emits_retry_lib simp: other_than_files_def split: option.splits)

lemma files_step_stays: "other_than_files ev \<Longrightarrow> files_step fs ev = Some fs"
  by (cases ev) (auto simp: files_step_def other_than_files_def split: request.splits storage_request.splits sum.splits)

lemma wp_create_file:
  assumes "retry_law E"
  shows "wp files_step (create_file E g s sh d f content)
     (\<lambda>_ fs. fs (sh, d, f) = Some content \<and> (\<forall>k. k \<noteq> (sh, d, f) \<longrightarrow> fs k = fs0 k)) (\<lambda>_ _. True) (\<lambda>_. True) fs0"
  unfolding create_file_def
proof (rule wp_retried [OF assms, where I = "\<lambda>fs. \<forall>k. k \<noteq> (sh, d, f) \<longrightarrow> fs k = fs0 k"])
  fix fs :: files assume fs: "\<forall>k. k \<noteq> (sh, d, f) \<longrightarrow> fs k = fs0 k"
  have "wp files_step (get_file_service E g s) (\<lambda>_ fs'. fs' = fs) (\<lambda>_ fs'. fs' = fs) (\<lambda>_. True) fs"
    by (intro wp_stays_or_hangs emits_mono [OF emits_get_file_service_other [OF assms]] files_step_stays)
      simp_all
  then show "wp files_step (no_result (bnd (get_file_service E g s) (\<lambda>file_service.
        thn (call (Storage (CreateShare file_service sh)))
        (call (Storage (CreateFile file_service sh d f content))))))
      (\<lambda>_ fs'. fs' (sh, d, f) = Some content \<and> (\<forall>k. k \<noteq> (sh, d, f) \<longrightarrow> fs' k = fs0 k))
      (\<lambda>e fs'. True \<and> (retry_if_connection_error e \<longrightarrow> (\<forall>k. k \<noteq> (sh, d, f) \<longrightarrow> fs' k = fs0 k))) (\<lambda>_. True) fs"
    unfolding wp_no_result wp_bnd [of _ "get_file_service _ _ _"]
    by (rule wp_mono) (use fs in \<open>auto simp: wp_simps allowed_def files_step_def\<close>)
qed simp

lemma wp_save_key_pair:
  assumes "retry_law E"
  shows "wp files_step (save_key_pair E g s k) (\<lambda>_. key_files k) (\<lambda>_ _. True) (\<lambda>_. True) fs0"
  unfolding save_key_pair_def wp_bnd
  by (rule wp_mono [OF wp_create_file [OF assms]], rule wp_mono [OF wp_create_file [OF assms]])
    (auto simp: key_files_def SSH_PUB_KEY_NAME_def SSH_PRIVATE_KEY_NAME_def)

text \<open>
  The monitor of the reader: its state says whether all reads so far agreed with the files; while
  they do, a key pair that is put into the cache has to be the given one.
\<close>

definition keys_read :: "files \<Rightarrow> ssh_key \<Rightarrow> bool monitor" where
  "keys_read fs k agreed ev =
     (if \<not> agreed then Some False
      else case fst ev of
          Memory (DictPutKeys _ _ k') \<Rightarrow> if k' = k then Some True else None
        | _ \<Rightarrow> Some (reads_from fs ev))"

lemma keys_read_stays:
  assumes "other_than_files ev"
  shows "keys_read fs k agreed ev = Some agreed"
proof -
  obtain q v where ev: "ev = (q, v)" by (cases ev)
  have "reads_from fs (q, v)"
    using assms unfolding ev
    by (cases "(fs, (q, v))" rule: reads_from.cases) (auto simp: other_than_files_def)
  then show ?thesis
    using assms unfolding ev
    by (auto simp: keys_read_def other_than_files_def split: request.splits memory_request.splits)
qed

lemma wp_read_key_file:
  assumes "retry_law E"
  shows "wp (keys_read fs k) (read_key_file E g s f)
     (\<lambda>c agreed. agreed \<longrightarrow> b \<and> fs (FILE_SHARE_NAME, FILE_SHARE_DIRECTORY, f) = Some c) (\<lambda>_ _. True) (\<lambda>_. True) b"
proof -
  let ?N = "\<lambda>r agreed. agreed \<longrightarrow> b \<and> (\<exists>c. r = RStr c \<and> fs (FILE_SHARE_NAME, FILE_SHARE_DIRECTORY, f) = Some c)"
  have "wp (keys_read fs k) (get_file E g s FILE_SHARE_NAME FILE_SHARE_DIRECTORY f) ?N (\<lambda>_ _. True) (\<lambda>_. True) b"
    unfolding get_file_def
  proof (rule wp_retried [OF assms, where I = "\<lambda>agreed. agreed \<longrightarrow> b"])
    fix b' assume b: "b' \<longrightarrow> b"
    have "wp (keys_read fs k) (get_file_service E g s) (\<lambda>_ agreed. agreed \<longrightarrow> b)
        (\<lambda>_ agreed. agreed \<longrightarrow> b) (\<lambda>_. True) b'"
      by (intro wp_stays_or_hangs emits_mono [OF emits_get_file_service_other [OF assms]] keys_read_stays)
        (use b in simp_all)
    then show "wp (keys_read fs k) (bnd (get_file_service E g s) (\<lambda>file_service.
        call (Storage (GetFile file_service FILE_SHARE_NAME FILE_SHARE_DIRECTORY f)))) ?N
      (\<lambda>e s. True \<and> (retry_if_connection_error e \<longrightarrow> s \<longrightarrow> b)) (\<lambda>_. True) b'"
      unfolding wp_bnd
      by (rule wp_mono) (auto simp: wp_simps allowed_def keys_read_def)
  qed simp
  then show ?thesis
    unfolding read_key_file_def wp_bnd by (rule wp_mono) (auto simp: wp_simps split: option.split)
qed

lemma accepted_get_key_pair:
  assumes "retry_law E" "key_files k fs"
  shows "accepted (keys_read fs k) (get_key_pair E g s)"
proof -
  have reading: "accepted (keys_read fs k) (bnd (read_key_file E g s SSH_PUB_KEY_NAME) (\<lambda>pub_key.
             bnd (read_key_file E g s SSH_PRIVATE_KEY_NAME) (\<lambda>private_key.
             signal (Memory (DictPutKeys CachedKeyPairs [g, s]
               \<lparr>sk_private_key = private_key, sk_public_key = pub_key\<rparr>)))))"
    unfolding accepted_def wp_bnd
  proof (intro allI, rule wp_mono [OF wp_read_key_file [OF assms(1)]], rule wp_mono [OF wp_read_key_file [OF assms(1)]])
    fix b pub priv b1 b2
    assume "b1 \<longrightarrow> b \<and> fs (FILE_SHARE_NAME, FILE_SHARE_DIRECTORY, SSH_PUB_KEY_NAME) = Some pub"
      "b2 \<longrightarrow> b1 \<and> fs (FILE_SHARE_NAME, FILE_SHARE_DIRECTORY, SSH_PRIVATE_KEY_NAME) = Some priv"
    then have "b2 \<longrightarrow> \<lparr>sk_private_key = priv, sk_public_key = pub\<rparr> = k"
      using assms(2) by (auto simp: key_files_def)
    then show "wp (keys_read fs k) (signal (Memory (DictPutKeys CachedKeyPairs [g, s]
        \<lparr>sk_private_key = priv, sk_public_key = pub\<rparr>))) (\<lambda>_ _. True) (\<lambda>_ _. True) (\<lambda>_. True) b2"
      by (auto simp: wp_simps allowed_def keys_read_def)
  qed simp_all
  have other: "keys_read fs k b ev \<noteq> None" if "other_than_files ev" for b ev
    using keys_read_stays [OF that] by simp
  have free: "accepted (keys_read fs k) (bnd (call (Memory m)) (expect sel))"
    if "\<And>v. other_than_files (Memory m, v)" for m and sel :: "resp \<Rightarrow> 'z option"
    using that by (intro accepted_emits emits_intros allI other)
  show ?thesis
    unfolding get_key_pair_def Let_def
    by (rule accepted_bnd, rule accepted_bnd [OF free], simp add: other_than_files_def,
        rule accepted_only_if, rule accepted_with_lock, rule accepted_bnd [OF free],
        simp add: other_than_files_def, rule accepted_only_if, rule reading,
        (rule other, simp add: other_than_files_def)+, rule free, simp add: other_than_files_def)
qed

text \<open>
  C28: The key pair that is read from the share of a storage account and cached is the one that was
  saved there, as long as the share answers with the files that were written to it.
\<close>

theorem key_pair_round_trip:
  assumes "retry_law E"
    and "exec (save_key_pair E g s k) es1 (Ok ())" "track files_step (\<lambda>_. None) es1 = Some fs"
    and "exec (get_key_pair E g s) es2 out" "list_all (reads_from fs) es2"
    and "(Memory (DictPutKeys d key k'), v) \<in> set es2"
  shows "k' = k"
proof -
  have "key_files k fs"
    using wpD [OF wp_save_key_pair [OF assms(1), where ?fs0.0 = "\<lambda>_. None"] assms(2)] assms(3) by auto
  from wpD [OF accepted_get_key_pair [OF assms(1) this, unfolded accepted_def, rule_format] assms(4)]
  have "track (keys_read fs k) True es2 \<noteq> None"
    by blast
  moreover have "track (keys_read fs k) True es \<noteq> None \<Longrightarrow> list_all (reads_from fs) es \<Longrightarrow>
      (Memory (DictPutKeys d key k'), v) \<in> set es \<Longrightarrow> k' = k" for es
    by (induction es)
      (auto simp: keys_read_def split: option.splits if_splits request.splits memory_request.splits)
  ultimately show ?thesis using assms(5,6) by blast
qed

definition sample_save_run :: "event list" where
  "sample_save_run =
    [(Memory (DictFind CachedFileServices [''rg'', ''st'']), Inr (RStr ''svc'')),
     (Storage (CreateShare ''svc'' ''sshkeypair''), Inr RNone),
     (Storage (CreateFile ''svc'' ''sshkeypair'' [] ''id_rsa.pub'' ''PUB''), Inr RNone),
     (Memory (DictFind CachedFileServices [''rg'', ''st'']), Inr (RStr ''svc'')),
     (Storage (CreateShare ''svc'' ''sshkeypair''), Inr RNone),
     (Storage (CreateFile ''svc'' ''sshkeypair'' [] ''id_rsa'' ''PRIV''), Inr RNone)]"

definition sample_read_run :: "event list" where
  "sample_read_run =
    [(Memory (DictHas CachedKeyPairs [''rg'', ''st'']), Inr (RBool False)),
     (Memory (Acquire KeyPairLock), Inr RNone),
     (Memory (DictFind CachedKeyPairs [''rg'', ''st'']), Inr RNone),
     (Memory (DictFind CachedFileServices [''rg'', ''st'']), Inr (RStr ''svc'')),
     (Storage (GetFile ''svc'' ''sshkeypair'' [] ''id_rsa.pub''), Inr (RStr ''PUB'')),
     (Memory (DictFind CachedFileServices [''rg'', ''st'']), Inr (RStr ''svc'')),
     (Storage (GetFile ''svc'' ''sshkeypair'' [] ''id_rsa''), Inr (RStr ''PRIV'')),
     (Memory (DictPutKeys CachedKeyPairs [''rg'', ''st''] \<lparr>sk_private_key = ''PRIV'', sk_public_key = ''PUB''\<rparr>), Inr RNone),
     (Memory (Release KeyPairLock), Inr RNone),
     (Memory (DictGet CachedKeyPairs [''rg'', ''st'']), Inr (RSshKey \<lparr>sk_private_key = ''PRIV'', sk_public_key = ''PUB''\<rparr>))]"

lemma sample_save_exec:
  "exec (save_key_pair sample_env ''rg'' ''st'' \<lparr>sk_private_key = ''PRIV'', sk_public_key = ''PUB''\<rparr>)
     sample_save_run (Ok ())"
  by (rule exec_replay [where vs = "map snd sample_save_run"]) code_simp

lemma sample_read_exec:
  "exec (get_key_pair sample_env ''rg'' ''st'') sample_read_run
     (Ok \<lparr>sk_private_key = ''PRIV'', sk_public_key = ''PUB''\<rparr>)"
  by (rule exec_replay [where vs = "map snd sample_read_run"]) code_simp

theorem key_pair_round_trip_witness:
  "\<lparr>sk_private_key = ''PRIV'', sk_public_key = ''PUB''\<rparr> = \<lparr>sk_private_key = ''PRIV'', sk_public_key = ''PUB''\<rparr>"
  by (rule key_pair_round_trip [where fs = "[(''sshkeypair'', [], ''id_rsa.pub'') \<mapsto> ''PUB'', (''sshkeypair'', [], ''id_rsa'') \<mapsto> ''PRIV'']"
        and d = CachedKeyPairs and key = "[''rg'', ''st'']" and v = "Inr RNone",
      OF sample_env_law sample_save_exec _ sample_read_exec])
    (simp_all add: sample_save_run_def sample_read_run_def files_step_def fun_upd_twist)

end
