(* ===== verification/VmExtension.thy ===== *)
theory VmExtension
  imports VmService
begin

text \<open>
  \<^verbatim>\<open>domain/services/vm_extension.py\<close> and \<^verbatim>\<open>common/helpers/url_helper.py\<close>: the custom script that
  runs on a new virtual machine.
\<close>

section \<open>URLHelper and VMExtensionService\<close>

text \<open>Any failure of the request counts as an address that is not valid.\<close>

definition check_url :: "string \<Rightarrow> bool prog" where
  "check_url url =
     catch (bnd (bnd (call (Runtime (HttpHead url))) (expect as_int)) (\<lambda>status.
       Return (\<not> 399 < status))) (\<lambda>_. Return False)"

definition WINDOWS_PUBLISHER :: string where "WINDOWS_PUBLISHER = ''Microsoft.Compute''"
definition WINDOWS_EXTENSION_TYPE :: string where "WINDOWS_EXTENSION_TYPE = ''CustomScriptExtension''"
definition WINDOWS_HANDLER_VERSION :: string where "WINDOWS_HANDLER_VERSION = ''1.9''"
definition LINUX_PUBLISHER :: string where "LINUX_PUBLISHER = ''Microsoft.OSTCExtensions''"
definition LINUX_EXTENSION_TYPE :: string where "LINUX_EXTENSION_TYPE = ''CustomScriptForLinux''"
definition LINUX_HANDLER_VERSION :: string where "LINUX_HANDLER_VERSION = ''1.5''"

definition validate_script_extension :: "os_type \<Rightarrow> string \<Rightarrow> string \<Rightarrow> exn + unit" where
  "validate_script_extension image_os script_file script_configurations =
     (if image_os = Windows
      then (if py_endswith (rstrip_by (\<lambda>c. c = CHR ''/'') script_file) ''ps1'' then Inr ()
        else Inl (PyException (''Invalid format for the PowerShell script. It must have a '' @
          quoted ''ps1'' @ '' extension'')))
      else if script_configurations = []
      then Inl (PyException (''Linux Custom Script must have a command to execute in '' @
        quoted ''Extension Script Configurations'' @ '' attribute''))
      else Inr ())"

definition prepare_linux_vm_script_extension ::
  "string \<Rightarrow> string \<Rightarrow> string \<Rightarrow> dict \<Rightarrow> extension_parameters"
where
  "prepare_linux_vm_script_extension location script_file script_configurations tags =
     \<lparr>ep_location = location, ep_publisher = LINUX_PUBLISHER, ep_type = LINUX_EXTENSION_TYPE,
      ep_version = LINUX_HANDLER_VERSION,
      ep_file_uris = map py_strip (py_split (CHR '','') script_file),
      ep_command = script_configurations, ep_tags = tags\<rparr>"

definition prepare_windows_vm_script_extension ::
  "string \<Rightarrow> string \<Rightarrow> string \<Rightarrow> dict \<Rightarrow> extension_parameters"
where
  "prepare_windows_vm_script_extension location script_file script_configurations tags =
     (let file_name = last_part (CHR ''/'') (rstrip_by (\<lambda>c. c = CHR ''/'') script_file)
      in \<lparr>ep_location = location, ep_publisher = WINDOWS_PUBLISHER,
          ep_type = WINDOWS_EXTENSION_TYPE, ep_version = WINDOWS_HANDLER_VERSION,
          ep_file_uris = [script_file],
          ep_command = ''powershell.exe -ExecutionPolicy Unrestricted -File '' @ file_name @ '' '' @
            script_configurations,
          ep_tags = tags\<rparr>)"

definition create_script_extension ::
  "env \<Rightarrow> string \<Rightarrow> string \<Rightarrow> string \<Rightarrow> os_type \<Rightarrow> string \<Rightarrow> string \<Rightarrow> int \<Rightarrow> dict \<Rightarrow> resp prog"
where
  "create_script_extension E location group_name name image_os script_file script_configurations
     timeout tags =
   retried E (
     bnd (check_url script_file) (\<lambda>valid.
     if \<not> valid then Return (RBool False)
     else (let vm_extension = (if image_os = Linux
         then prepare_linux_vm_script_extension location script_file script_configurations tags
         else prepare_windows_vm_script_extension location script_file script_configurations tags)
       in bnd (call (Compute (PutExtension group_name name name vm_extension))) (\<lambda>r.
          bnd (expect as_poller r) (\<lambda>operation_poller.
          wait_for_task_with_timeout E operation_poller 30 timeout False)))))"

section \<open>Which calls the methods make\<close>

lemma emits_check_url [emits_intros]: "(\<And>v. P (Runtime (HttpHead url), v)) \<Longrightarrow> emits P (check_url url)"
  unfolding check_url_def by (auto intro!: emits_intros)

lemma halts_check_url [halts_intros]: "halts (check_url url)"
  unfolding check_url_def by (auto intro!: halts_intros)

lemma emits_create_script_extension:
  assumes "retry_law E" "\<And>q v. P (Compute q, v)" "\<And>q v. P (Poller q, v)" "\<And>q v. P (Runtime q, v)"
  shows "emits P (create_script_extension E l g n t f c timeout tags)"
  unfolding create_script_extension_def Let_def
  by (auto intro!: emits_intros retried_intros assms)

section \<open>When a script is installed\<close>

definition reachable :: "string \<Rightarrow> event \<Rightarrow> bool" where
  "reachable url ev \<longleftrightarrow> (\<exists>status. ev = (Runtime (HttpHead url), Inr (RInt status)) \<and> status \<le> 399)"

text \<open>
  The monitor: did the last look at the address succeed, and did any? An extension may be
  requested only after a last look that succeeded.
\<close>

definition checked_first :: "string \<Rightarrow> (bool \<times> bool) monitor" where
  "checked_first url s ev = (case fst ev of
     Runtime (HttpHead u) \<Rightarrow> Some (reachable url ev, snd s \<or> reachable url ev)
   | Compute (PutExtension g n e ps) \<Rightarrow> if fst s then Some s else None
   | _ \<Rightarrow> Some s)"

lemma wp_check_url:
  "wp (checked_first url) (check_url url)
     (\<lambda>valid s. s = (valid, ever \<or> valid)) (\<lambda>_ _. False) (\<lambda>_. False) (b, ever)"
  by (auto simp: check_url_def wp_simps allowed_def checked_first_def reachable_def
      elim!: as_int.elims split: option.splits)

lemma emits_wait_unchecked:
  "emits (\<lambda>ev. checked_first url s ev = Some s) (wait_for_task_with_timeout E p 30 timeout False)"
proof -
  have "emits (\<lambda>ev. \<forall>u. fst ev \<noteq> Runtime (HttpHead u) \<and> (\<forall>q. fst ev \<noteq> Compute q))
      (wait_for_task_with_timeout E p 30 timeout False)"
    by (intro emits_wait_for_task_with_timeout) auto
  then show ?thesis
    by (rule emits_mono) (auto simp: checked_first_def split: request.splits runtime_request.splits)
qed

lemma track_ever: "track (checked_first url) s es = Some s' \<Longrightarrow> snd s' \<longleftrightarrow> snd s \<or> list_ex (reachable url) es"
proof (induction es arbitrary: s)
  case (Cons ev es)
  obtain q v where ev: "ev = (q, v)" by (cases ev)
  from Cons.prems obtain s1 where s1: "checked_first url s ev = Some s1" "track (checked_first url) s1 es = Some s'"
    by (auto split: option.splits)
  have "snd s1 \<longleftrightarrow> snd s \<or> reachable url ev"
    using s1(1) unfolding ev
    by (auto simp: checked_first_def reachable_def split: request.splits runtime_request.splits
        compute_request.splits if_splits)
  with Cons.IH [OF s1(2)] show ?case by auto
qed simp

lemma wp_create_script_extension:
  assumes "retry_law E"
  shows "wp (checked_first url) (create_script_extension E l g n t url c timeout tags)
     (\<lambda>r s. snd s \<or> r = RBool False) (\<lambda>_. snd) snd (False, False)"
  unfolding create_script_extension_def
proof (rule wp_retried [OF assms, where I = "\<lambda>_. True"])
  fix s :: "bool \<times> bool"
  let ?rest = "\<lambda>ps. bnd (call (Compute (PutExtension g n n ps))) (\<lambda>r. bnd (expect as_poller r) (\<lambda>p.
    wait_for_task_with_timeout E p 30 timeout False))"
  have rest: "wp (checked_first url) (?rest ps) (\<lambda>r s. snd s \<or> r = RBool False)
      (\<lambda>_. snd) snd (True, True)" for ps
  proof -
    have "wp (checked_first url) (wait_for_task_with_timeout E p 30 timeout False)
        (\<lambda>r s. snd s \<or> r = RBool False) (\<lambda>_. snd) snd (True, True)" for p
      by (rule wp_stays_or_hangs [OF emits_wait_unchecked]) simp_all
    then show ?thesis
      by (auto simp: wp_simps allowed_def checked_first_def split: option.split)
  qed
  show "wp (checked_first url) (bnd (check_url url) (\<lambda>valid.
     if \<not> valid then Return (RBool False)
     else (let vm_extension = (if t = Linux
         then prepare_linux_vm_script_extension l url c tags
         else prepare_windows_vm_script_extension l url c tags)
       in ?rest vm_extension))) (\<lambda>r s. snd s \<or> r = RBool False)
      (\<lambda>e s. snd s \<and> (retry_if_connection_error e \<longrightarrow> True)) snd s"
    unfolding wp_bnd [of _ "check_url _"]
  proof (rule wp_mono [OF wp_check_url [of url "snd s" "fst s", unfolded prod.collapse]])
    fix valid and s' :: "bool \<times> bool"
    assume "s' = (valid, snd s \<or> valid)"
    then show "wp (checked_first url) (if \<not> valid then Return (RBool False)
     else (let vm_extension = (if t = Linux
         then prepare_linux_vm_script_extension l url c tags
         else prepare_windows_vm_script_extension l url c tags)
       in ?rest vm_extension)) (\<lambda>r s. snd s \<or> r = RBool False)
      (\<lambda>e s. snd s \<and> (retry_if_connection_error e \<longrightarrow> True)) snd s'"
      by (cases valid) (simp_all add: Let_def rest)
  qed auto
qed simp

text \<open>
  C30: A script extension is requested only after the address of the script answered with a status
  below 400; if it never did, the result is \<^verbatim>\<open>False\<close> and there is no exception.
\<close>

theorem script_extension_needs_reachable_url:
  assumes "retry_law E" "exec (create_script_extension E l g n t url c timeout tags) es out"
  shows "track (checked_first url) (False, False) es \<noteq> None \<and>
    (list_ex (reachable url) es \<or> out = Ok (RBool False))"
proof -
  from wpD [OF wp_create_script_extension [OF assms(1)] assms(2)]
  obtain s' where s': "track (checked_first url) (False, False) es = Some s'"
      "post (\<lambda>r s. snd s \<or> r = RBool False) (\<lambda>_. snd) snd out s'" by blast
  from track_ever [OF this(1)] this(2) show ?thesis
    using s'(1) by (cases out) auto
qed

lemma sample_extension_run:
  "exec (create_script_extension sample_env ''westus'' ''rg'' ''vm1'' Linux ''http://a/b.sh'' ''run'' 60 [])
     [(Runtime (HttpHead ''http://a/b.sh''), Inr (RInt 404))] (Ok (RBool False))"
  by (rule exec_replay [where vs = "[Inr (RInt 404)]"]) code_simp

theorem script_extension_needs_reachable_url_witness:
  "track (checked_first ''http://a/b.sh'') (False, False) [(Runtime (HttpHead ''http://a/b.sh''), Inr (RInt 404))] \<noteq> None \<and>
   (list_ex (reachable ''http://a/b.sh'') [(Runtime (HttpHead ''http://a/b.sh''), Inr (RInt 404))] \<or>
    Ok (RBool False) = Ok (RBool False))"
  by (rule script_extension_needs_reachable_url [OF sample_env_law sample_extension_run])

section \<open>The command on Windows\<close>

lemma suffix_last_part:
  assumes "suffix p s" "c \<notin> set p"
  shows "suffix p (last_part c s)"
proof -
  from assms(1) obtain q where s: "s = q @ p" by (auto simp: suffix_def)
  show ?thesis
  proof (cases "c \<in> set q")
    case True
    then obtain q1 q2 where q: "q = q1 @ c # q2" "c \<notin> set q2" by (meson split_list_last)
    then have "last_part c s = q2 @ p"
      using assms(2) last_part_append [of c q1 "q2 @ p"] by (simp add: s last_part_idle)
    then show ?thesis by (auto simp: suffix_def)
  next
    case False
    then show ?thesis using assms(2) by (auto simp: s last_part_idle suffix_def)
  qed
qed

text \<open>
  If the script of a Windows machine passed the validation, the command of its extension runs
  a file whose name ends in \<^verbatim>\<open>ps1\<close> and has no slash, followed by the given configuration.
\<close>

lemma validated_windows_command:
  assumes "validate_script_extension Windows script_file conf = Inr ()"
  shows "\<exists>file_name. py_endswith file_name ''ps1'' \<and> CHR ''/'' \<notin> set file_name \<and>
    ep_command (prepare_windows_vm_script_extension location script_file conf tags) =
      ''powershell.exe -ExecutionPolicy Unrestricted -File '' @ file_name @ '' '' @ conf"
proof -
  let ?f = "rstrip_by (\<lambda>c. c = CHR ''/'') script_file"
  have "suffix ''ps1'' ?f"
    using assms by (simp add: validate_script_extension_def py_endswith_def split: if_splits)
  then have "suffix ''ps1'' (last_part (CHR ''/'') ?f)"
    by (rule suffix_last_part) simp
  then show ?thesis
    by (intro exI [of _ "last_part (CHR ''/'') ?f"])
      (simp add: py_endswith_def last_part_no_sep prepare_windows_vm_script_extension_def)
qed

theorem validated_windows_command_witness:
  "\<exists>file_name. py_endswith file_name ''ps1'' \<and> CHR ''/'' \<notin> set file_name \<and>
    ep_command (prepare_windows_vm_script_extension ''westus'' ''http://a/b.ps1/'' ''-x'' []) =
      ''powershell.exe -ExecutionPolicy Unrestricted -File '' @ file_name @ '' '' @ ''-x''"
  by (rule validated_windows_command) code_simp

end
