(* ===== verification/VmDetails.thy ===== *)
theory VmDetails
  imports VmService
begin

text \<open>
  \<^verbatim>\<open>domain/common/vm_details_provider.py\<close> and \<^verbatim>\<open>vm_management/operations/vm_details_operation.py\<close>:
  the description of virtual machines that CloudShell shows, for a list of machines.
\<close>

section \<open>VmDetailsProvider\<close>

text \<open>The result objects of \<^verbatim>\<open>cloudshell.cp.core.models\<close>; a property is a key with its value.\<close>

record vm_details_interface =
  vdi_interface_id :: string
  vdi_network_id :: string
  vdi_is_primary :: bool
  vdi_network_data :: dict
  vdi_private_ip_address :: string
  vdi_public_ip_address :: string

record vm_details_data =
  vdd_instance_data :: "dict option"
  vdd_network_data :: "vm_details_interface list option"
  vdd_error_message :: string
  vdd_app_name :: string

definition get_ip_from_interface_name :: "string \<Rightarrow> string" where
  "get_ip_from_interface_name interface_name = interface_name @ ''_PublicIP''"

text \<open>\<^verbatim>\<open>managed_disk.storage_account_type\<close>, and what it is called.\<close>

definition disk_type_name :: "os_disk \<Rightarrow> exn + string" where
  "disk_type_name disk = (case od_managed_disk disk of
     None \<Rightarrow> Inl (none_attribute ''storage_account_type'')
   | Some t \<Rightarrow> Inr (if t = Some StandardLRS then ''HDD'' else ''SSD''))"

definition get_vm_instance_data_for_market_place :: "vm \<Rightarrow> exn + dict" where
  "get_vm_instance_data_for_market_place instnc =
     (case disk_type_name (vm_os_disk instnc) of Inl e \<Rightarrow> Inl e | Inr disk_type \<Rightarrow> Inr
       [(''Image Publisher'', ir_publisher (vm_image_reference instnc)),
        (''Image Offer'', ir_offer (vm_image_reference instnc)),
        (''Image SKU'', ir_sku (vm_image_reference instnc)),
        (''VM Size'', vm_vm_size instnc),
        (''Operating System'', od_os_type (vm_os_disk instnc)),
        (''Disk Type'', disk_type)])"

definition get_vm_instance_data_for_custom_image :: "vm \<Rightarrow> exn + dict" where
  "get_vm_instance_data_for_custom_image instnc =
     (let image_name = get_image_name (ir_id (vm_image_reference instnc)) in
      case get_resource_group_name (ir_id (vm_image_reference instnc)) of
        Inl e \<Rightarrow> Inl e
      | Inr resource_group \<Rightarrow>
     (case disk_type_name (vm_os_disk instnc) of Inl e \<Rightarrow> Inl e | Inr disk_type \<Rightarrow> Inr
       [(''Image'', image_name),
        (''Image Resource Group'', resource_group),
        (''VM Size'', vm_vm_size instnc),
        (''Operating System'', od_os_type (vm_os_disk instnc)),
        (''Disk Type'', disk_type)]))"

definition get_vm_interface_data :: "env \<Rightarrow> string \<Rightarrow> nic_ref \<Rightarrow> vm_details_interface prog" where
  "get_vm_interface_data E group_name network_interface =
     (let name = get_name_from_resource_id (nr_id network_interface) in
      bnd (bnd (call (Network (GetNic group_name name))) (expect as_nic)) (\<lambda>n.
      bnd (first (nic_ip_configurations n)) (\<lambda>ip_configuration.
      (let private_ip = ipc_private_ip_address ip_configuration; public_ip = []; network_data = [(''IP'', private_ip)];
           subnet_name = last_part (CHR ''/'') (ipc_subnet_id ip_configuration) in
      bnd (if ipc_public_ip_address ip_configuration \<noteq> None
           then bnd (bnd (get_public_ip E group_name (get_ip_from_interface_name name))
             (expect as_public_ip)) (\<lambda>public_ip_object.
             Return (network_data @ [(''Public IP'', pip_ip_address public_ip_object),
               (''Public IP Type'', pip_allocation_method public_ip_object)]))
           else Return network_data) (\<lambda>network_data.
      Return \<lparr>vdi_interface_id = nic_resource_guid n, vdi_network_id = subnet_name,
        vdi_is_primary = nic_primary n,
        vdi_network_data = network_data @ [(''MAC Address'', nic_mac_address n)],
        vdi_private_ip_address = private_ip, vdi_public_ip_address = public_ip\<rparr>)))))"

definition get_vm_network_data :: "env \<Rightarrow> vm \<Rightarrow> string \<Rightarrow> vm_details_interface list prog" where
  "get_vm_network_data E instnc group_name =
     map_prog (get_vm_interface_data E group_name) (vm_network_interfaces instnc)"

definition vm_details_create :: "env \<Rightarrow> vm \<Rightarrow> bool \<Rightarrow> string \<Rightarrow> vm_details_data prog" where
  "vm_details_create E instnc is_market_place group_name =
     (case (if is_market_place then get_vm_instance_data_for_market_place instnc
            else get_vm_instance_data_for_custom_image instnc) of
        Inl e \<Rightarrow> Raise e
      | Inr vm_instance_data \<Rightarrow>
          bnd (get_vm_network_data E instnc group_name) (\<lambda>vm_network_data.
          Return \<lparr>vdd_instance_data = Some vm_instance_data,
            vdd_network_data = Some vm_network_data, vdd_error_message = [], vdd_app_name = []\<rparr>))"

section \<open>VmDetailsOperation\<close>

text \<open>The name of the machine and the names of the attributes of its deployment service.\<close>

record details_request =
  dr_app_name :: string
  dr_attributes :: "string list"

definition get_one_vm_details :: "env \<Rightarrow> string \<Rightarrow> details_request \<Rightarrow> vm_details_data prog" where
  "get_one_vm_details E group_name request =
     (let name = dr_app_name request;
          is_market_place = filter (\<lambda>x. x = ''Image SKU'') (dr_attributes request) \<noteq> [] in
      bnd (catch (bnd (bnd (get_vm E group_name name) (expect as_vm)) (\<lambda>machine.
          vm_details_create E machine is_market_place group_name))
        (\<lambda>e. Return \<lparr>vdd_instance_data = None, vdd_network_data = None,
          vdd_error_message = exn_message e, vdd_app_name = []\<rparr>)) (\<lambda>result.
      Return (result\<lparr>vdd_app_name := name\<rparr>)))"

fun get_vm_details :: "env \<Rightarrow> string \<Rightarrow> details_request list \<Rightarrow> vm_details_data list prog" where
  "get_vm_details E group_name [] = Return []"
| "get_vm_details E group_name (request # requests) =
     bnd (bnd (call (Runtime IsCancelled)) (expect as_bool)) (\<lambda>is_cancelled.
     if is_cancelled then Return []
     else bnd (get_one_vm_details E group_name request) (\<lambda>result.
       bnd (get_vm_details E group_name requests) (\<lambda>results. Return (result # results))))"

section \<open>Which calls the methods make\<close>

lemma emits_vm_details_create:
  assumes "retry_law E" "\<And>n v. P (Network (GetNic g n), v)" "\<And>n v. P (Network (GetPublicIp g n), v)"
  shows "emits P (vm_details_create E m market g)"
  unfolding vm_details_create_def get_vm_network_data_def get_vm_interface_data_def get_public_ip_def Let_def
  by (auto intro!: emits_intros retried_intros assms split: sum.split)

lemma halts_vm_details_create [halts_intros]:
  assumes "retry_law E"
  shows "halts (vm_details_create E m market g)"
  unfolding vm_details_create_def get_vm_network_data_def get_vm_interface_data_def Let_def
  by (auto intro!: halts_intros assms split: sum.split)

lemma halts_get_one_vm_details [halts_intros]:
  "retry_law E \<Longrightarrow> halts (get_one_vm_details E g r)"
  unfolding get_one_vm_details_def Let_def by (auto intro!: halts_intros)

lemma emits_get_one_vm_details:
  assumes "retry_law E" "\<And>q v. P (Network q, v)" "\<And>q v. P (Compute q, v)"
  shows "emits P (get_one_vm_details E g r)"
  unfolding get_one_vm_details_def Let_def
  by (auto intro!: emits_intros emits_get_vm emits_vm_details_create assms)

section \<open>One result per machine\<close>

lemma wp_tape_halts: "halts p \<Longrightarrow> wp tape p (\<lambda>_ _. True) (\<lambda>_ _. True) (\<lambda>_. False) s"
  unfolding wp_iff
proof (intro allI impI)
  fix es out assume "halts p" "exec p es out"
  then show "\<exists>s'. track tape s es = Some s' \<and> post (\<lambda>_ _. True) (\<lambda>_ _. True) (\<lambda>_. False) out s'"
    by (cases out) (auto simp: track_tape dest: haltsD)
qed

lemma wp_get_one_vm_details:
  assumes "retry_law E"
  shows "wp tape (get_one_vm_details E g r) (\<lambda>d _. vdd_app_name d = dr_app_name r) (\<lambda>_ _. False) (\<lambda>_. False) s"
  unfolding get_one_vm_details_def Let_def wp_bnd [of _ "catch _ _"] wp_catch
  by (rule wp_mono [OF wp_tape_halts]) (auto intro!: halts_intros assms simp: wp_simps)

text \<open>The results for the first \<open>k\<close> machines; fewer than all only after a cancellation was seen.\<close>

definition details_of :: "details_request list \<Rightarrow> vm_details_data list \<Rightarrow> event list \<Rightarrow> bool" where
  "details_of rs ds es \<longleftrightarrow> (\<exists>k \<le> length rs. map vdd_app_name ds = map dr_app_name (take k rs) \<and>
     (k < length rs \<longrightarrow> es \<noteq> [] \<and> last es = cancelled))"

lemma wp_get_vm_details:
  assumes "retry_law E"
  shows "wp tape (get_vm_details E g rs) (details_of rs)
     (\<lambda>_ t. \<exists>t0 v. t = t0 @ [(Runtime IsCancelled, v)]) (\<lambda>_. False) s"
proof (induction rs arbitrary: s)
  case Nil
  show ?case by (simp add: details_of_def)
next
  case (Cons r rs)
  have tail: "wp tape (bnd (get_vm_details E g rs) (\<lambda>ds. Return (d # ds))) (details_of (r # rs))
     (\<lambda>_ t. \<exists>t0 v. t = t0 @ [(Runtime IsCancelled, v)]) (\<lambda>_. False) s"
    if "vdd_app_name d = dr_app_name r" for d s
    unfolding wp_bnd
  proof (rule wp_mono [OF Cons.IH])
    fix ds t assume "details_of rs ds t"
    then obtain k where "k \<le> length rs" "map vdd_app_name ds = map dr_app_name (take k rs)"
      "k < length rs \<longrightarrow> t \<noteq> [] \<and> last t = cancelled" by (auto simp: details_of_def)
    then show "wp tape (Return (d # ds)) (details_of (r # rs))
     (\<lambda>_ t. \<exists>t0 v. t = t0 @ [(Runtime IsCancelled, v)]) (\<lambda>_. False) t"
      using that by (auto simp: details_of_def intro!: exI [of _ "Suc k"])
  qed auto
  have step: "wp tape (bnd (get_one_vm_details E g r) (\<lambda>d. bnd (get_vm_details E g rs) (\<lambda>ds. Return (d # ds))))
     (details_of (r # rs)) (\<lambda>_ t. \<exists>t0 v. t = t0 @ [(Runtime IsCancelled, v)]) (\<lambda>_. False) s" for s
    unfolding wp_bnd [of _ "get_one_vm_details _ _ _"]
    by (rule wp_mono [OF wp_get_one_vm_details [OF assms]]) (auto intro: tail)
  have stopped: "details_of (r # rs) [] (s @ [cancelled])" for s
    by (auto simp: details_of_def intro!: exI [of _ 0])
  show ?case
    unfolding get_vm_details.simps wp_bnd [of _ "bnd _ _"]
    by (auto simp: wp_simps as_bool_Some stopped intro: step [unfolded wp_bnd wp.simps] split: option.split)
qed


definition sample_details_requests :: "details_request list" where
  "sample_details_requests = [\<lparr>dr_app_name = ''vm1'', dr_attributes = []\<rparr>,
     \<lparr>dr_app_name = ''vm2'', dr_attributes = [''Image SKU'']\<rparr>]"

definition sample_details :: "vm_details_data list" where
  "sample_details = [\<lparr>vdd_instance_data = None, vdd_network_data = None,
     vdd_error_message = ''no vm'', vdd_app_name = ''vm1''\<rparr>]"

definition sample_details_run :: "event list" where
  "sample_details_run =
    [(Runtime IsCancelled, Inr (RBool False)),
     (Compute (GetVm ''rg'' ''vm1''), Inl (CloudError ''Not Found'' ''no vm'' [])),
     (Runtime IsCancelled, Inr (RBool True))]"

lemma sample_details_exec:
  "exec (get_vm_details sample_env ''rg'' sample_details_requests) sample_details_run (Ok sample_details)"
  by (rule exec_replay [where vs = "map snd sample_details_run"]) code_simp


section \<open>The addresses of an interface\<close>

text \<open>
  The details of an interface never show a public address in their own field for it, even when
  the interface has one, which was looked up and is in the network data.
\<close>

lemma public_ip_field_empty:
  assumes "exec (get_vm_interface_data E g nir) es (Ok d)"
  shows "vdi_public_ip_address d = [] \<and>
    map_of (vdi_network_data d) ''IP'' = Some (vdi_private_ip_address d)"
proof -
  have "yields (\<lambda>d. vdi_public_ip_address d = [] \<and>
      map_of (vdi_network_data d) ''IP'' = Some (vdi_private_ip_address d)) (get_vm_interface_data E g nir)"
    unfolding get_vm_interface_data_def Let_def
    by (rule yields_bnd [OF yields_any], rule yields_bnd [OF yields_any],
        rule yields_bnd [where R = "\<lambda>nd. map_of nd ''IP'' = Some (ipc_private_ip_address _)"])
      (auto intro!: yields_bnd [OF yields_any] simp: yields_simps map_add_def)
  then show ?thesis using assms by (rule yieldsD)
qed

definition sample_public_nic :: nic where
  "sample_public_nic = (sample_nic ''vm1-0'')\<lparr>nic_ip_configurations :=
     [\<lparr>ipc_private_ip_address = ''10.0.0.5'', ipc_private_ip_allocation_method = DynamicAllocation,
       ipc_public_ip_address = Some ''/ips/vm1-0_PublicIP'', ipc_subnet_id = ''/subnets/s1''\<rparr>]\<rparr>"

definition sample_public_ip :: public_ip where
  "sample_public_ip = \<lparr>pip_id = ''/ips/vm1-0_PublicIP'', pip_ip_address = ''52.0.0.1'',
     pip_allocation_method = ''Static''\<rparr>"

definition sample_interface :: vm_details_interface where
  "sample_interface = \<lparr>vdi_interface_id = ''g'', vdi_network_id = ''s1'', vdi_is_primary = False,
     vdi_network_data = [(''IP'', ''10.0.0.5''), (''Public IP'', ''52.0.0.1''),
       (''Public IP Type'', ''Static''), (''MAC Address'', ''m'')],
     vdi_private_ip_address = ''10.0.0.5'', vdi_public_ip_address = []\<rparr>"

lemma sample_interface_run:
  "exec (get_vm_interface_data sample_env ''rg'' \<lparr>nr_id = ''/nics/vm1-0'', nr_primary = True\<rparr>)
     [(Network (GetNic ''rg'' ''vm1-0''), Inr (RNic sample_public_nic)),
      (Network (GetPublicIp ''rg'' ''vm1-0_PublicIP''), Inr (RPublicIp sample_public_ip))]
     (Ok sample_interface)"
  by (rule exec_replay [where vs = "[Inr (RNic sample_public_nic), Inr (RPublicIp sample_public_ip)]"]) code_simp

lemma public_ip_field_empty_witness:
  "vdi_public_ip_address sample_interface = [] \<and>
   map_of (vdi_network_data sample_interface) ''IP'' = Some (vdi_private_ip_address sample_interface)"
  by (rule public_ip_field_empty [OF sample_interface_run])

end
