(* ===== verification/DeleteVm.thy ===== *)
theory DeleteVm
  imports VmService Storage LockService
begin

text \<open>
  \<^verbatim>\<open>domain/vm_management/operations/delete_operation.py\<close>: the cleanup of a sandbox and the deletion
  of a virtual machine with everything that belongs to it.
\<close>

section \<open>Cleanup of the connectivity of a sandbox\<close>

definition find_sandbox_subnets :: "string \<Rightarrow> vnet option \<Rightarrow> exn + subnet list" where
  "find_sandbox_subnets resource_group_name sandbox_virtual_network =
     (case sandbox_virtual_network of
        None \<Rightarrow> Inl (none_attribute ''subnets'')
      | Some v \<Rightarrow> Inr (filter (\<lambda>s. py_startswith (sn_name s) resource_group_name) (vn_subnets v)))"

definition detach_subnet :: "env \<Rightarrow> string \<Rightarrow> string \<Rightarrow> subnet \<Rightarrow> unit prog" where
  "detach_subnet E management_group_name vnet_name s =
     with_lock SubnetLocker (thn (update_subnet E management_group_name vnet_name (sn_name s)
       (s\<lparr>sn_network_security_group := None, sn_route_table := None\<rparr>)) (Return ()))"

definition remove_nsg_and_routetable_from_subnets :: "env \<Rightarrow> string \<Rightarrow> cloud_provider \<Rightarrow> unit prog" where
  "remove_nsg_and_routetable_from_subnets E resource_group_name cp =
     bnd (get_sandbox_virtual_network E (cp_management_group_name cp)) (\<lambda>sandbox_virtual_network.
     case find_sandbox_subnets resource_group_name sandbox_virtual_network of
       Inl e \<Rightarrow> Raise e
     | Inr subnets \<Rightarrow> for_each (detach_subnet E (cp_management_group_name cp)
         (vn_name (the sandbox_virtual_network))) subnets)"

definition delete_resource_group_command :: "env \<Rightarrow> string \<Rightarrow> unit prog" where
  "delete_resource_group_command E group_name =
     thn (delete_resource_group E group_name) (Return ())"

definition delete_one_subnet :: "env \<Rightarrow> string \<Rightarrow> string \<Rightarrow> subnet \<Rightarrow> unit prog" where
  "delete_one_subnet E management_group_name vnet_name s =
     with_lock SubnetLocker
       (thn (delete_subnet E management_group_name vnet_name (sn_name s)) (Return ()))"

definition delete_sandbox_subnets :: "env \<Rightarrow> string \<Rightarrow> cloud_provider \<Rightarrow> unit prog" where
  "delete_sandbox_subnets E resource_group_name cp =
     bnd (get_sandbox_virtual_network E (cp_management_group_name cp)) (\<lambda>sandbox_virtual_network.
     case find_sandbox_subnets resource_group_name sandbox_virtual_network of
       Inl e \<Rightarrow> Raise e
     | Inr subnets \<Rightarrow> for_each (delete_one_subnet E (cp_management_group_name cp)
         (vn_name (the sandbox_virtual_network))) subnets)"

record cleanup_action =
  ca_type :: string
  ca_action_id :: string

record cleanup_result =
  cr_success :: bool
  cr_action_id :: string
  cr_error_message :: "string option"

text \<open>One command of the cleanup: the list of the error messages it adds.\<close>

definition run_cleanup_command :: "unit prog \<Rightarrow> string list prog" where
  "run_cleanup_command command = try_else command (\<lambda>e. Return [exn_message e]) (\<lambda>_. Return [])"

definition SANDBOX_LOCK_KEY :: "string \<Rightarrow> string" where
  "SANDBOX_LOCK_KEY reservation_id = reservation_id @ ''-available-private-ip-key''"

text \<open>The locks of the sandbox are dropped and the result is put together.\<close>

definition finish_cleanup :: "string \<Rightarrow> string \<Rightarrow> string list \<Rightarrow> cleanup_result prog" where
  "finish_cleanup resource_group_name action_id errors =
     thn (thn (remove_lock_resource resource_group_name)
       (remove_lock_resource (SANDBOX_LOCK_KEY resource_group_name)))
     (Return \<lparr>cr_success = (errors = []), cr_action_id = action_id,
        cr_error_message = (if errors = [] then None else Some
          (''CleanupSandboxInfra ended with the error(s): '' @ py_repr_list errors))\<rparr>)"

definition cleanup_connectivity ::
  "env \<Rightarrow> cloud_provider \<Rightarrow> string \<Rightarrow> cleanup_action list \<Rightarrow> cleanup_result prog"
where
  "cleanup_connectivity E cp resource_group_name actions =
     (case filter (\<lambda>x. ca_type x = ''cleanupNetwork'') actions of
        [] \<Rightarrow> Raise StopIteration
      | a # _ \<Rightarrow>
     bnd (run_cleanup_command (remove_nsg_and_routetable_from_subnets E resource_group_name cp)) (\<lambda>errors1.
     bnd (run_cleanup_command (delete_resource_group_command E resource_group_name)) (\<lambda>errors2.
     bnd (run_cleanup_command (delete_sandbox_subnets E resource_group_name cp)) (\<lambda>errors3.
     finish_cleanup resource_group_name (ca_action_id a) (errors1 @ errors2 @ errors3)))))"

section \<open>Deletion of a virtual machine\<close>

definition delete_vhd_disk :: "env \<Rightarrow> string \<Rightarrow> string \<Rightarrow> unit prog" where
  "delete_vhd_disk E group_name vhd_url =
     (case parse_blob_url vhd_url of
        Inl e \<Rightarrow> Raise e
      | Inr url_model \<Rightarrow> delete_blob E group_name (bu_storage_name url_model)
          (bu_container_name url_model) (bu_blob_name url_model))"

definition delete_managed_disk_command :: "env \<Rightarrow> string \<Rightarrow> string \<Rightarrow> unit prog" where
  "delete_managed_disk_command E group_name managed_disk_name =
     thn (delete_managed_disk E group_name managed_disk_name) (Return ())"

definition delete_vm_disk :: "env \<Rightarrow> string \<Rightarrow> vm \<Rightarrow> unit prog" where
  "delete_vm_disk E group_name machine =
     (case od_vhd_uri (vm_os_disk machine) of
        Some uri \<Rightarrow> delete_vhd_disk E group_name uri
      | None \<Rightarrow> if od_managed_disk (vm_os_disk machine) \<noteq> None
          then delete_managed_disk_command E group_name (od_name (vm_os_disk machine))
          else Raise (ValueError (''Supported os data disk not found in VM '' @ vm_name machine @
            '' so cannot delete data disk'')))"

text \<open>The names of the public addresses, and the private addresses to be given back.\<close>

definition public_ip_names_of :: "nic list \<Rightarrow> string list" where
  "public_ip_names_of network_interfaces = concat (map (\<lambda>n. case nic_ip_configurations n of
      [] \<Rightarrow> []
    | c # _ \<Rightarrow> (case ipc_public_ip_address c of
        None \<Rightarrow> []
      | Some i \<Rightarrow> [last_part (CHR ''/'') i])) network_interfaces)"

fun private_ips_of :: "nic list \<Rightarrow> exn + string list" where
  "private_ips_of [] = Inr []"
| "private_ips_of (n # ns) = (case nic_ip_configurations n of
      [] \<Rightarrow> Inl IndexError
    | c # _ \<Rightarrow> (case private_ips_of ns of
        Inl e \<Rightarrow> Inl e
      | Inr ips \<Rightarrow> Inr (if is_static_allocation (AllocationEnum (ipc_private_ip_allocation_method c))
          then ipc_private_ip_address c # ips else ips)))"

text \<open>A command that fails because the resource is not there counts as done.\<close>

definition is_cloud_error :: "exn \<Rightarrow> bool" where
  "is_cloud_error e \<longleftrightarrow> (case e of CloudError r m t \<Rightarrow> True | _ \<Rightarrow> False)"

definition is_not_found :: "exn \<Rightarrow> bool" where
  "is_not_found e \<longleftrightarrow> (case e of CloudError r m t \<Rightarrow> r = ''Not Found'' | _ \<Rightarrow> False)"

definition run_delete_command :: "unit prog \<Rightarrow> unit prog" where
  "run_delete_command command =
     catch command (\<lambda>e. if is_not_found e then Return () else Raise e)"

definition delete_vm_step :: "env \<Rightarrow> string \<Rightarrow> string \<Rightarrow> unit prog" where
  "delete_vm_step E group_name name = thn (delete_vm E group_name name) (Return ())"

definition delete_nics_step :: "env \<Rightarrow> string \<Rightarrow> string list \<Rightarrow> unit prog" where
  "delete_nics_step E group_name interface_names = thn (delete_nics E group_name interface_names) (Return ())"

definition delete_public_ip_step :: "env \<Rightarrow> string \<Rightarrow> string list \<Rightarrow> unit prog" where
  "delete_public_ip_step E group_name public_ip_names = thn (delete_ips E group_name public_ip_names) (Return ())"

definition delete_commands :: "env \<Rightarrow> string \<Rightarrow> string \<Rightarrow> string list \<Rightarrow> string list \<Rightarrow> unit prog list" where
  "delete_commands E group_name name network_interface_names public_ip_names =
     [delete_vm_step E group_name name, delete_nics_step E group_name network_interface_names,
      delete_public_ip_step E group_name public_ip_names]"

lemmas delete_steps = delete_commands_def delete_vm_step_def delete_nics_step_def delete_public_ip_step_def

text \<open>What is read first: the commands to run, and the addresses to give back.\<close>

definition network_interface_names_of :: "vm \<Rightarrow> string list" where
  "network_interface_names_of machine =
     map (\<lambda>nir. last_part (CHR ''/'') (nr_id nir)) (vm_network_interfaces machine)"

definition plan_delete :: "env \<Rightarrow> string \<Rightarrow> string \<Rightarrow> (unit prog list \<times> string list) prog" where
  "plan_delete E group_name name =
     bnd (bnd (call (Compute (GetVm group_name name))) (expect as_vm)) (\<lambda>machine.
     (let network_interface_names = network_interface_names_of machine in
     bnd (map_prog (\<lambda>nin. bnd (call (Network (GetNic group_name nin))) (expect as_nic))
       network_interface_names) (\<lambda>network_interfaces.
     (let public_ip_names = public_ip_names_of network_interfaces;
          commands = delete_commands E group_name name network_interface_names public_ip_names in
     case private_ips_of network_interfaces of
       Inl e \<Rightarrow> Raise e
     | Inr private_ips \<Rightarrow>
     try_else (bnd (get_vm E group_name name) (expect as_vm))
       (\<lambda>e. if is_cloud_error e then Return (commands, private_ips) else Raise e)
       (\<lambda>machine. Return (commands @ [delete_vm_disk E group_name machine], private_ips))))))"

definition delete :: "env \<Rightarrow> string \<Rightarrow> string \<Rightarrow> unit prog" where
  "delete E group_name name =
     bnd (plan_delete E group_name name) (\<lambda>(commands, private_ips).
     thn (for_each run_delete_command commands)
     (thn (delete_nsg_artifacts_associated_with_vm E group_name name)
     (catch (only_if (private_ips \<noteq> []) (release_ips group_name private_ips None))
       (\<lambda>_. Return ()))))"

section \<open>Which calls the commands make\<close>

lemma halts_delete_operation [halts_intros]:
  assumes "retry_law E"
  shows "halts (remove_nsg_and_routetable_from_subnets E rg cp)" "halts (delete_resource_group_command E rg)"
    "halts (delete_sandbox_subnets E rg cp)" "halts (cleanup_connectivity E cp rg actions)"
    "halts (delete_vm_disk E g m)"
  unfolding remove_nsg_and_routetable_from_subnets_def detach_subnet_def delete_resource_group_command_def
    delete_sandbox_subnets_def delete_one_subnet_def cleanup_connectivity_def run_cleanup_command_def finish_cleanup_def
    delete_vm_disk_def delete_vhd_disk_def delete_managed_disk_command_def Let_def
  by (auto intro!: halts_intros assms split: sum.split list.split option.split)

text \<open>The plans: the three commands, the disk of the machine unless it was not found.\<close>

definition is_plan :: "env \<Rightarrow> string \<Rightarrow> string \<Rightarrow> unit prog list \<Rightarrow> string list \<Rightarrow> bool" where
  "is_plan E g name commands ips \<longleftrightarrow> (\<exists>machine nics disk.
     commands = delete_commands E g name (network_interface_names_of machine) (public_ip_names_of nics) @ disk \<and>
     (disk = [] \<or> (\<exists>m. disk = [delete_vm_disk E g m])) \<and> private_ips_of nics = Inr ips)"

lemma yields_plan_delete: "yields (\<lambda>(commands, ips). is_plan E g name commands ips) (plan_delete E g name)"
  unfolding plan_delete_def Let_def
  by (rule yields_bnd [OF yields_any], rule yields_bnd [OF yields_any])
    (auto intro!: yields_try_else simp: yields_simps is_plan_def split: sum.split, blast+)

lemma halts_plan_command:
  "retry_law E \<Longrightarrow> is_plan E g name commands ips \<Longrightarrow> p \<in> set commands \<Longrightarrow> halts p"
  by (auto simp: is_plan_def delete_steps intro!: halts_intros)

lemma halts_delete [halts_intros]:
  assumes "retry_law E"
  shows "halts (delete E g name)"
proof -
  have "halts (plan_delete E g name)"
    unfolding plan_delete_def Let_def by (auto intro!: halts_intros assms split: sum.split)
  then show ?thesis
    unfolding delete_def
    by (rule halts_bnd_yields [OF _ yields_plan_delete])
      (auto simp: run_delete_command_def intro!: halts_intros assms dest: halts_plan_command [OF assms])
qed

section \<open>Every step of the cleanup runs\<close>

text \<open>The error messages of the outcomes of the commands.\<close>

definition outcome_errors :: "unit outcome list \<Rightarrow> string list" where
  "outcome_errors outs = concat (map (\<lambda>o'. case o' of Err e \<Rightarrow> [exn_message e] | _ \<Rightarrow> []) outs)"

lemma exec_cleanup_commandE:
  assumes "exec (bnd (run_cleanup_command p) f) es out" "halts p"
  obtains es1 o1 es2 where "exec p es1 o1" "o1 \<noteq> Hang" "exec (f (outcome_errors [o1])) es2 out" "es = es1 @ es2"
proof -
  from assms(1) have "(\<exists>u es1 es2. exec p es1 (Ok u) \<and> exec (f []) es2 out \<and> es = es1 @ es2) \<or>
      (\<exists>e es1 es2. exec p es1 (Err e) \<and> exec (f [exn_message e]) es2 out \<and> es = es1 @ es2) \<or> exec p es Hang"
    by (auto simp: run_cleanup_command_def exec_bnd exec_try_else exec_simps)
  with assms(2) show thesis
    using that [of _ "Ok ()"] that [of _ "Err _"] by (auto simp: outcome_errors_def dest: haltsD)
qed

lemma no_errors_iff: "o1 \<noteq> Hang \<Longrightarrow> outcome_errors [o1] = [] \<longleftrightarrow> o1 = Ok ()"
  by (cases o1) (auto simp: outcome_errors_def)

lemma outcome_errors_append: "outcome_errors [o1] @ outcome_errors outs = outcome_errors (o1 # outs)"
  by (simp add: outcome_errors_def)

text \<open>What a run of the cleanup is made of: the runs of the three steps, and what follows.\<close>

definition cleanup_run ::
  "env \<Rightarrow> cloud_provider \<Rightarrow> string \<Rightarrow> string \<Rightarrow> event list \<Rightarrow> cleanup_result outcome \<Rightarrow> bool"
where
  "cleanup_run E cp rg action_id es out \<longleftrightarrow> (\<exists>es1 es2 es3 es4 o1 o2 o3.
     es = es1 @ es2 @ es3 @ es4 \<and>
     exec (remove_nsg_and_routetable_from_subnets E rg cp) es1 o1 \<and>
     exec (delete_resource_group_command E rg) es2 o2 \<and>
     exec (delete_sandbox_subnets E rg cp) es3 o3 \<and>
     (\<forall>result. out = Ok result \<longrightarrow>
       exec (thn (remove_lock_resource rg) (remove_lock_resource (SANDBOX_LOCK_KEY rg))) es4 (Ok ()) \<and>
       cr_action_id result = action_id \<and>
       (cr_success result \<longleftrightarrow> o1 = Ok () \<and> o2 = Ok () \<and> o3 = Ok ()) \<and>
       cr_error_message result = (if cr_success result then None else Some
         (''CleanupSandboxInfra ended with the error(s): '' @ py_repr_list (outcome_errors [o1, o2, o3])))))"

text \<open>
  C23: The cleanup of a sandbox runs its three steps one after the other, whatever the earlier ones
  end with: security groups and route tables are taken off the subnets, the resource group is
  deleted, the subnets are deleted; then the two locks of the sandbox are removed. The result is a
  success exactly if no step failed, and its message has the messages of all steps that did.
\<close>

theorem cleanup_runs_every_step:
  assumes "retry_law E" "exec (cleanup_connectivity E cp rg actions) es out"
    and "filter (\<lambda>x. ca_type x = ''cleanupNetwork'') actions = a # others"
  shows "cleanup_run E cp rg (ca_action_id a) es out"
proof -
  note halts = halts_delete_operation [OF assms(1)]
  let ?locks = "thn (remove_lock_resource rg) (remove_lock_resource (SANDBOX_LOCK_KEY rg))"
  note run = assms(2) [unfolded cleanup_connectivity_def assms(3) list.case]
  from exec_cleanup_commandE [OF run halts(1)] obtain es1 o1 t1 where
    1: "exec (remove_nsg_and_routetable_from_subnets E rg cp) es1 o1" "o1 \<noteq> Hang" "es = es1 @ t1"
    and run1: "exec (bnd (run_cleanup_command (delete_resource_group_command E rg)) (\<lambda>errors2.
      bnd (run_cleanup_command (delete_sandbox_subnets E rg cp)) (\<lambda>errors3.
      finish_cleanup rg (ca_action_id a) (outcome_errors [o1] @ errors2 @ errors3)))) t1 out" by blast
  from exec_cleanup_commandE [OF run1 halts(2)] obtain es2 o2 t2 where
    2: "exec (delete_resource_group_command E rg) es2 o2" "o2 \<noteq> Hang" "t1 = es2 @ t2"
    and run2: "exec (bnd (run_cleanup_command (delete_sandbox_subnets E rg cp)) (\<lambda>errors3.
      finish_cleanup rg (ca_action_id a) (outcome_errors [o1] @ outcome_errors [o2] @ errors3))) t2 out" by blast
  from exec_cleanup_commandE [OF run2 halts(3)] obtain es3 o3 es4 where
    3: "exec (delete_sandbox_subnets E rg cp) es3 o3" "o3 \<noteq> Hang" "t2 = es3 @ es4"
    and run3: "exec (finish_cleanup rg (ca_action_id a)
      (outcome_errors [o1] @ outcome_errors [o2] @ outcome_errors [o3])) es4 out" by blast
  have errors: "outcome_errors [o1] @ outcome_errors [o2] @ outcome_errors [o3] = outcome_errors [o1, o2, o3]"
    by (simp add: outcome_errors_append)
  have success: "outcome_errors [o1, o2, o3] = [] \<longleftrightarrow> o1 = Ok () \<and> o2 = Ok () \<and> o3 = Ok ()"
    using no_errors_iff 1(2) 2(2) 3(2) by (simp flip: errors)
  have "exec ?locks es4 (Ok ()) \<and> cr_action_id result = ca_action_id a \<and>
       (cr_success result \<longleftrightarrow> o1 = Ok () \<and> o2 = Ok () \<and> o3 = Ok ()) \<and>
       cr_error_message result = (if cr_success result then None else Some
         (''CleanupSandboxInfra ended with the error(s): '' @ py_repr_list (outcome_errors [o1, o2, o3])))"
    if "out = Ok result" for result
    using run3 [unfolded errors finish_cleanup_def success] that by (auto simp: exec_bnd [of _ "\<lambda>_. Return _"] exec_simps)
  then show ?thesis
    unfolding cleanup_run_def using 1 2 3 by blast
qed

definition sample_cp :: cloud_provider where
  "sample_cp = \<lparr>cp_region = ''westus'', cp_vm_size = ''A1'', cp_management_group_name = ''mgmt'',
     cp_private_ip_allocation_method = ''Cloudshell Allocation'', cp_additional_mgmt_networks = []\<rparr>"

definition sample_cleanup_run :: "event list" where
  "sample_cleanup_run =
    [(Network (ListVnets ''mgmt''), Inr (RVnets [])),
     (Resource (DeleteResourceGroup ''rg''), Inr (RPoller 0)),
     (Poller (PollWait 0), Inr RNone),
     (Network (ListVnets ''mgmt''), Inl (CloudError ''Throttled'' ''slow down'' [])),
     (Memory (DictHas LockDictionary [''rg'']), Inr (RBool False)),
     (Memory (DictHas LockDictionary [''rg-available-private-ip-key'']), Inr (RBool False))]"

definition sample_cleanup_result :: cleanup_result where
  "sample_cleanup_result = \<lparr>cr_success = False, cr_action_id = ''a1'', cr_error_message = Some
     (''CleanupSandboxInfra ended with the error(s): '' @
       py_repr_list [exn_message (none_attribute ''subnets''), ''slow down''])\<rparr>"

lemma sample_cleanup_exec:
  "exec (cleanup_connectivity sample_env sample_cp ''rg''
      [\<lparr>ca_type = ''other'', ca_action_id = ''a0''\<rparr>, \<lparr>ca_type = ''cleanupNetwork'', ca_action_id = ''a1''\<rparr>])
     sample_cleanup_run (Ok sample_cleanup_result)"
  by (rule exec_replay [where vs = "map snd sample_cleanup_run"]) code_simp

theorem cleanup_runs_every_step_witness:
  "cleanup_run sample_env sample_cp ''rg'' ''a1'' sample_cleanup_run (Ok sample_cleanup_result)"
  using cleanup_runs_every_step [OF sample_env_law sample_cleanup_exec] by simp

section \<open>Which subnets the cleanup changes\<close>

text \<open>A change of a subnet takes off its group and table, or deletes it; its name starts as given.\<close>

fun subnet_change_ok :: "string \<Rightarrow> event \<Rightarrow> bool" where
  "subnet_change_ok rg (Network (PutSubnet _ _ n (UpdatedSubnet s)), _) \<longleftrightarrow>
     py_startswith n rg \<and> sn_network_security_group s = None \<and> sn_route_table s = None"
| "subnet_change_ok rg (Network (PutSubnet _ _ n (NewSubnet _ _)), _) \<longleftrightarrow> False"
| "subnet_change_ok rg (Network (DeleteSubnet _ _ n), _) \<longleftrightarrow> py_startswith n rg"
| "subnet_change_ok rg _ \<longleftrightarrow> True"

lemma found_subnets: "find_sandbox_subnets rg v = Inr ss \<Longrightarrow> s \<in> set ss \<Longrightarrow> py_startswith (sn_name s) rg"
  by (auto simp: find_sandbox_subnets_def split: option.splits)

lemma keeps_lock_cleanup_step:
  assumes "retry_law E" "\<And>v s. keeps_lock SubnetLocker is_subnet_change (f v s)"
  shows "keeps_lock SubnetLocker is_subnet_change (bnd (get_sandbox_virtual_network E m) (\<lambda>v.
     case find_sandbox_subnets rg v of Inl e \<Rightarrow> Raise e | Inr subnets \<Rightarrow> for_each (f v) subnets))"
proof -
  have "keeps_lock SubnetLocker is_subnet_change (get_sandbox_virtual_network E m)"
    by (intro keeps_lock_free emits_get_sandbox_virtual_network halts_intros assms(1))
      (simp add: lock_free_def)
  moreover have "keeps_lock SubnetLocker is_subnet_change
      (case find_sandbox_subnets rg v of Inl e \<Rightarrow> Raise e | Inr subnets \<Rightarrow> for_each (f v) subnets)" for v
    using assms(2) by (cases "find_sandbox_subnets rg v") (auto intro!: lock_intros)
  ultimately show ?thesis by (rule keeps_lock_bnd)
qed

lemma keeps_lock_remove_lock_resource: "keeps_lock SubnetLocker G (remove_lock_resource k)"
  if "\<And>m. \<not> G (Memory m)"
  using that unfolding remove_lock_resource_def has_lock_resource_def
  by (intro keeps_lock_free) (auto intro!: emits_intros halts_intros simp: lock_free_def)

lemma keeps_lock_cleanup:
  assumes "retry_law E"
  shows "keeps_lock SubnetLocker is_subnet_change (cleanup_connectivity E cp rg actions)"
proof -
  have untouched: "lock_untouched SubnetLocker (Network q, v)" "lock_untouched SubnetLocker (Poller q', v)" for q q' v
    by (simp_all add: lock_untouched_def)
  have one: "keeps_lock SubnetLocker is_subnet_change (detach_subnet E m n s)"
    "keeps_lock SubnetLocker is_subnet_change (delete_one_subnet E m n s)" for m n s
    unfolding detach_subnet_def delete_one_subnet_def
    by (intro keeps_lock_with_lock emits_intros halts_intros emits_update_subnet emits_delete_subnet
        untouched assms)+
  have steps: "keeps_lock SubnetLocker is_subnet_change (remove_nsg_and_routetable_from_subnets E rg cp)"
      "keeps_lock SubnetLocker is_subnet_change (delete_sandbox_subnets E rg cp)"
    unfolding remove_nsg_and_routetable_from_subnets_def delete_sandbox_subnets_def
    by (rule keeps_lock_cleanup_step [OF assms one(1)], rule keeps_lock_cleanup_step [OF assms one(2)])
  have rg: "keeps_lock SubnetLocker is_subnet_change (delete_resource_group_command E rg)"
    unfolding delete_resource_group_command_def
    by (intro keeps_lock_free emits_intros emits_resource_group halts_intros assms) (simp_all add: lock_free_def)
  show ?thesis
    unfolding cleanup_connectivity_def run_cleanup_command_def finish_cleanup_def
    by (auto intro!: lock_intros steps rg keeps_lock_remove_lock_resource split: list.split)
qed

lemma emits_cleanup_changes:
  assumes "retry_law E"
  shows "emits (subnet_change_ok rg) (cleanup_connectivity E cp rg actions)"
proof -
  have net: "emits (subnet_change_ok rg) (get_sandbox_virtual_network E m)" for m
    by (intro emits_get_sandbox_virtual_network assms) simp
  have step: "emits (subnet_change_ok rg) (detach_subnet E m n s)"
      "emits (subnet_change_ok rg) (delete_one_subnet E m n s)" if "py_startswith (sn_name s) rg" for m n s
    using that unfolding detach_subnet_def delete_one_subnet_def
    by (auto intro!: emits_intros emits_update_subnet emits_delete_subnet assms)
  have "emits (subnet_change_ok rg) (remove_nsg_and_routetable_from_subnets E rg cp)"
      "emits (subnet_change_ok rg) (delete_sandbox_subnets E rg cp)"
    unfolding remove_nsg_and_routetable_from_subnets_def delete_sandbox_subnets_def
    by (auto intro!: emits_intros net step dest: found_subnets split: sum.split)
  moreover have "emits (subnet_change_ok rg) (delete_resource_group_command E rg)"
    unfolding delete_resource_group_command_def
    by (intro emits_intros emits_resource_group assms) simp_all
  ultimately show ?thesis
    unfolding cleanup_connectivity_def run_cleanup_command_def finish_cleanup_def
    by (auto intro!: emits_intros split: list.split)
qed

text \<open>
  C24: The cleanup changes subnets of the shared network only under the lock of the subnets, which it
  gives back on every outcome, and only subnets whose names start with the name of the sandbox: it
  takes their security group and route table off or deletes them.
\<close>

theorem cleanup_changes_own_subnets_under_lock:
  assumes "retry_law E" "exec (cleanup_connectivity E cp rg actions) es out"
  shows "disciplined SubnetLocker is_subnet_change es \<and> list_all (subnet_change_ok rg) es \<and> out \<noteq> Hang"
  using keeps_lock_disciplined [OF keeps_lock_cleanup [OF assms(1)] assms(2)]
    emitsD [OF emits_cleanup_changes [OF assms(1)] assms(2)]
    halts_delete_operation(4) [OF assms(1)] assms(2)
  by (auto dest: haltsD)

theorem cleanup_changes_own_subnets_under_lock_witness:
  "disciplined SubnetLocker is_subnet_change sample_cleanup_run \<and>
   list_all (subnet_change_ok ''rg'') sample_cleanup_run \<and> Ok sample_cleanup_result \<noteq> Hang"
  by (rule cleanup_changes_own_subnets_under_lock [OF sample_env_law sample_cleanup_exec])

section \<open>What a deletion does\<close>

text \<open>
  A run of a command that counts as done: it returned, or the resource was not found. A run of the
  whole deletion: it reads the plan, does every command of it in order, deletes the artifacts in
  the security groups, and offers the static addresses, if there are any, to the pool.
\<close>

definition done_or_not_found :: "unit prog \<Rightarrow> event list \<Rightarrow> bool" where
  "done_or_not_found p es \<longleftrightarrow> exec p es (Ok ()) \<or> (\<exists>e. exec p es (Err e) \<and> is_not_found e)"

definition delete_run :: "env \<Rightarrow> string \<Rightarrow> string \<Rightarrow> event list \<Rightarrow> bool" where
  "delete_run E g name es \<longleftrightarrow> (\<exists>commands ips es0 ess es1 es2 r.
     is_plan E g name commands ips \<and>
     es = es0 @ concat ess @ es1 @ es2 \<and>
     list_all2 done_or_not_found commands ess \<and>
     exec (delete_nsg_artifacts_associated_with_vm E g name) es1 (Ok r) \<and>
     map fst es2 = (if ips = [] then []
       else [Session (ReleaseFromPool ips (get_pool_id g) g (get_pool_item_owner None))]))"

lemma exec_run_delete_command_Ok: "exec (run_delete_command p) es (Ok u) \<Longrightarrow> done_or_not_found p es"
  by (auto simp: run_delete_command_def done_or_not_found_def exec_catch exec_simps split: if_splits)

fun is_session_event :: "event \<Rightarrow> bool" where
  "is_session_event (Session _, _) \<longleftrightarrow> True"
| "is_session_event _ \<longleftrightarrow> False"

lemma emits_plan_command:
  assumes "retry_law E" "is_plan E g name commands ips" "p \<in> set commands"
  shows "emits (\<lambda>ev. \<not> is_session_event ev) p"
proof -
  have "emits (\<lambda>ev. \<not> is_session_event ev) (delete_vm_disk E g m)" for m
    unfolding delete_vm_disk_def delete_vhd_disk_def delete_managed_disk_command_def
    by (auto intro!: emits_intros emits_storage emits_delete_managed_disk assms(1) split: option.split sum.split)
  with assms(2,3) show ?thesis
    by (auto simp: is_plan_def delete_steps
      intro!: emits_intros emits_delete_vm emits_delete_nics emits_delete_ips assms(1))
qed

lemma release_at_the_end:
  assumes "exec (catch (only_if (ips \<noteq> []) (release_ips g ips None)) (\<lambda>_. Return ())) es out"
  shows "out = Ok () \<and> map fst es = (if ips = [] then []
    else [Session (ReleaseFromPool ips (get_pool_id g) g (get_pool_item_owner None))])"
  using assms by (auto simp: exec_catch release_ips_def exec_bnd exec_simps split: if_splits)

lemma delete_Ok:
  assumes "exec (delete E g name) es (Ok u)"
  shows "delete_run E g name es"
proof -
  obtain x es0 t0 where x: "exec (plan_delete E g name) es0 (Ok x)" "es = es0 @ t0"
    "exec (case x of (commands, ips) \<Rightarrow> thn (for_each run_delete_command commands)
      (thn (delete_nsg_artifacts_associated_with_vm E g name)
      (catch (only_if (ips \<noteq> []) (release_ips g ips None)) (\<lambda>_. Return ())))) t0 (Ok u)"
    using assms unfolding delete_def by (rule exec_bnd_OkE)
  obtain commands ips where "x = (commands, ips)" by (cases x)
  with x have
    0: "exec (plan_delete E g name) es0 (Ok (commands, ips))" "es = es0 @ t0" and
    run0: "exec (thn (for_each run_delete_command commands) (thn (delete_nsg_artifacts_associated_with_vm E g name)
      (catch (only_if (ips \<noteq> []) (release_ips g ips None)) (\<lambda>_. Return ())))) t0 (Ok u)"
    by simp_all
  obtain v t1 t2 where
    1: "exec (for_each run_delete_command commands) t1 (Ok v)" "t0 = t1 @ t2" and
    run1: "exec (thn (delete_nsg_artifacts_associated_with_vm E g name)
      (catch (only_if (ips \<noteq> []) (release_ips g ips None)) (\<lambda>_. Return ()))) t2 (Ok u)"
    using run0 by (rule exec_bnd_OkE)
  obtain r es1 es2 where
    2: "exec (delete_nsg_artifacts_associated_with_vm E g name) es1 (Ok r)" "t2 = es1 @ es2" and
    3: "exec (catch (only_if (ips \<noteq> []) (release_ips g ips None)) (\<lambda>_. Return ())) es2 (Ok u)"
    using run1 by (rule exec_bnd_OkE)
  from exec_for_each_Ok [OF 1(1)] obtain ess where ess: "t1 = concat ess"
      "list_all2 (\<lambda>c es'. \<exists>y. exec (run_delete_command c) es' (Ok y)) commands ess" by blast
  from ess(2) have "list_all2 done_or_not_found commands ess"
    by (rule list.rel_mono_strong) (auto dest: exec_run_delete_command_Ok)
  moreover have "is_plan E g name commands ips"
    using yieldsD [OF yields_plan_delete 0(1)] by simp
  moreover note release_at_the_end [OF 3]
  ultimately show ?thesis
    unfolding delete_run_def 0(2) 1(2) 2(2) ess(1) using 2(1) by blast
qed

lemma exec_bnd_Err_all:
  assumes "exec (bnd p f) es (Err e)" "emits P p"
    and "\<And>x es1 es2. exec p es1 (Ok x) \<Longrightarrow> exec (f x) es2 (Err e) \<Longrightarrow> list_all P es2"
  shows "list_all P es"
  using assms(1) by (rule exec_bndE) (use assms(2,3) in \<open>auto dest: emitsD\<close>)

lemma delete_Err:
  assumes "retry_law E" "exec (delete E g name) es (Err e)"
  shows "list_all (\<lambda>ev. \<not> is_session_event ev) es"
proof -
  let ?quiet = "\<lambda>ev. \<not> is_session_event ev"
  have plan: "emits ?quiet (plan_delete E g name)"
    unfolding plan_delete_def Let_def
    by (auto intro!: emits_intros emits_get_vm assms(1) split: sum.split)
  have nsg: "emits ?quiet (delete_nsg_artifacts_associated_with_vm E g name)"
    by (intro emits_delete_nsg_artifacts assms(1)) simp_all
  have commands: "emits ?quiet (for_each run_delete_command cs)" if "is_plan E g name cs ips" for cs ips
    using emits_plan_command [OF assms(1) that]
    by (auto simp: run_delete_command_def intro!: emits_intros)
  show ?thesis
    using assms(2) unfolding delete_def
  proof (rule exec_bnd_Err_all [OF _ plan])
    show "list_all ?quiet t" if "exec (plan_delete E g name) es1 (Ok x)"
      "exec (case x of (commands, ips) \<Rightarrow> thn (for_each run_delete_command commands)
        (thn (delete_nsg_artifacts_associated_with_vm E g name)
        (catch (only_if (ips \<noteq> []) (release_ips g ips None)) (\<lambda>_. Return ())))) t (Err e)" for x es1 t
    proof (cases x)
      case (Pair cs ips)
      have "is_plan E g name cs ips"
        using yieldsD [OF yields_plan_delete that(1)] Pair by simp
      note run = that(2) [unfolded Pair prod.case]
      show ?thesis
      proof (rule exec_bnd_Err_all [OF run commands [OF \<open>is_plan E g name cs ips\<close>]])
        show "list_all ?quiet t2" if run2: "exec (thn (delete_nsg_artifacts_associated_with_vm E g name)
            (catch (only_if (ips \<noteq> []) (release_ips g ips None)) (\<lambda>_. Return ()))) t2 (Err e)" for t2
          by (rule exec_bnd_Err_all [OF run2 nsg]) (auto dest: release_at_the_end)
      qed
    qed
  qed
qed


definition sample_vm :: vm where
  "sample_vm = \<lparr>vm_name = ''vm1'', vm_uuid = ''u1'', vm_provisioning_state = ''Succeeded'',
     vm_network_interfaces = [\<lparr>nr_id = ''/nics/vm1-0'', nr_primary = True\<rparr>],
     vm_os_disk = \<lparr>od_name = ''disk1'', od_vhd_uri = None, od_managed_disk = Some (Some StandardLRS), od_os_type = ''linux''\<rparr>,
     vm_image_reference = \<lparr>ir_id = [], ir_publisher = ''p'', ir_offer = ''o'', ir_sku = ''s''\<rparr>,
     vm_vm_size = ''A1''\<rparr>"

definition sample_static_nic :: nic where
  "sample_static_nic = (sample_nic ''vm1-0'')\<lparr>nic_ip_configurations :=
     [\<lparr>ipc_private_ip_address = ''10.0.0.5'', ipc_private_ip_allocation_method = StaticAllocation,
       ipc_public_ip_address = None, ipc_subnet_id = ''/subnets/s1''\<rparr>]\<rparr>"

definition sample_delete_run :: "event list" where
  "sample_delete_run =
    [(Compute (GetVm ''rg'' ''vm1''), Inr (RVm sample_vm)),
     (Network (GetNic ''rg'' ''vm1-0''), Inr (RNic sample_static_nic)),
     (Compute (GetVm ''rg'' ''vm1''), Inr (RVm sample_vm)),
     (Compute (DeleteVm ''rg'' ''vm1''), Inl (CloudError ''Not Found'' ''gone'' [])),
     (Network (DeleteNic ''rg'' ''vm1-0''), Inr (RPoller 1)),
     (Poller (PollWait 1), Inr RNone),
     (Compute (DeleteDisk ''rg'' ''disk1''), Inr (RPoller 2)),
     (Poller (PollResult 2), Inr RNone),
     (Network (ListNsgs ''rg''), Inr (RNsgs [])),
     (Session (ReleaseFromPool [''10.0.0.5''] ''rg-private-ips'' ''rg'' ''Azure-Shell''),
       Inl (PyException ''no such pool''))]"

lemma sample_delete_exec: "exec (delete sample_env ''rg'' ''vm1'') sample_delete_run (Ok ())"
  by (rule exec_replay [where vs = "map snd sample_delete_run"]) code_simp


section \<open>An interface without addresses stops the deletion\<close>

lemma private_ips_of_error: "n \<in> set ns \<Longrightarrow> nic_ip_configurations n = [] \<Longrightarrow> private_ips_of ns = Inl IndexError"
  by (induction ns) (auto split: list.splits)

lemma exec_get_nics:
  "length names = length nics \<Longrightarrow>
     exec (map_prog (\<lambda>nin. bnd (call (Network (GetNic g nin))) (expect as_nic)) names)
       (map2 (\<lambda>n nc. (Network (GetNic g n), Inr (RNic nc))) names nics) (Ok nics)"
proof (induction names nics rule: list_induct2)
  case (Cons n names nc nics)
  have "exec (bnd (call (Network (GetNic g n))) (expect as_nic)) [(Network (GetNic g n), Inr (RNic nc))] (Ok nc)"
    by (rule exec_replay [where vs = "[Inr (RNic nc)]"]) (simp add: call_def expect_def)
  from exec_bnd_OkI [OF this exec_bnd_OkI [OF Cons.IH exec_Return]] show ?case by simp
qed (simp add: exec_simps)

text \<open>
  C32: When one of the interfaces of a machine has no ip configuration, the deletion stops with an
  \<^verbatim>\<open>IndexError\<close> right after reading the interfaces: nothing is deleted, although such an interface
  is expected when the names of the public addresses are collected.
\<close>

theorem delete_stops_without_ip_configuration:
  assumes "length nics = length (vm_network_interfaces machine)"
    and "\<exists>nc \<in> set nics. nic_ip_configurations nc = []"
  shows "exec (delete E g name)
    ((Compute (GetVm g name), Inr (RVm machine)) #
      map2 (\<lambda>n nc. (Network (GetNic g n), Inr (RNic nc))) (network_interface_names_of machine) nics)
    (Err IndexError)"
proof -
  from assms(2) have err: "private_ips_of nics = Inl IndexError"
    using private_ips_of_error by blast
  have vm: "exec (bnd (call (Compute (GetVm g name))) (expect as_vm)) [(Compute (GetVm g name), Inr (RVm machine))] (Ok machine)"
    by (rule exec_replay [where vs = "[Inr (RVm machine)]"]) (simp add: call_def expect_def)
  have nics: "exec (map_prog (\<lambda>nin. bnd (call (Network (GetNic g nin))) (expect as_nic)) (network_interface_names_of machine))
      (map2 (\<lambda>n nc. (Network (GetNic g n), Inr (RNic nc))) (network_interface_names_of machine) nics) (Ok nics)"
    using assms(1) by (intro exec_get_nics) (simp add: network_interface_names_of_def)
  have "exec (plan_delete E g name) ([(Compute (GetVm g name), Inr (RVm machine))] @
      (map2 (\<lambda>n nc. (Network (GetNic g n), Inr (RNic nc))) (network_interface_names_of machine) nics @ []))
    (Err IndexError)"
    unfolding plan_delete_def Let_def
    by (intro exec_bnd_OkI [OF vm] exec_bnd_OkI [OF nics]) (simp add: err exec_Raise)
  then show ?thesis
    unfolding delete_def by (auto simp: exec_bnd [of "plan_delete E g name"])
qed

theorem delete_stops_without_ip_configuration_witness:
  "exec (delete sample_env ''rg'' ''vm1'')
    ((Compute (GetVm ''rg'' ''vm1''), Inr (RVm sample_vm)) #
      map2 (\<lambda>n nc. (Network (GetNic ''rg'' n), Inr (RNic nc)))
        (network_interface_names_of sample_vm) [sample_nic ''vm1-0''])
    (Err IndexError)"
  by (rule delete_stops_without_ip_configuration) (simp_all add: sample_vm_def sample_nic_def)

end
