(* ===== verification/Parallel.thy ===== *)
theory Parallel
  imports Monitor
begin

text \<open>
  A task that runs in a thread of its own beside the caller, as \<^verbatim>\<open>ThreadPool.apply_async\<close> starts
  it, and is joined at the end. Which thread makes the next call is decided by a schedule; every
  fact about all schedules holds for every interleaving. An exception of the caller ends it at
  once, with the task somewhere on its way; an exception of the task is kept for the join.
\<close>

section \<open>Programs beside each other\<close>

text \<open>\<open>True\<close> lets the task make a call, \<open>False\<close> the caller; at the end of the schedule the caller
  finishes first.\<close>

definition attempt :: "'a prog \<Rightarrow> (exn + 'a) prog" where
  "attempt p = try_else p (\<lambda>e. Return (Inl e)) (\<lambda>x. Return (Inr x))"

primrec par :: "bool list \<Rightarrow> 'a prog \<Rightarrow> 'b prog \<Rightarrow> ('a \<times> (exn + 'b)) prog" where
  "par [] p q = bnd p (\<lambda>x. bnd (attempt q) (\<lambda>r. Return (x, r)))"
| "par (b # sched) p q =
     (if b
      then (case q of
          Call a k \<Rightarrow> Call a (\<lambda>v. par sched p (k v))
        | _ \<Rightarrow> par sched p q)
      else (case p of
          Call a k \<Rightarrow> Call a (\<lambda>v. par sched (k v) q)
        | Raise e \<Rightarrow> Raise e
        | Diverge \<Rightarrow> Diverge
        | Return x \<Rightarrow> par sched p q))"

section \<open>What holds of all interleavings\<close>

lemma emits_Call_iff: "emits P (Call q k) \<longleftrightarrow> (\<forall>v. P (q, v) \<and> emits P (k v))"
proof
  assume P: "emits P (Call q k)"
  show "\<forall>v. P (q, v) \<and> emits P (k v)"
  proof (intro allI conjI emitsI)
    fix v
    obtain es out where "exec (k v) es out" using exec_total by blast
    from emitsD [OF P exec_Call [of k v, OF this]] show "P (q, v)" by simp
    show "list_all P es" if "exec (k v) es out" for es out
      using emitsD [OF P exec_Call [of k v, OF that]] by simp
  qed
next
  assume all: "\<forall>v. P (q, v) \<and> emits P (k v)"
  show "emits P (Call q k)"
  proof (rule emitsI)
    fix es out assume "exec (Call q k) es out"
    then obtain v es' where es: "es = (q, v) # es'" and run: "exec (k v) es' out"
      by (auto simp: exec_Call_iff)
    from all have "P (q, v)" "emits P (k v)" by blast+
    then show "list_all P es" using emitsD [OF _ run] es by simp
  qed
qed

lemma halts_Call_iff: "halts (Call q k) \<longleftrightarrow> (\<forall>v. halts (k v))"
  by (auto simp: halts_def exec_Call_iff)

lemma halts_Diverge [simp]: "\<not> halts Diverge"
  by (auto simp: halts_def exec_simps)

lemma emits_attempt [emits_intros]: "emits P p \<Longrightarrow> emits P (attempt p)"
  unfolding attempt_def by (auto intro!: emits_intros)

lemma halts_attempt [halts_intros]: "halts p \<Longrightarrow> halts (attempt p)"
  unfolding attempt_def by (auto intro!: halts_intros)

lemma emits_par [emits_intros]: "emits P p \<Longrightarrow> emits P q \<Longrightarrow> emits P (par sched p q)"
proof (induction sched arbitrary: p q)
  case Nil
  then show ?case by (auto intro!: emits_intros)
next
  case (Cons b sched)
  then show ?case
    by (cases p; cases q) (auto simp: emits_Call_iff intro: emits_intros)
qed

text \<open>
  What a monitor knows of the caller it knows of both, if it does not react to the task: the
  monitor state at the end is the one the caller left.
\<close>

lemma wp_par:
  assumes "wp step p N X D s" "emits (\<lambda>ev. \<forall>s. step s ev = Some s) q" "halts q"
  shows "wp step (par sched p q) (\<lambda>(x, r). N x) X D s"
  using assms
proof (induction sched arbitrary: p q s)
  case Nil
  have task: "wp step (attempt q) (\<lambda>r. N x) X D s" if "N x s" for x s
    unfolding attempt_def wp_try_else
    by (rule wp_stays) (use Nil.prems(2,3) that in \<open>auto elim!: emits_mono\<close>)
  from Nil.prems(1) show ?case
    by (simp add: wp_simps) (auto elim!: wp_mono intro: task)
next
  case (Cons b sched)
  show ?case
  proof (cases b)
    case True
    show ?thesis
    proof (cases q)
      case (Call a k)
      with Cons.prems have "step s (a, v) = Some s" "emits (\<lambda>ev. \<forall>s. step s ev = Some s) (k v)" "halts (k v)" for v
        by (auto simp: emits_Call_iff halts_Call_iff)
      with Cons.IH [OF Cons.prems(1)] True Call show ?thesis by simp
    qed (use True Cons in auto)
  next
    case False
    show ?thesis
    proof (cases p)
      case (Call a k)
      have "case step s (a, v) of None \<Rightarrow> False | Some s' \<Rightarrow> wp step (par sched (k v) q) (\<lambda>(x, r). N x) X D s'" for v
        using Cons.prems(1) Cons.IH [OF _ Cons.prems(2,3)] unfolding Call
        by (auto split: option.splits dest!: spec [of _ v])
      with False Call show ?thesis by simp
    qed (use False Cons in auto)
  qed
qed

lemma yields_Call_iff: "yields Q (Call a k) \<longleftrightarrow> (\<forall>v. yields Q (k v))"
  by (auto simp: yields_def exec_Call_iff)

lemma yields_par:
  "yields Q p \<Longrightarrow> yields R q \<Longrightarrow>
     yields (\<lambda>(x, r). Q x \<and> (\<forall>y. r = Inr y \<longrightarrow> R y)) (par sched p q)"
proof (induction sched arbitrary: p q)
  case Nil
  have "yields (\<lambda>r. \<forall>y. r = Inr y \<longrightarrow> R y) (attempt q)"
    using Nil.prems(2) by (auto simp: attempt_def yields_def exec_try_else exec_simps)
  with Nil.prems(1) show ?case
    by (auto intro!: yields_bnd [of Q] yields_bnd [of "\<lambda>r. \<forall>y. r = Inr y \<longrightarrow> R y"] simp: yields_simps)
next
  case (Cons b sched)
  then show ?case
    by (cases p; cases q) (auto simp: yields_Call_iff yields_simps)
qed

lemma halts_par [halts_intros]: "halts p \<Longrightarrow> halts q \<Longrightarrow> halts (par sched p q)"
proof (induction sched arbitrary: p q)
  case Nil
  then show ?case by (auto intro!: halts_intros)
next
  case (Cons b sched)
  then show ?case
    by (cases p; cases q) (auto simp: halts_Call_iff intro: halts_intros)
qed

lemma keeps_lock_par:
  assumes "keeps_lock l G p" "emits (lock_free l G) q" "halts q"
  shows "keeps_lock l G (par sched p q)"
  unfolding keeps_lock_def
  by (rule wp_mono [OF wp_par [OF assms(1) [unfolded keeps_lock_def]
        emits_mono [OF assms(2)] assms(3)]]) (auto simp: guarded_def lock_free_def)

end
