(* ===== verification/Evaluation.thy ===== *)
theory Evaluation
  imports Parallel Networks
begin

text \<open>
  How concrete runs are computed. When every call is answered by a function of the request, the
  outcome of a program follows from the outcomes of its parts, whatever the number of calls; a
  decorated method has the outcome of its body, and a task beside the caller does not depend on
  the schedule.
\<close>

named_theorems result_simps

definition outcome_of :: "(request \<Rightarrow> answer) \<Rightarrow> 'a prog \<Rightarrow> 'a outcome" where
  "outcome_of f p = snd (run_with f p)"

definition run_of :: "(request \<Rightarrow> answer) \<Rightarrow> 'a prog \<Rightarrow> event list" where
  "run_of f p = fst (run_with f p)"

lemma exec_run_of: "outcome_of f p = out \<Longrightarrow> exec p (run_of f p) out"
  by (rule exec_run_with [of f]) (auto simp: outcome_of_def run_of_def)

lemma result_prog [result_simps]:
  "outcome_of f (Return x) = Ok x" "outcome_of f (Raise e) = Err e" "outcome_of f Diverge = Hang"
  "outcome_of f (Call q k) = outcome_of f (k (f q))"
  by (simp_all add: outcome_of_def split: prod.split)

lemma result_try_else [result_simps]:
  "outcome_of f (try_else p h g) =
     (case outcome_of f p of Ok x \<Rightarrow> outcome_of f (g x) | Err e \<Rightarrow> outcome_of f (h e) | Hang \<Rightarrow> Hang)"
  by (induction p) (auto simp: result_prog)

lemma result_bnd [result_simps]:
  "outcome_of f (bnd p g) = (case outcome_of f p of Ok x \<Rightarrow> outcome_of f (g x) | Err e \<Rightarrow> Err e | Hang \<Rightarrow> Hang)"
  by (simp add: bnd_try_else result_try_else result_prog split: outcome.split)

lemma result_catch [result_simps]:
  "outcome_of f (catch p h) = (case outcome_of f p of Ok x \<Rightarrow> Ok x | Err e \<Rightarrow> outcome_of f (h e) | Hang \<Rightarrow> Hang)"
  by (simp add: catch_try_else result_try_else result_prog split: outcome.split)

lemma result_call [result_simps]:
  "outcome_of f (call q) = (case f q of Inl e \<Rightarrow> Err e | Inr r \<Rightarrow> Ok r)"
  by (auto simp: call_def result_prog split: sum.split)

lemma result_signal [result_simps]: "outcome_of f (signal q) = Ok ()"
  by (simp add: signal_def result_prog)

lemma result_with_lock [result_simps]: "outcome_of f (with_lock l p) = outcome_of f p"
  by (auto simp: with_lock_def ensuring_def result_simps split: outcome.split)

lemma result_only_if [result_simps]:
  "outcome_of f (only_if b p) = (if b then outcome_of f p else Ok ())"
  by (simp add: only_if_def result_prog)

lemma result_expect [result_simps]:
  "outcome_of f (expect sel r) = (case sel r of Some x \<Rightarrow> Ok x | None \<Rightarrow> Err unexpected_answer)"
  by (auto simp: expect_def result_prog split: option.split)

lemma result_attempt [result_simps]:
  "outcome_of f (attempt p) = (case outcome_of f p of Ok x \<Rightarrow> Ok (Inr x) | Err e \<Rightarrow> Ok (Inl e) | Hang \<Rightarrow> Hang)"
  by (auto simp: attempt_def result_simps split: outcome.split)

lemma result_par:
  "outcome_of f (par sched p q) = (case outcome_of f p of
     Ok x \<Rightarrow> (case outcome_of f q of Ok y \<Rightarrow> Ok (x, Inr y) | Err e \<Rightarrow> Ok (x, Inl e) | Hang \<Rightarrow> Hang)
   | Err e \<Rightarrow> Err e | Hang \<Rightarrow> Hang)"
proof (induction sched arbitrary: p q)
  case Nil
  show ?case by (auto simp: result_simps split: outcome.split)
next
  case (Cons b sched)
  then show ?case by (cases p; cases q) (simp_all add: result_prog split: outcome.split)
qed

lemma result_retry_loop: "outcome_of f (retry_loop n P p) = outcome_of f p"
  by (induction n) (auto simp: result_simps split: outcome.split)

lemma result_retry_lib: "outcome_of f (retry_lib sample_env n w P p) = outcome_of f p"
  by (simp add: sample_env_def loop_env_def result_retry_loop)

lemma result_retried [result_simps]:
  "outcome_of f (retried sample_env p) = outcome_of f p"
  "outcome_of f (retried_on_retryable sample_env p) = outcome_of f p"
  by (simp_all add: retried_def retried_on_retryable_def result_retry_lib)

lemmas result_polls [result_simps] = poll_result_def poll_wait_def

text \<open>What comes after a call is looked at when its answer is known.\<close>

lemma bnd_weak_cong: "p = p' \<Longrightarrow> bnd p g = bnd p' g"
  by simp

lemma try_else_weak_cong: "p = p' \<Longrightarrow> try_else p h g = try_else p' h g"
  by simp

lemma catch_weak_cong: "p = p' \<Longrightarrow> catch p h = catch p' h"
  by simp

lemmas result_congs = bnd_weak_cong try_else_weak_cong catch_weak_cong

section \<open>Calls of a concrete run\<close>

text \<open>A call of a part is a call of the whole, if the parts before it return.\<close>

lemma run_of_prog:
  "run_of f (Return x) = []" "run_of f (Raise e) = []" "run_of f Diverge = []"
  "run_of f (Call q k) = (q, f q) # run_of f (k (f q))"
  by (simp_all add: run_of_def split: prod.split)

lemma run_of_try_else:
  "run_of f (try_else p h g) = run_of f p @
     (case outcome_of f p of Ok x \<Rightarrow> run_of f (g x) | Err e \<Rightarrow> run_of f (h e) | Hang \<Rightarrow> [])"
  by (induction p) (auto simp: run_of_prog result_prog)

lemma run_of_bnd:
  "run_of f (bnd p g) = run_of f p @ (case outcome_of f p of Ok x \<Rightarrow> run_of f (g x) | _ \<Rightarrow> [])"
  by (simp add: bnd_try_else run_of_try_else run_of_prog split: outcome.split)

lemma run_of_catch:
  "run_of f (catch p h) = run_of f p @ (case outcome_of f p of Err e \<Rightarrow> run_of f (h e) | _ \<Rightarrow> [])"
  by (simp add: catch_try_else run_of_try_else run_of_prog split: outcome.split)

lemma run_of_call: "run_of f (call q) = [(q, f q)]"
  by (auto simp: call_def run_of_prog split: sum.split)

lemma run_of_with_lock:
  "run_of f (with_lock l p) = (Memory (Acquire l), f (Memory (Acquire l))) # run_of f p @
     (if outcome_of f p = Hang then [] else [(Memory (Release l), f (Memory (Release l)))])"
  by (cases "outcome_of f p")
    (simp_all add: with_lock_def ensuring_def signal_def run_of_bnd run_of_try_else run_of_prog result_prog)

lemma calls_bnd_first: "ev \<in> set (run_of f p) \<Longrightarrow> ev \<in> set (run_of f (bnd p g))"
  by (simp add: run_of_bnd)

lemma calls_bnd_then:
  "outcome_of f p = Ok x \<Longrightarrow> ev \<in> set (run_of f (g x)) \<Longrightarrow> ev \<in> set (run_of f (bnd p g))"
  by (simp add: run_of_bnd)

lemma calls_retried: "ev \<in> set (run_of f p) \<Longrightarrow> ev \<in> set (run_of f (retried sample_env p))"
  by (simp add: retried_def sample_env_def loop_env_def run_of_catch eval_nat_numeral)

end
