(* ===== verification/SampleRuns.thy ===== *)
theory SampleRuns
  imports Evaluation SecurityGroups Credentials VmService
begin

text \<open>
  An Azure, a CloudShell session and a runtime for concrete runs: every call succeeds and answers a
  value of the type it promises. The lemmas give the outcomes of the services on it.
\<close>

section \<open>Answers\<close>

definition sample_subnet :: "string \<Rightarrow> string \<Rightarrow> subnet" where
  "sample_subnet n cidr = \<lparr>sn_name = n, sn_id = ''subnets/'' @ n, sn_address_prefix = cidr,
     sn_network_security_group = None, sn_route_table = None, sn_ip_configurations = None\<rparr>"

definition sample_vnet :: "string \<Rightarrow> string \<Rightarrow> string \<Rightarrow> subnet list \<Rightarrow> vnet" where
  "sample_vnet n tag cidr subnets = \<lparr>vn_name = n, vn_tags = Some [(NETWORK_TYPE_TAG_NAME, tag)],
     vn_address_prefixes = [cidr], vn_subnets = subnets\<rparr>"

definition sample_vnets :: "vnet list" where
  "sample_vnets =
     [sample_vnet ''mgmt'' MGMT_NETWORK_TAG_VALUE ''10.0.0.0/24'' [],
      sample_vnet ''sandbox'' SANDBOX_NETWORK_TAG_VALUE ''10.1.0.0/16''
        [sample_subnet ''r-1_10.1.0.0-29'' ''10.1.0.0/29'']]"

definition sample_reservation :: reservation where
  "sample_reservation = \<lparr>rs_reservation_id = ''r-1'', rs_owner = ''owner'',
     rs_blueprint = ''blueprint'', rs_domain = ''Global''\<rparr>"

definition sample_provider :: "string list \<Rightarrow> cloud_provider" where
  "sample_provider networks = \<lparr>cp_region = ''westus'', cp_vm_size = ''A1'', cp_management_group_name = ''mgmt'',
     cp_private_ip_allocation_method = ''Azure Allocation'', cp_additional_mgmt_networks = networks\<rparr>"

definition sample_machine :: vm where
  "sample_machine = \<lparr>vm_name = ''vm'', vm_uuid = ''uuid'', vm_provisioning_state = ''Succeeded'',
     vm_network_interfaces = [\<lparr>nr_id = ''/nics/nic'', nr_primary = True\<rparr>],
     vm_os_disk = \<lparr>od_name = ''disk'', od_vhd_uri = None, od_managed_disk = Some (Some StandardLRS), od_os_type = ''Linux''\<rparr>,
     vm_image_reference = \<lparr>ir_id = [], ir_publisher = ''p'', ir_offer = ''o'', ir_sku = ''s''\<rparr>, vm_vm_size = ''A1''\<rparr>"

definition sample_card :: nic where
  "sample_card = (sample_nic ''nic'')\<lparr>nic_ip_configurations :=
     [\<lparr>ipc_private_ip_address = ''10.1.0.4'', ipc_private_ip_allocation_method = DynamicAllocation,
       ipc_public_ip_address = None, ipc_subnet_id = ''/subnets/s1''\<rparr>]\<rparr>"

definition sample_address :: public_ip where
  "sample_address = \<lparr>pip_id = ''/ips/ip'', pip_ip_address = ''52.0.0.1'', pip_allocation_method = ''Static''\<rparr>"

text \<open>The poller of a group, of a network interface, of a machine, of a public address and of the rest.\<close>

fun sample_network :: "network_request \<Rightarrow> answer" where
  "sample_network (ListVnets g) = Inr (RVnets sample_vnets)"
| "sample_network (ListNsgs g) = Inr (RNsgs [sample_nsg ''nsg'' []])"
| "sample_network (GetNsg g n) = Inr (RNsg (sample_nsg n []))"
| "sample_network (PutNsg g n r t) = Inr (RPoller 1)"
| "sample_network (ListRules g n) = Inr (RRules [])"
| "sample_network (PutNic g n p) = Inr (RPoller 2)"
| "sample_network (GetNic g n) = Inr (RNic sample_card)"
| "sample_network (PutPublicIp g n r a t) = Inr (RPoller 4)"
| "sample_network q = Inr (RPoller 0)"

fun sample_poller :: "poller_request \<Rightarrow> answer" where
  "sample_poller (PollResult n) = Inr (
     if n = 1 then RNsg (sample_nsg ''nsg'' []) else if n = 2 then RNic sample_card
     else if n = 3 then RVm sample_machine else if n = 4 then RPublicIp sample_address else RNone)"
| "sample_poller (PollDone n) = Inr (RBool True)"
| "sample_poller q = Inr RNone"

fun sample_compute :: "compute_request \<Rightarrow> answer" where
  "sample_compute (GetImage g n) = Inr (RImage ''image'' Linux)"
| "sample_compute (ListVmImages l p f s) = Inr (RStrs [''1.0''])"
| "sample_compute (GetVmImage l p f s n) = Inr (RVmImage Linux None)"
| "sample_compute (GetVm g n) = Inr (RVm sample_machine)"
| "sample_compute (PutVm g n p) = Inr (RPoller 3)"
| "sample_compute q = Inr (RPoller 0)"

fun sample_memory :: "memory_request \<Rightarrow> answer" where
  "sample_memory (DictHas d k) = Inr (RBool True)"
| "sample_memory (DictGet d k) = Inr (if d = LockDictionary then RLock (ResourceLock 0)
     else RSshKey \<lparr>sk_private_key = ''PRIV'', sk_public_key = ''PUB''\<rparr>)"
| "sample_memory q = Inr RNone"

fun sample_storage :: "storage_request \<Rightarrow> answer" where
  "sample_storage (CreateStorageAccount g n r t) = Inr (RPoller 0)"
| "sample_storage (ListStorageAccounts g) = Inr (RStrs [''r1cs''])"
| "sample_storage (ListStorageKeys g n) = Inr (RStrs [''key''])"
| "sample_storage (NewFileService n k) = Inr (RStr ''files'')"
| "sample_storage (GetFile s h d f) = Inr (RStr ''KEY'')"
| "sample_storage q = Inr RNone"

fun sample_runtime :: "runtime_request \<Rightarrow> answer" where
  "sample_runtime IsCancelled = Inr (RBool False)"
| "sample_runtime Uuid4 = Inr (RStr ''12345678-0000'')"
| "sample_runtime (RsaGenerate n) = Inr (RSshKey \<lparr>sk_private_key = ''PRIV'', sk_public_key = ''PUB''\<rparr>)"
| "sample_runtime q = Inr RNone"

fun sample_azure :: "request \<Rightarrow> answer" where
  "sample_azure (Network q) = sample_network q"
| "sample_azure (Poller q) = sample_poller q"
| "sample_azure (Storage q) = sample_storage q"
| "sample_azure (Runtime q) = sample_runtime q"
| "sample_azure (Compute q) = sample_compute q"
| "sample_azure (Memory q) = sample_memory q"
| "sample_azure (Session q) = Inr (RStr ''10.1.0.4'')"
| "sample_azure (Resource q) = Inr RNone"

section \<open>Outcomes of the services\<close>

lemma outcome_check_if_cancelled [result_simps]: "outcome_of sample_azure check_if_cancelled = Ok ()"
  by code_simp

lemma outcome_create_rules [result_simps]:
  "generator_valid g \<Longrightarrow> AnotherObject \<notin> set rds \<Longrightarrow>
     outcome_of sample_azure (create_rules sample_env grp n dest src g rds) = Ok ()"
proof (induction rds arbitrary: g)
  case (Cons rd rds)
  obtain p g' where "generator_next g = Inr (p, g')" "generator_valid g'"
    using generator_next_spec [OF Cons.prems(1)] by metis
  with Cons show ?case
    by (cases rd) (simp_all add: create_network_security_group_rule_def prepare_security_group_rule_def
      Let_def result_simps cong: result_congs)
qed (simp add: result_simps)

lemma outcome_security_group_rules [result_simps]:
  "AnotherObject \<notin> set rds \<Longrightarrow>
     outcome_of sample_azure (create_network_security_group_rules sample_env grp n rds dest l start src) = Ok RNone"
  unfolding create_network_security_group_rules_def
  by (simp add: result_simps no_result_def outcome_create_rules [OF rule_priority_generator_start(1)]
    cong: result_congs)

lemma outcome_networks [result_simps]:
  "outcome_of sample_azure (create_network_security_group sample_env grp n region tags) =
     Ok (RNsg (sample_nsg ''nsg'' []))"
  "outcome_of sample_azure (get_virtual_networks sample_env grp) = Ok (RVnets sample_vnets)"
  "outcome_of sample_azure (create_subnet sample_env grp sn cidr v g w) = Ok RNone"
  "outcome_of sample_azure (create_resource_group sample_env grp region dict_tags) = Ok RNone"
  by (simp_all add: create_network_security_group_def get_virtual_networks_def create_subnet_def
    create_resource_group_def result_simps cong: result_congs)

lemma outcome_file_service [result_simps]:
  "outcome_of sample_azure (get_file_service sample_env grp n) = Ok ''files''"
  by (simp add: get_file_service_def get_storage_account_key_def cached_value_def as_opt_def first_def
    result_simps result_retry_lib cong: result_congs)

lemma outcome_storage [result_simps]:
  "outcome_of sample_azure (create_storage_account sample_env grp region n tags w) = Ok (RStr n)"
  "outcome_of sample_azure (create_file sample_env grp n share dir file content) = Ok RNone"
  "outcome_of sample_azure (save_key_pair sample_env grp n k) = Ok ()"
  by (simp_all add: create_storage_account_def create_file_def no_result_def save_key_pair_def
    result_simps cong: result_congs)

lemma outcome_key_pair [result_simps]:
  "outcome_of sample_azure (generate_key_pair n) = Ok \<lparr>sk_private_key = ''PRIV'', sk_public_key = ''PUB''\<rparr>"
  by (simp add: generate_key_pair_def result_simps cong: result_congs)

lemma outcome_network_cards [result_simps]:
  "outcome_of sample_azure (create_network_for_vm sample_env g n ipn (sample_provider nets) sub tags False t res fwd nsg) =
     Ok sample_card"
  "outcome_of sample_azure (delete_nic sample_env g n) = Ok RNone"
  "outcome_of sample_azure (delete_ip sample_env g n) = Ok RNone"
  by (simp_all add: create_network_for_vm_def create_nic_def delete_nic_def delete_ip_def no_result_def
    sample_provider_def to_azure_type_def py_lower_def lower_char_def is_upper_def code_def
    result_simps cong: result_congs)

lemma outcome_vms [result_simps]:
  "outcome_of sample_azure (VmService.delete_vm sample_env g n) = Ok RNone"
  "outcome_of sample_azure (get_virtual_machine_image sample_env l p f s) = Ok (RVmImage Linux None)"
  by (simp_all add: delete_vm_def get_virtual_machine_image_def no_result_def result_simps cong: result_congs)

end
