(* ===== verification/PrepareInfra.thy ===== *)
theory PrepareInfra
  imports SampleRuns RuleParsers
begin

text \<open>
  \<^verbatim>\<open>domain/vm_management/operations/PrepareSandboxInfraOperation.py\<close>: a sandbox gets its resource
  group, its storage account with the keys (in a thread of its own), its security group with the
  rules for all its subnets, and the subnets.
\<close>

section \<open>Actions and results\<close>

text \<open>The actions of \<^verbatim>\<open>cloudshell.cp.core.models\<close> with the parameters that are read.\<close>

datatype prepare_action =
    PrepareCloudInfra string string  \<comment> \<open>action id and cidr\<close>
  | PrepareSubnet string string bool  \<comment> \<open>action id, cidr, whether it is public\<close>
  | CreateKeys string
  | OtherAction string

datatype prepare_result =
    PrepareSubnetResult string string  \<comment> \<open>action id and subnet name\<close>
  | PrepareCloudInfraResult string
  | CreateKeysResult string string  \<comment> \<open>action id and private key\<close>

fun action_cidr :: "prepare_action \<Rightarrow> string option" where
  "action_cidr (PrepareCloudInfra i c) = Some c"
| "action_cidr (PrepareSubnet i c p) = Some c"
| "action_cidr _ = None"

definition action_with_cidr :: "prepare_action \<Rightarrow> bool" where
  "action_with_cidr action \<longleftrightarrow> action_cidr action \<noteq> None"

text \<open>The subnet actions, as action id, cidr and public flag.\<close>

fun subnet_action :: "prepare_action \<Rightarrow> (string \<times> string \<times> bool) option" where
  "subnet_action (PrepareSubnet i c p) = Some (i, c, p)"
| "subnet_action _ = None"

definition subnet_actions_of :: "prepare_action list \<Rightarrow> (string \<times> string \<times> bool) list" where
  "subnet_actions_of = List.map_filter subnet_action"

fun cloud_infra_id :: "prepare_action \<Rightarrow> string option" where
  "cloud_infra_id (PrepareCloudInfra i c) = Some i"
| "cloud_infra_id _ = None"

fun create_keys_id :: "prepare_action \<Rightarrow> string option" where
  "create_keys_id (CreateKeys i) = Some i"
| "create_keys_id _ = None"

text \<open>\<^verbatim>\<open>next(action.actionId for action in actions if isinstance(action, action_class))\<close>\<close>

definition get_action_id_by_type ::
  "prepare_action list \<Rightarrow> (prepare_action \<Rightarrow> string option) \<Rightarrow> exn + string"
where
  "get_action_id_by_type actions action_class = (case List.map_filter action_class actions of
     [] \<Rightarrow> Inl StopIteration | i # _ \<Rightarrow> Inr i)"

definition create_result :: "string \<Rightarrow> string \<Rightarrow> prepare_result" where
  "create_result action_id subnet_name = PrepareSubnetResult action_id subnet_name"

section \<open>Storage account and keys\<close>

definition prepare_storage_account_name :: "string \<Rightarrow> string prog" where
  "prepare_storage_account_name reservation_id =
     bnd (generate_name (py_replace CHR ''-'' [] reservation_id) (Some ''cs'') 24) (\<lambda>name.
     Return (py_replace CHR ''-'' [] name))"

definition create_key_pair :: "env \<Rightarrow> string \<Rightarrow> string \<Rightarrow> ssh_key prog" where
  "create_key_pair E group_name storage_account_name =
     bnd (generate_key_pair 2048) (\<lambda>key_pair.
     thn (save_key_pair E group_name storage_account_name key_pair) (Return key_pair))"

definition create_storage_and_keypairs ::
  "env \<Rightarrow> string \<Rightarrow> string \<Rightarrow> cloud_provider \<Rightarrow> dict \<Rightarrow> string prog"
where
  "create_storage_and_keypairs E storage_account_name group_name cp tags =
     thn (create_storage_account E group_name (cp_region cp) storage_account_name tags True)
     (thn check_if_cancelled
     (bnd (create_key_pair E group_name storage_account_name) (\<lambda>key_pair.
     thn check_if_cancelled (Return (sk_private_key key_pair)))))"

section \<open>Virtual networks\<close>

definition validate_management_vnet :: "vnet option \<Rightarrow> exn + vnet" where
  "validate_management_vnet management_vnet = (case management_vnet of
     None \<Rightarrow> Inl (VirtualNetworkNotFoundException
       ''Could not find Management Virtual Network in Azure.'')
   | Some v \<Rightarrow> Inr v)"

definition validate_sandbox_vnet :: "vnet option \<Rightarrow> exn + vnet" where
  "validate_sandbox_vnet sandbox_vnet = (case sandbox_vnet of
     None \<Rightarrow> Inl (VirtualNetworkNotFoundException
       ''Could not find Sandbox Virtual Network in Azure.'')
   | Some v \<Rightarrow> Inr v)"

section \<open>The rules of the security group of the subnets\<close>

definition allow_all_rule :: "string \<Rightarrow> inbound_rule" where
  "allow_all_rule security_rule_name =
     ARule (rule_data_init AnyProtocol (Some ''*'') None None AccessAllow (Some security_rule_name))"

definition deny_all_rule :: "string \<Rightarrow> inbound_rule" where
  "deny_all_rule security_rule_name =
     ARule (rule_data_init AnyProtocol (Some ''*'') None None AccessDeny (Some security_rule_name))"

definition dashed :: "string \<Rightarrow> string" where
  "dashed cidr = py_replace CHR ''/'' ''-'' cidr"

text \<open>One rule: the rule, its destination, its source and where its priority starts.\<close>

definition subnet_nsg_rules ::
  "(string \<times> string \<times> bool) list \<Rightarrow> string list \<Rightarrow> string \<Rightarrow> string \<Rightarrow> string \<Rightarrow>
     (inbound_rule \<times> string \<times> address \<times> int) list"
where
  "subnet_nsg_rules subnet_actions additional_mgmt_networks sandbox_cidr management_vnet_cidr
     sandbox_vnet_cidr =
   map (\<lambda>(_, subnet_cidr, _). (allow_all_rule (''Allow_Sandbox_Traffic_To_'' @ dashed subnet_cidr),
     subnet_cidr, Addr sandbox_cidr, 2000)) subnet_actions @
   map (\<lambda>(_, private_subnet_cidr, _).
     (deny_all_rule (''Deny_Internet_Traffic_To_Private_Subnet_'' @ dashed private_subnet_cidr),
      private_subnet_cidr, InternetHop, 2000)) (filter (\<lambda>(_, _, is_public). \<not> is_public) subnet_actions) @
   map (\<lambda>a. (allow_all_rule (''Allow_'' @ dashed a @ ''_To_'' @ dashed sandbox_cidr),
     sandbox_cidr, Addr a, 4000)) additional_mgmt_networks @
   [(allow_all_rule (''Allow_'' @ dashed management_vnet_cidr @ ''_To_'' @ dashed sandbox_cidr),
     sandbox_cidr, Addr management_vnet_cidr, 4080),
    (deny_all_rule ''Deny_Traffic_From_Other_Sandboxes_To_Sandbox_CIDR'',
     sandbox_cidr, Addr sandbox_vnet_cidr, 4090)]"

definition create_subnet_nsg_rules ::
  "env \<Rightarrow> string \<Rightarrow> vnet \<Rightarrow> vnet \<Rightarrow> string \<Rightarrow> string \<Rightarrow> string list \<Rightarrow>
     (string \<times> string \<times> bool) list \<Rightarrow> unit prog"
where
  "create_subnet_nsg_rules E group_name management_vnet sandbox_vnet sandbox_cidr
     security_group_name additional_mgmt_networks subnet_actions =
   bnd (first (vn_address_prefixes management_vnet)) (\<lambda>management_vnet_cidr.
   bnd (first (vn_address_prefixes sandbox_vnet)) (\<lambda>sandbox_vnet_cidr.
   for_each (\<lambda>(rule, destination_addr, source_address, start_from).
     create_network_security_group_rules E group_name security_group_name [rule] destination_addr
       SubnetLocker (Some start_from) source_address)
     (subnet_nsg_rules subnet_actions additional_mgmt_networks sandbox_cidr management_vnet_cidr
       sandbox_vnet_cidr)))"

section \<open>Subnets\<close>

text \<open>
  The subnet objects of the virtual network are changed in place, so the network is handed back.
\<close>

definition detach_stale :: "subnet \<Rightarrow> vnet \<Rightarrow> vnet" where
  "detach_stale s v = v\<lparr>vn_subnets := map (\<lambda>t. if t = s
     then t\<lparr>sn_network_security_group := None\<rparr> else t) (vn_subnets v)\<rparr>"

definition cleanup_stale_data :: "env \<Rightarrow> cloud_provider \<Rightarrow> vnet \<Rightarrow> string \<Rightarrow> vnet prog" where
  "cleanup_stale_data E cp sandbox_vnet subnet_cidr =
     (case filter (\<lambda>x. sn_address_prefix x = subnet_cidr) (vn_subnets sandbox_vnet) of
        [] \<Rightarrow> Return sandbox_vnet
      | s # _ \<Rightarrow>
          bnd (if sn_network_security_group s \<noteq> None
               then thn (update_subnet E (cp_management_group_name cp) (vn_name sandbox_vnet) (sn_name s)
                   (s\<lparr>sn_network_security_group := None\<rparr>))
                 (Return (detach_stale s sandbox_vnet))
               else Return sandbox_vnet) (\<lambda>sandbox_vnet.
          bnd (raising (collect get_resource_group_name
            (case sn_ip_configurations s of None \<Rightarrow> [] | Some ids \<Rightarrow> ids))) (\<lambda>resource_groups.
          thn (delete_subnet E (cp_management_group_name cp) (vn_name sandbox_vnet) (sn_name s))
            (Return sandbox_vnet))))"

fun is_invalid_subnet :: "exn \<Rightarrow> bool" where
  "is_invalid_subnet (CloudError r m t) \<longleftrightarrow> py_in ''NetcfgInvalidSubnet'' t"
| "is_invalid_subnet e \<longleftrightarrow> False"

definition create_sandbox_subnet ::
  "env \<Rightarrow> string \<Rightarrow> cloud_provider \<Rightarrow> nsg option \<Rightarrow> vnet \<Rightarrow> string \<Rightarrow> vnet prog"
where
  "create_sandbox_subnet E cidr cp network_security_group sandbox_vnet subnet_name =
     with_lock SubnetLocker
       (let create_subnet_command = create_subnet E (cp_management_group_name cp) subnet_name cidr
          sandbox_vnet network_security_group True in
        try_else create_subnet_command
          (\<lambda>e. if is_invalid_subnet e
             then bnd (cleanup_stale_data E cp sandbox_vnet cidr) (\<lambda>sandbox_vnet.
               thn create_subnet_command (Return sandbox_vnet))
             else Raise e)
          (\<lambda>_. Return sandbox_vnet))"

fun create_sandbox_subnets ::
  "env \<Rightarrow> cloud_provider \<Rightarrow> string \<Rightarrow> nsg option \<Rightarrow> vnet \<Rightarrow> (string \<times> string \<times> bool) list \<Rightarrow>
     prepare_result list prog"
where
  "create_sandbox_subnets E cp group_name network_security_group sandbox_vnet [] = Return []"
| "create_sandbox_subnets E cp group_name network_security_group sandbox_vnet
     ((action_id, cidr, _) # subnet_actions) =
   (let subnet_name = format_subnet_name group_name cidr in
    bnd (create_sandbox_subnet E cidr cp network_security_group sandbox_vnet subnet_name) (\<lambda>sandbox_vnet.
    bnd (create_sandbox_subnets E cp group_name network_security_group sandbox_vnet subnet_actions)
      (\<lambda>results. Return (create_result action_id subnet_name # results))))"

section \<open>The operation\<close>

text \<open>What the calling thread does while the storage account and the keys are made.\<close>

definition prepare_network ::
  "env \<Rightarrow> reservation \<Rightarrow> cloud_provider \<Rightarrow> string \<Rightarrow> dict \<Rightarrow> (string \<times> string \<times> bool) list \<Rightarrow>
     prepare_result list prog"
where
  "prepare_network E rs cp cidr tags subnet_actions =
   (let group_name = rs_reservation_id rs in
   bnd (bnd (get_virtual_networks E (cp_management_group_name cp)) (expect as_vnets)) (\<lambda>virtual_networks.
   thn check_if_cancelled
   (bnd (raising (validate_management_vnet
     (get_virtual_network_by_tag virtual_networks NETWORK_TYPE_TAG_NAME MGMT_NETWORK_TAG_VALUE)))
     (\<lambda>management_vnet.
   bnd (raising (validate_sandbox_vnet
     (get_virtual_network_by_tag virtual_networks NETWORK_TYPE_TAG_NAME SANDBOX_NETWORK_TAG_VALUE)))
     (\<lambda>sandbox_vnet.
   (let security_group_name = get_subnets_nsg_name (rs_reservation_id rs) in
   bnd (bnd (create_network_security_group E group_name security_group_name (cp_region cp) (Some tags))
     (expect as_nsg)) (\<lambda>sandbox_network_security_group.
   thn check_if_cancelled
   (thn (create_subnet_nsg_rules E group_name management_vnet sandbox_vnet cidr security_group_name
     (cp_additional_mgmt_networks cp) subnet_actions)
   (thn check_if_cancelled
   (bnd (create_sandbox_subnets E cp group_name (Some sandbox_network_security_group) sandbox_vnet
     subnet_actions) (\<lambda>results.
   thn check_if_cancelled (Return results))))))))))))"

definition prepare_connectivity ::
  "env \<Rightarrow> bool list \<Rightarrow> reservation \<Rightarrow> cloud_provider \<Rightarrow> prepare_action list \<Rightarrow> prepare_result list prog"
where
  "prepare_connectivity E sched rs cp actions =
     (case find action_with_cidr actions of
        None \<Rightarrow> Raise (ValueError ''Actions list must contain a PrepareNetworkAction.'')
      | Some network_action \<Rightarrow>
     (let cidr = the (action_cidr network_action); group_name = rs_reservation_id rs;
          tags = get_tags None rs; subnet_actions = subnet_actions_of actions in
     thn (create_resource_group E group_name (cp_region cp) tags)
     (thn check_if_cancelled
     (bnd (prepare_storage_account_name (rs_reservation_id rs)) (\<lambda>storage_account_name.
     bnd (par sched (prepare_network E rs cp cidr tags subnet_actions)
       (create_storage_and_keypairs E storage_account_name group_name cp tags)) (\<lambda>(results, storage_res).
     bnd (raising storage_res) (\<lambda>access_key.
     bnd (raising (get_action_id_by_type actions cloud_infra_id)) (\<lambda>infra_id.
     bnd (raising (get_action_id_by_type actions create_keys_id)) (\<lambda>keys_id.
     Return (results @ [PrepareCloudInfraResult infra_id, CreateKeysResult keys_id access_key]))))))))))"

section \<open>Which calls the methods make\<close>

lemma halts_prepare [halts_intros]:
  assumes "retry_law E"
  shows "halts (create_storage_and_keypairs E n g cp tags)" "halts (create_subnet_nsg_rules E g mv sv c n add sas)"
    "halts (cleanup_stale_data E cp v c)" "halts (create_sandbox_subnet E c cp nsg v sn)"
    "halts (create_sandbox_subnets E cp g nsg v sas)"
proof -
  show stale: "halts (cleanup_stale_data E cp v c)" for v
    unfolding cleanup_stale_data_def by (auto intro!: halts_intros assms split: list.split)
  show subnet: "halts (create_sandbox_subnet E c cp nsg v sn)" for c v sn
    unfolding create_sandbox_subnet_def Let_def
    by (auto intro!: halts_intros assms simp: cleanup_stale_data_def split: list.split)
  show "halts (create_sandbox_subnets E cp g nsg v sas)"
    by (induction sas arbitrary: v) (auto intro!: halts_intros subnet simp: Let_def)
  show "halts (create_storage_and_keypairs E n g cp tags)"
    unfolding create_storage_and_keypairs_def create_key_pair_def by (auto intro!: halts_intros assms)
  show "halts (create_subnet_nsg_rules E g mv sv c n add sas)"
    unfolding create_subnet_nsg_rules_def
    by (auto intro!: halts_intros halts_create_network_security_group_rules assms)
qed

lemma emits_create_storage_and_keypairs:
  assumes "retry_law E" "\<And>m v. is_cache_access m \<Longrightarrow> P (Memory m, v)" "\<And>q v. P (Storage q, v)" "\<And>q v. P (Runtime q, v)"
    "\<And>q v. P (Poller q, v)"
  shows "emits P (create_storage_and_keypairs E n g cp tags)"
  unfolding create_storage_and_keypairs_def create_key_pair_def generate_key_pair_def
  by (auto intro!: emits_intros emits_storage emits_key_pairs assms)

section \<open>The results\<close>

definition subnet_results :: "string \<Rightarrow> (string \<times> string \<times> bool) list \<Rightarrow> prepare_result list" where
  "subnet_results g sas = map (\<lambda>(i, c, _). PrepareSubnetResult i (format_subnet_name g c)) sas"

lemma yields_create_subnets: "yields (\<lambda>rs. rs = subnet_results g sas) (create_sandbox_subnets E cp g nsg v sas)"
proof (induction sas arbitrary: v)
  case (Cons a sas)
  obtain i c b where a: "a = (i, c, b)" by (metis prod_cases3)
  show ?case
    unfolding a create_sandbox_subnets.simps Let_def
    by (intro yields_bnd [OF yields_any] yields_bnd [OF Cons.IH]) (simp add: yields_simps create_result_def subnet_results_def)
qed (simp add: yields_simps subnet_results_def)

lemma yields_prepare_network:
  "yields (\<lambda>results. results = subnet_results (rs_reservation_id rs) sas) (prepare_network E rs cp c tags sas)"
  unfolding prepare_network_def Let_def
  by (intro yields_bnd [OF yields_any] yields_bnd [OF yields_create_subnets]) (simp add: yields_simps)


definition sample_actions :: "prepare_action list" where
  "sample_actions = [PrepareCloudInfra ''a1'' ''10.1.0.0/28'', PrepareSubnet ''a2'' ''10.1.0.0/29'' False,
     PrepareSubnet ''a3'' ''10.1.0.8/29'' True, CreateKeys ''a4'']"

definition sample_preparation :: "prepare_result list prog" where
  "sample_preparation = prepare_connectivity sample_env [False, True, True, False, True]
     sample_reservation (sample_provider [''10.9.0.0/16'']) sample_actions"

lemma sample_vnets_found:
  "get_virtual_network_by_tag sample_vnets NETWORK_TYPE_TAG_NAME MGMT_NETWORK_TAG_VALUE = Some (sample_vnets ! 0)"
  "get_virtual_network_by_tag sample_vnets NETWORK_TYPE_TAG_NAME SANDBOX_NETWORK_TAG_VALUE = Some (sample_vnets ! 1)"
  "vn_address_prefixes (sample_vnets ! 0) = [''10.0.0.0/24'']"
  "vn_address_prefixes (sample_vnets ! 1) = [''10.1.0.0/16'']"
  by code_simp+

lemma sample_provider_facts:
  "cp_region (sample_provider n) = ''westus''" "cp_management_group_name (sample_provider n) = ''mgmt''"
  "cp_additional_mgmt_networks (sample_provider n) = n"
  by (simp_all add: sample_provider_def)

lemma sample_actions_facts:
  "find action_with_cidr sample_actions = Some (PrepareCloudInfra ''a1'' ''10.1.0.0/28'')"
  "subnet_actions_of sample_actions = [(''a2'', ''10.1.0.0/29'', False), (''a3'', ''10.1.0.8/29'', True)]"
  "get_action_id_by_type sample_actions cloud_infra_id = Inr ''a1''"
  "get_action_id_by_type sample_actions create_keys_id = Inr ''a4''"
  by code_simp+

lemma sample_storage_name:
  "outcome_of sample_azure (prepare_storage_account_name n) = Ok (py_replace CHR ''-'' []
     (name_with_postfix (py_replace CHR ''-'' [] n) ''cs'' 24))"
  by (simp add: prepare_storage_account_name_def generate_name_def truthy_def result_simps cong: result_congs)

lemma sample_preparation_outcome:
  "outcome_of sample_azure sample_preparation =
     Ok [PrepareSubnetResult ''a2'' (format_subnet_name ''r-1'' ''10.1.0.0/29''),
       PrepareSubnetResult ''a3'' (format_subnet_name ''r-1'' ''10.1.0.8/29''),
       PrepareCloudInfraResult ''a1'', CreateKeysResult ''a4'' ''PRIV'']"
proof -
  note vnets = sample_vnets_found sample_vnets_found [unfolded One_nat_def]
  have network: "outcome_of sample_azure (prepare_network sample_env sample_reservation
       (sample_provider [''10.9.0.0/16'']) c t [(i, k, b), (i', k', b')]) =
     Ok [PrepareSubnetResult i (format_subnet_name ''r-1'' k), PrepareSubnetResult i' (format_subnet_name ''r-1'' k')]"
    for c t i k b i' k' b'
    by (cases b; cases b'; simp add: prepare_network_def Let_def vnets validate_management_vnet_def validate_sandbox_vnet_def
      raising_def create_subnet_nsg_rules_def first_def subnet_nsg_rules_def sample_reservation_def
      sample_provider_facts allow_all_rule_def deny_all_rule_def create_sandbox_subnet_def create_result_def
      result_simps cong: result_congs)
  show ?thesis
    by (simp add: sample_preparation_def prepare_connectivity_def sample_actions_facts Let_def sample_storage_name network
      result_par create_storage_and_keypairs_def create_key_pair_def raising_def
      result_simps del: par.simps cong: result_congs)
qed


section \<open>Changes under the lock\<close>

definition is_network_change :: "request \<Rightarrow> bool" where
  "is_network_change q \<longleftrightarrow> is_rule_change q \<or> is_subnet_change q"

lemma lock_free_prepare:
  "lock_free SubnetLocker is_network_change (Storage q1, v)" "lock_free SubnetLocker is_network_change (Runtime q2, v)"
  "lock_free SubnetLocker is_network_change (Poller q3, v)" "lock_free SubnetLocker is_network_change (Resource q4, v)"
  "lock_free SubnetLocker is_network_change (Network (ListVnets g), v)"
  "lock_free SubnetLocker is_network_change (Network (PutNsg g n r t), v)"
  by (simp_all add: lock_free_def is_network_change_def)

lemma lock_free_cache: "is_cache_access m \<Longrightarrow> lock_free SubnetLocker is_network_change (Memory m, v)"
  by (cases m) (auto simp: lock_free_def is_network_change_def)

lemma keeps_lock_prepare_network:
  assumes "retry_law E"
  shows "keeps_lock SubnetLocker is_network_change (prepare_network E rs cp c tags sas)"
proof -

  have vnets: "keeps_lock SubnetLocker is_network_change (get_virtual_networks E g)"
      "keeps_lock SubnetLocker is_network_change (create_network_security_group E g n r t)"
      "keeps_lock SubnetLocker is_network_change check_if_cancelled" for g n r t
    unfolding get_virtual_networks_def
    by (intro keeps_lock_free emits_intros retried_intros emits_create_network_security_group halts_intros
        lock_free_prepare assms)+
  have rules: "keeps_lock SubnetLocker is_network_change
      (create_network_security_group_rules E g n rds dest SubnetLocker start src)" for g n rds dest start src
    unfolding create_network_security_group_rules_def no_result_def
    by (intro lock_intros assms emits_intros halts_intros emits_create_rules) (simp_all add: lock_untouched_def)
  have nsg_rules: "keeps_lock SubnetLocker is_network_change (create_subnet_nsg_rules E g mv sv c n add sas)" for g mv sv n add
    unfolding create_subnet_nsg_rules_def
    by (auto intro!: lock_intros rules simp: first_def split: list.split)
  have stale: "emits (lock_untouched SubnetLocker) (cleanup_stale_data E cp v c)" for v c
    unfolding cleanup_stale_data_def
    by (auto intro!: emits_intros emits_update_subnet emits_delete_subnet assms simp: lock_untouched_def split: list.split)
  have subnet: "keeps_lock SubnetLocker is_network_change (create_sandbox_subnet E k cp nsg v sn)" for k nsg v sn
  proof -
    have "emits (lock_untouched SubnetLocker) (create_subnet E g sn k v nsg True)" for g
      unfolding create_subnet_def by (auto intro!: emits_intros retried_intros assms simp: lock_untouched_def)
    then show ?thesis
      unfolding create_sandbox_subnet_def Let_def
      by (auto intro!: keeps_lock_with_lock emits_intros halts_intros halts_prepare stale assms)
  qed
  have subnets: "keeps_lock SubnetLocker is_network_change (create_sandbox_subnets E cp g nsg v sas)" for g nsg v
    by (induction sas arbitrary: v) (auto intro!: lock_intros subnet simp: Let_def)
  show ?thesis
    unfolding prepare_network_def Let_def
    by (intro lock_intros vnets nsg_rules subnets)
qed

lemma keeps_lock_prepare_connectivity:
  assumes "retry_law E"
  shows "keeps_lock SubnetLocker is_network_change (prepare_connectivity E sched rs cp actions)"
proof -
  have free: "keeps_lock SubnetLocker is_network_change (create_resource_group E g r t)"
      "keeps_lock SubnetLocker is_network_change check_if_cancelled"
      "keeps_lock SubnetLocker is_network_change (prepare_storage_account_name n)" for g r t n
    unfolding prepare_storage_account_name_def generate_name_def generate_short_unique_string_def
    by (intro keeps_lock_free emits_intros emits_resource_group halts_intros lock_free_prepare assms;
        simp add: emits_intros halts_intros lock_free_prepare)+
  have keys: "emits (lock_free SubnetLocker is_network_change) (create_storage_and_keypairs E n g cp t)" for n g t
    by (intro emits_create_storage_and_keypairs assms lock_free_prepare lock_free_cache)
  show ?thesis
    unfolding prepare_connectivity_def Let_def
    by (auto intro!: lock_intros free keeps_lock_par keeps_lock_prepare_network keys halts_prepare assms split: option.split)
qed

text \<open>
  The preparation of a sandbox changes rules and subnets only under the lock of the subnets, which is
  given back on every outcome, whatever the interleaving with the thread that makes the keys, and it
  always comes to an end.
\<close>

lemma prepare_changes_under_lock:
  assumes "retry_law E" "exec (prepare_connectivity E sched rs cp actions) es out"
  shows "disciplined SubnetLocker is_network_change es \<and> out \<noteq> Hang"
  using keeps_lock_prepare_connectivity [OF assms(1)] assms(2) keeps_lock_disciplined keeps_lock_halts haltsD by blast

section \<open>Rules before subnets\<close>

text \<open>
  The networks that were read last, and the rules that were put, each by its name, whether it allows or
  denies, its source and its destination, where a rule that is put again counts once.
\<close>

type_synonym rule_facts = "string \<times> access \<times> address \<times> string"

fun put_rule_facts :: "request \<Rightarrow> rule_facts option" where
  "put_rule_facts (Network (PutRule _ _ n r)) =
     Some (n, sr_access r, sr_source_address_prefix r, sr_destination_address_prefix r)"
| "put_rule_facts _ = None"

fun vnets_read :: "event \<Rightarrow> vnet list option" where
  "vnets_read (Network (ListVnets _), Inr (RVnets vs)) = Some vs"
| "vnets_read _ = None"

definition rules_put :: "event list \<Rightarrow> rule_facts list" where
  "rules_put es = remdups_adj (List.map_filter (put_rule_facts \<circ> fst) es)"

definition last_vnets :: "event list \<Rightarrow> vnet list option" where
  "last_vnets es = (case List.map_filter vnets_read es of [] \<Rightarrow> None | vs \<Rightarrow> Some (last vs))"

text \<open>
  The rules for the subnets, in the order they are created: traffic of the sandbox to each subnet, none
  from the internet to the private ones, and to the sandbox traffic from the additional networks and the
  management network, but none from other sandboxes.
\<close>

definition expected_rules ::
  "(string \<times> string \<times> bool) list \<Rightarrow> string list \<Rightarrow> string \<Rightarrow> vnet list \<Rightarrow> rule_facts list"
where
  "expected_rules subnet_actions networks cidr vs =
     (case (get_virtual_network_by_tag vs NETWORK_TYPE_TAG_NAME MGMT_NETWORK_TAG_VALUE,
            get_virtual_network_by_tag vs NETWORK_TYPE_TAG_NAME SANDBOX_NETWORK_TAG_VALUE) of
        (Some m, Some s) \<Rightarrow>
          map (\<lambda>(_, c, _). (''Allow_Sandbox_Traffic_To_'' @ dashed c, AccessAllow, Addr cidr, c)) subnet_actions @
          map (\<lambda>(_, c, _). (''Deny_Internet_Traffic_To_Private_Subnet_'' @ dashed c, AccessDeny, InternetHop, c))
            (filter (\<lambda>(_, _, is_public). \<not> is_public) subnet_actions) @
          map (\<lambda>a. (''Allow_'' @ dashed a @ ''_To_'' @ dashed cidr, AccessAllow, Addr a, cidr)) networks @
          [(''Allow_'' @ dashed (hd (vn_address_prefixes m)) @ ''_To_'' @ dashed cidr, AccessAllow,
            Addr (hd (vn_address_prefixes m)), cidr),
           (''Deny_Traffic_From_Other_Sandboxes_To_Sandbox_CIDR'', AccessDeny,
            Addr (hd (vn_address_prefixes s)), cidr)]
      | _ \<Rightarrow> [])"

definition push :: "'a \<Rightarrow> 'a list \<Rightarrow> 'a list" where
  "push n ns = (if ns \<noteq> [] \<and> last ns = n then ns else ns @ [n])"

type_synonym preparation = "vnet list option \<times> rule_facts list"

fun rules_first :: "(vnet list \<Rightarrow> rule_facts list) \<Rightarrow> preparation monitor" where
  "rules_first expected (vs, ns) ev =
     (case put_rule_facts (fst ev) of
        Some n \<Rightarrow> Some (vs, push n ns)
      | None \<Rightarrow> (case vnets_read ev of
          Some vs' \<Rightarrow> Some (Some vs', ns)
        | None \<Rightarrow> (case fst ev of
            Network (PutSubnet _ _ _ (NewSubnet _ g)) \<Rightarrow>
              if g \<noteq> None \<and> (\<exists>v. vs = Some v \<and> ns = remdups_adj (expected v)) then Some (vs, ns) else None
          | _ \<Rightarrow> Some (vs, ns))))"

lemma remdups_adj_snoc: "remdups_adj (xs @ [x]) = push x (remdups_adj xs)"
  by (induction xs rule: remdups_adj.induct) (auto simp: push_def remdups_adj_Cons split: list.splits)

lemma map_filter_snoc: "List.map_filter f (xs @ [x]) = List.map_filter f xs @ (case f x of None \<Rightarrow> [] | Some y \<Rightarrow> [y])"
  by (auto simp: map_filter_def split: option.split)

lemma vnets_not_rule: "put_rule_facts (fst ev) = Some n \<Longrightarrow> vnets_read ev = None"
  by (cases ev rule: vnets_read.cases) auto

lemma track_rules_first:
  "track (rules_first expected) (None, []) es = Some s \<Longrightarrow> s = (last_vnets es, rules_put es)"
proof (induction es arbitrary: s rule: rev_induct)
  case Nil
  then show ?case by (simp add: last_vnets_def rules_put_def map_filter_simps)
next
  case (snoc ev es)
  from snoc.prems obtain t where t: "track (rules_first expected) (None, []) es = Some t"
      "rules_first expected t ev = Some s"
    by (auto simp: track_append split: option.splits)
  from snoc.IH [OF t(1)] t(2) show ?case
    by (auto simp: last_vnets_def rules_put_def map_filter_snoc remdups_adj_snoc vnets_not_rule
      split: option.splits request.splits network_request.splits subnet_parameters.splits if_splits list.splits)
qed

lemma rules_first_stays:
  assumes "put_rule_facts q = None" "\<And>g. q \<noteq> Network (ListVnets g)" "\<not> is_subnet_change q"
  shows "rules_first expected s (q, v) = Some s"
proof -
  have "vnets_read (q, v) = None" using assms(2) by (cases "(q, v)" rule: vnets_read.cases) auto
  with assms(1,3) show ?thesis
    by (cases s) (auto split: request.splits network_request.splits)
qed

lemma wp_create_rules_put:
  assumes "retry_law E" "ns' \<in> {ns, push f ns}" "k \<noteq> []" "rd_name rd = Some k" "f = (k, rd_access rd, src, dest)"
  shows "wp (rules_first expected)
     (create_network_security_group_rules E grp g [ARule rd] dest l start src)
     (\<lambda>_ s. s = (vs, push f ns)) (\<lambda>_ _. True) (\<lambda>_. True) (vs, ns')"
proof -
  let ?put = "\<lambda>s. s = (vs, ns) \<or> s = (vs, push f ns)"
  have idem: "push f (push f ns) = push f ns" by (simp add: push_def)
  have rule: "wp (rules_first expected) (create_network_security_group_rule E grp g (ARule rd) dest p src)
      (\<lambda>_ s. s = (vs, push f ns)) (\<lambda>_. ?put) (\<lambda>_. True) s" if "?put s" for p s
    unfolding create_network_security_group_rule_def
  proof (rule wp_retried [OF assms(1), where I = ?put])
    fix s assume "?put s"
    with assms(3-5) idem show "wp (rules_first expected)
      (case prepare_security_group_rule (ARule rd) dest p (AccessText ''Allow'') src of Inl e \<Rightarrow> Raise e
       | Inr rule \<Rightarrow> poll_result (call (Network (PutRule grp g (sr_name rule) rule))))
      (\<lambda>_ s. s = (vs, push f ns)) (\<lambda>e s. ?put s \<and> (retry_if_connection_error e \<longrightarrow> ?put s)) (\<lambda>_. True) s"
      by (auto simp: prepare_security_group_rule_def Let_def truthy_def wp_simps allowed_def split: option.split)
  qed (rule that)
  show ?thesis
    unfolding create_network_security_group_rules_def no_result_def
  proof (rule wp_retried [OF assms(1), where I = ?put])
    fix s assume "?put s"
    then show "wp (rules_first expected)
        (bnd (with_lock l (bnd (call (Network (ListRules grp g))) (\<lambda>r. bnd (expect as_rules r) (\<lambda>security_rules.
           create_rules E grp g dest src (rule_priority_generator (map sr_priority security_rules) start) [ARule rd]))))
         (\<lambda>_. Return RNone))
        (\<lambda>_ s. s = (vs, push f ns)) (\<lambda>e s. True \<and> (retry_if_connection_error e \<longrightarrow> ?put s)) (\<lambda>_. True) s"
      by (auto simp: wp_simps allowed_def intro!: wp_mono [OF rule] split: option.split sum.split)
  qed (use assms(2) in auto)
qed

fun facts_of :: "inbound_rule \<times> string \<times> address \<times> int \<Rightarrow> rule_facts" where
  "facts_of (ARule rd, dest, src, start) = (the (rd_name rd), rd_access rd, src, dest)"
| "facts_of (rule, dest, src, start) = ([], AccessText [], src, dest)"

lemma subnet_nsg_rules_named:
  "x \<in> set (subnet_nsg_rules sas nets c m v) \<Longrightarrow>
     \<exists>rd n. fst x = ARule rd \<and> rd_name rd = Some n \<and> n \<noteq> []"
  by (auto simp: subnet_nsg_rules_def allow_all_rule_def deny_all_rule_def rule_data_init_def)

lemma facts_of_subnet_nsg_rules:
  assumes "get_virtual_network_by_tag vs NETWORK_TYPE_TAG_NAME MGMT_NETWORK_TAG_VALUE = Some m"
    "get_virtual_network_by_tag vs NETWORK_TYPE_TAG_NAME SANDBOX_NETWORK_TAG_VALUE = Some v"
  shows "expected_rules sas nets c vs =
    map facts_of (subnet_nsg_rules sas nets c (hd (vn_address_prefixes m)) (hd (vn_address_prefixes v)))"
  by (simp add: expected_rules_def assms subnet_nsg_rules_def allow_all_rule_def deny_all_rule_def rule_data_init_def
    comp_def split_def)

lemma wp_subnet_nsg_rules:
  assumes "retry_law E" "get_virtual_network_by_tag vs NETWORK_TYPE_TAG_NAME MGMT_NETWORK_TAG_VALUE = Some m"
    "get_virtual_network_by_tag vs NETWORK_TYPE_TAG_NAME SANDBOX_NETWORK_TAG_VALUE = Some v"
  shows "wp (rules_first expected) (create_subnet_nsg_rules E g m v c n nets sas)
    (\<lambda>_ s. s = (Some vs, remdups_adj (expected_rules sas nets c vs))) (\<lambda>_ _. True) (\<lambda>_. True) (Some vs, [])"
proof (cases "vn_address_prefixes m = [] \<or> vn_address_prefixes v = []")
  case True
  then show ?thesis
    by (cases "vn_address_prefixes m") (auto simp: create_subnet_nsg_rules_def first_def wp_simps)
next
  case False
  let ?rules = "subnet_nsg_rules sas nets c (hd (vn_address_prefixes m)) (hd (vn_address_prefixes v))"
  note expected = facts_of_subnet_nsg_rules [OF assms(2,3), of sas nets c]
  have "wp (rules_first expected)
    (for_each (\<lambda>(rule, destination_addr, source_address, start_from).
       create_network_security_group_rules E g n [rule] destination_addr SubnetLocker (Some start_from) source_address) ?rules)
    (\<lambda>_ s. s = (Some vs, remdups_adj (map facts_of ?rules))) (\<lambda>_ _. True) (\<lambda>_. True) (Some vs, [])"
  proof (rule wp_for_each_upto [where I = "\<lambda>ys s. s = (Some vs, remdups_adj (map facts_of ys))"])
    fix ys x zs s
    assume split: "?rules = ys @ x # zs" and s: "s = (Some vs, remdups_adj (map facts_of ys))"
    from split have "x \<in> set ?rules" by simp
    from subnet_nsg_rules_named [OF this] obtain rd k d a st where
        x: "x = (ARule rd, d, a, st)" "rd_name rd = Some k" "k \<noteq> []" by (metis prod.collapse)
    have facts: "facts_of (ARule rd, d, a, st) = (k, rd_access rd, a, d)" using x by simp
    show "wp (rules_first expected)
       (case x of (rule, destination_addr, source_address, start_from) \<Rightarrow>
          create_network_security_group_rules E g n [rule] destination_addr SubnetLocker (Some start_from) source_address)
       (\<lambda>_ s. s = (Some vs, remdups_adj (map facts_of (ys @ [x])))) (\<lambda>_ _. True) (\<lambda>_. True) s"
      unfolding x(1) s prod.case map_append list.map facts remdups_adj_snoc
      by (rule wp_create_rules_put [OF assms(1) _ x(3,2) refl]) simp
  qed auto
  with False show ?thesis
    unfolding expected
    by (cases "vn_address_prefixes m"; cases "vn_address_prefixes v")
      (simp_all add: create_subnet_nsg_rules_def first_def wp_simps)
qed

lemma wp_read_vnets:
  assumes "retry_law E"
  shows "wp (rules_first expected) (bnd (get_virtual_networks E g) (expect as_vnets))
    (\<lambda>v s. s = (Some v, ns)) (\<lambda>_ _. True) (\<lambda>_. True) (vs, ns)"
proof -
  have "wp (rules_first expected) (get_virtual_networks E g)
      (\<lambda>r s. \<exists>v. r = RVnets v \<and> s = (Some v, ns)) (\<lambda>_ _. True) (\<lambda>_. True) (vs, ns)"
    unfolding get_virtual_networks_def
  proof (rule wp_retried [OF assms, where I = "\<lambda>s. snd s = ns"])
    fix s :: preparation assume "snd s = ns"
    moreover have "vnets_read (q, Inl e) = None" for q e by (cases "(q, Inl e :: answer)" rule: vnets_read.cases) auto
    moreover have "vnets_read (Network (ListVnets g), Inr r) = as_vnets r" for r by (cases r) auto
    ultimately show "wp (rules_first expected)
        (bnd (call (Network (ListVnets g))) (\<lambda>r. bnd (expect as_vnets r) (\<lambda>vs. Return (RVnets vs))))
        (\<lambda>r s. \<exists>v. r = RVnets v \<and> s = (Some v, ns)) (\<lambda>e s. True \<and> (retry_if_connection_error e \<longrightarrow> snd s = ns))
        (\<lambda>_. True) s"
      by (cases s) (auto simp: wp_simps allowed_def split: option.split)
  qed simp
  then show ?thesis
    unfolding wp_bnd by (rule wp_mono) (auto simp: wp_simps)
qed

lemma emits_create_subnets:
  assumes "retry_law E" "\<And>q v. (\<forall>g n k c. q \<noteq> PutSubnet g n k (NewSubnet c None)) \<Longrightarrow> put_rule_facts (Network q) = None \<Longrightarrow>
     (\<forall>g. q \<noteq> ListVnets g) \<Longrightarrow> P (Network q, v)" "\<And>q v. P (Poller q, v)"
    "\<And>v. P (Memory (Acquire SubnetLocker), v)" "\<And>v. P (Memory (Release SubnetLocker), v)"
  shows "emits P (create_sandbox_subnets E cp g (Some nsg) v sas)"
proof (induction sas arbitrary: v)
  case (Cons a sas)
  have "emits P (create_sandbox_subnet E c cp (Some nsg) v sn)" for c v sn
    unfolding create_sandbox_subnet_def create_subnet_def cleanup_stale_data_def Let_def
    by (auto intro!: emits_intros retried_intros emits_update_subnet emits_delete_subnet emits_raising assms split: list.split)
  with Cons show ?case by (cases a) (auto intro!: emits_intros simp: Let_def)
qed (simp add: emits_intros)

lemma wp_prepare_network:
  assumes "retry_law E"
  shows "wp (rules_first (expected_rules sas (cp_additional_mgmt_networks cp) c)) (prepare_network E rs cp c tags sas)
    (\<lambda>_ _. True) (\<lambda>_ _. True) (\<lambda>_. True) (None, [])"
proof -
  let ?step = "rules_first (expected_rules sas (cp_additional_mgmt_networks cp) c)"
  have stays: "?step s (Network (PutNsg g n r t), v) = Some s" "?step s (Poller q, v) = Some s"
      "?step s (Runtime q', v) = Some s" for s g n r t v q q'
    by (rule rules_first_stays; simp)+
  have subnets: "emits (\<lambda>ev. ?step s ev = Some s) (create_sandbox_subnets E cp g (Some nsg) v sas)"
    if "s = (Some vs, remdups_adj (expected_rules sas (cp_additional_mgmt_networks cp) c vs))" for s g nsg v vs
  proof (rule emits_create_subnets [OF assms])
    show "?step s (Network q, v) = Some s"
      if "\<forall>g n k c. q \<noteq> PutSubnet g n k (NewSubnet c None)" "put_rule_facts (Network q) = None" "\<forall>g. q \<noteq> ListVnets g" for q v
    proof -
      have "vnets_read (Network q, v) = None" using that(3) by (cases "(Network q, v)" rule: vnets_read.cases) auto
      then show ?thesis using that \<open>s = _\<close>
        by (auto split: network_request.splits subnet_parameters.splits)
    qed
  qed (rule rules_first_stays; simp)+
  have check: "emits (\<lambda>ev. ?step s ev = Some s) check_if_cancelled" for s
    by (intro emits_intros stays)
  have nsg: "emits (\<lambda>ev. ?step s ev = Some s) (bnd (create_network_security_group E g n r t) (expect as_nsg))" for s g n r t
    by (intro emits_intros emits_create_network_security_group assms stays)
  have rest: "wp ?step (thn check_if_cancelled
      (bnd (create_sandbox_subnets E cp g (Some nsg) v sas) (\<lambda>results. thn check_if_cancelled (Return results))))
      (\<lambda>_ _. True) (\<lambda>_ _. True) (\<lambda>_. True) s"
    if "s = (Some vs, remdups_adj (expected_rules sas (cp_additional_mgmt_networks cp) c vs))" for nsg v s vs g
    by (intro wp_bnd_stays check subnets [OF that]) simp_all
  have rules: "wp ?step (bnd (create_subnet_nsg_rules E g m v c n (cp_additional_mgmt_networks cp) sas) f)
      (\<lambda>_ _. True) (\<lambda>_ _. True) (\<lambda>_. True) (Some vs, [])"
    if "get_virtual_network_by_tag vs NETWORK_TYPE_TAG_NAME MGMT_NETWORK_TAG_VALUE = Some m"
      "get_virtual_network_by_tag vs NETWORK_TYPE_TAG_NAME SANDBOX_NETWORK_TAG_VALUE = Some v"
      "\<And>x. f x = thn check_if_cancelled
        (bnd (create_sandbox_subnets E cp g (Some nsg) v sas) (\<lambda>results. thn check_if_cancelled (Return results)))"
    for vs m v g n f nsg
    by (subst wp_bnd, rule wp_mono [OF wp_subnet_nsg_rules [OF assms that(1,2)]])
      (simp_all add: that(3) rest)
  show ?thesis
    unfolding prepare_network_def Let_def
    by (subst wp_bnd, rule wp_mono [OF wp_read_vnets [OF assms]])
      (auto simp: wp_bnd [of _ "raising _"] wp_raising validate_management_vnet_def validate_sandbox_vnet_def
        simp del: rules_first.simps intro!: rules wp_bnd_stays [where p = check_if_cancelled, OF check]
        wp_bnd_stays [where p = "bnd (create_network_security_group _ _ _ _ _) _", OF nsg] split: option.split)
qed


lemma sample_creates_subnet:
  "(Network (PutSubnet ''mgmt'' ''sandbox'' (format_subnet_name ''r-1'' ''10.1.0.0/29'')
      (NewSubnet ''10.1.0.0/29'' (Some (sample_nsg ''nsg'' [])))), Inr (RPoller 0))
    \<in> set (run_of sample_azure (prepare_connectivity sample_env [] sample_reservation
        (sample_provider [''10.9.0.0/16'']) sample_actions))" (is "?ev \<in> _")
proof -
  note vnets = sample_vnets_found sample_vnets_found [unfolded One_nat_def]
  have "vn_name (sample_vnets ! 1) = ''sandbox''" by code_simp
  then have "?ev \<in> set (run_of sample_azure (create_subnet sample_env ''mgmt''
      (format_subnet_name ''r-1'' ''10.1.0.0/29'') ''10.1.0.0/29'' (sample_vnets ! 1) (Some (sample_nsg ''nsg'' [])) True))"
    unfolding create_subnet_def
    by (intro calls_retried calls_bnd_first) (simp add: run_of_call)
  then have "?ev \<in> set (run_of sample_azure (create_sandbox_subnets sample_env (sample_provider [''10.9.0.0/16'']) ''r-1''
      (Some (sample_nsg ''nsg'' [])) (sample_vnets ! 1)
      [(''a2'', ''10.1.0.0/29'', False), (''a3'', ''10.1.0.8/29'', True)]))"
    unfolding create_sandbox_subnets.simps Let_def create_sandbox_subnet_def
    by (intro calls_bnd_first) (simp add: run_of_with_lock run_of_try_else sample_provider_facts)
  then have "?ev \<in> set (run_of sample_azure (prepare_network sample_env sample_reservation
       (sample_provider [''10.9.0.0/16'']) c t [(''a2'', ''10.1.0.0/29'', False), (''a3'', ''10.1.0.8/29'', True)]))" for c t
    by (simp add: prepare_network_def Let_def vnets validate_management_vnet_def validate_sandbox_vnet_def
      raising_def create_subnet_nsg_rules_def first_def subnet_nsg_rules_def sample_reservation_def
      sample_provider_facts allow_all_rule_def deny_all_rule_def run_of_bnd
      result_simps del: create_sandbox_subnets.simps cong: result_congs)
  then show ?thesis
    by (simp add: prepare_connectivity_def sample_actions_facts Let_def sample_storage_name run_of_bnd
      result_simps cong: result_congs)
qed


section \<open>Stale subnets\<close>

lemma create_subnet_raises:
  assumes "retry_law E" "exec (create_subnet E g sn c v nsg w) es (Err e)"
  shows "e = unexpected_answer \<or> (\<exists>q. (q, Inl e) \<in> set es)"
  using assms(2) unfolding create_subnet_def
  by (auto elim!: exec_retriedE [OF assms(1)] simp: exec_bnd exec_simps split: if_splits option.splits)

fun is_subnet_deletion :: "request \<Rightarrow> bool" where
  "is_subnet_deletion (Network (DeleteSubnet _ _ _)) \<longleftrightarrow> True"
| "is_subnet_deletion _ \<longleftrightarrow> False"

fun invalid_subnet_answer :: "answer \<Rightarrow> bool" where
  "invalid_subnet_answer (Inl e) \<longleftrightarrow> is_invalid_subnet e"
| "invalid_subnet_answer _ \<longleftrightarrow> False"

lemma stale_deletions:
  assumes "retry_law E" "exec (cleanup_stale_data E cp v cidr) es out" "ev \<in> set es" "is_subnet_deletion (fst ev)"
  shows "\<exists>s. find (\<lambda>s. sn_address_prefix s = cidr) (vn_subnets v) = Some s \<and>
     fst ev = Network (DeleteSubnet (cp_management_group_name cp) (vn_name v) (sn_name s))"
proof (cases "filter (\<lambda>x. sn_address_prefix x = cidr) (vn_subnets v)")
  case Nil
  with assms(2,3) show ?thesis by (simp add: cleanup_stale_data_def exec_simps)
next
  case (Cons s ss)
  let ?ok = "\<lambda>ev. is_subnet_deletion (fst ev) \<longrightarrow>
     fst ev = Network (DeleteSubnet (cp_management_group_name cp) (vn_name v) (sn_name s))"
  have "emits ?ok (cleanup_stale_data E cp v cidr)"
    unfolding cleanup_stale_data_def Cons list.case
    by (cases "sn_network_security_group s")
      (auto intro!: emits_intros emits_raising emits_update_subnet emits_delete_subnet assms(1)
        simp: bnd_assoc detach_stale_def)
  from emitsD [OF this assms(2)] assms(3,4) have "?ok ev" by (auto simp: list_all_iff)
  moreover have "find (\<lambda>s. sn_address_prefix s = cidr) (vn_subnets v) = Some s"
    by (simp add: find_filter Cons)
  ultimately show ?thesis using assms(4) by blast
qed

lemma create_deletes_nothing:
  assumes "retry_law E" "exec (create_subnet E g sn cidr v nsg w) es out" "ev \<in> set es"
  shows "\<not> is_subnet_deletion (fst ev)"
proof -
  have "emits (\<lambda>ev. \<not> is_subnet_deletion (fst ev)) (create_subnet E g sn cidr v nsg w)"
    unfolding create_subnet_def by (auto intro!: emits_intros retried_intros assms(1))
  from emitsD [OF this assms(2)] assms(3) show ?thesis by (auto simp: list_all_iff)
qed

text \<open>A run of a \<^verbatim>\<open>with\<close> block has a run of the body, between calls that take and give back the lock.\<close>

lemma exec_with_lock_body:
  assumes "exec (with_lock l p) es out"
  obtains a b es' where "es = (Memory (Acquire l), a) # es' @ b" "\<And>ev. ev \<in> set b \<Longrightarrow> fst ev = Memory (Release l)"
    "exec p es' out"
  using assms
proof (cases rule: exec_with_lockE)
  case (finished v es1 v')
  show ?thesis by (rule that [of v es1 "[(Memory (Release l), v')]"]) (use finished in auto)
next
  case (hang v es1)
  show ?thesis by (rule that [of v es1 "[]"]) (use hang in auto)
qed

text \<open>
  C34: While a subnet of the sandbox is created, another one is deleted only after the creation was
  refused as invalid, and it is the first subnet of the network with the same cidr.
\<close>

theorem stale_subnets_deleted:
  assumes "retry_law E" "exec (create_sandbox_subnet E cidr cp nsg v sn) es out"
    "ev \<in> set es" "is_subnet_deletion (fst ev)"
  shows "(\<exists>s. find (\<lambda>s. sn_address_prefix s = cidr) (vn_subnets v) = Some s \<and>
      fst ev = Network (DeleteSubnet (cp_management_group_name cp) (vn_name v) (sn_name s))) \<and>
    (\<exists>q a es1 es2. es = es1 @ (q, a) # es2 \<and> invalid_subnet_answer a \<and> ev \<in> set es2)"
proof -
  let ?create = "create_subnet E (cp_management_group_name cp) sn cidr v nsg True"
  let ?handler = "\<lambda>e. if is_invalid_subnet e then bnd (cleanup_stale_data E cp v cidr) (\<lambda>v. thn ?create (Return v))
    else Raise e"
  note create = create_deletes_nothing [OF assms(1)]
  obtain a b es' where es: "es = (Memory (Acquire SubnetLocker), a) # es' @ b"
      and b: "\<And>ev. ev \<in> set b \<Longrightarrow> fst ev = Memory (Release SubnetLocker)"
      and body: "exec (try_else ?create ?handler (\<lambda>_. Return v)) es' out"
    using assms(2) unfolding create_sandbox_subnet_def Let_def by (rule exec_with_lock_body) (rule that)
  with assms(3,4) have ev: "ev \<in> set es'" by (auto dest: b)
  from body obtain e es1 es2 where raised: "exec ?create es1 (Err e)" and handled: "exec (?handler e) es2 out" "es' = es1 @ es2"
    using ev assms(4) by (auto simp: exec_try_else exec_simps dest: create)
  with ev assms(4) have in2: "ev \<in> set es2" by (auto dest: create)
  with handled(1) have invalid: "is_invalid_subnet e" by (auto simp: exec_simps split: if_splits)
  with handled(1) obtain es3 es4 out3 where "exec (cleanup_stale_data E cp v cidr) es3 out3" "ev \<in> set es3"
    using in2 assms(4) by (auto simp: exec_bnd exec_simps dest: create)
  from stale_deletions [OF assms(1) this assms(4)] have "\<exists>s. find (\<lambda>s. sn_address_prefix s = cidr) (vn_subnets v) = Some s \<and>
      fst ev = Network (DeleteSubnet (cp_management_group_name cp) (vn_name v) (sn_name s))" .
  moreover from create_subnet_raises [OF assms(1) raised] invalid obtain q where "(q, Inl e) \<in> set es1"
    by (auto simp: unexpected_answer_def)
  then obtain xs ys where "es1 = xs @ (q, Inl e) # ys" by (blast dest: split_list)
  then have "es = ((Memory (Acquire SubnetLocker), a) # xs) @ (q, Inl e) # (ys @ es2 @ b) \<and>
      invalid_subnet_answer (Inl e) \<and> ev \<in> set (ys @ es2 @ b)"
    using es handled(2) invalid in2 by simp
  ultimately show ?thesis by blast
qed

definition sample_refused :: exn where
  "sample_refused = CloudError ''Bad Request'' ''invalid'' ''NetcfgInvalidSubnet: overlaps''"

definition sample_stale_run :: "event list" where
  "sample_stale_run =
    [(Memory (Acquire SubnetLocker), Inr RNone),
     (Network (PutSubnet ''mgmt'' ''sandbox'' ''new'' (NewSubnet ''10.1.0.0/29'' None)), Inl sample_refused),
     (Network (DeleteSubnet ''mgmt'' ''sandbox'' ''old''), Inr (RPoller 0)),
     (Poller (PollWait 0), Inr RNone),
     (Network (PutSubnet ''mgmt'' ''sandbox'' ''new'' (NewSubnet ''10.1.0.0/29'' None)), Inr (RPoller 1)),
     (Poller (PollResult 1), Inr RNone),
     (Memory (Release SubnetLocker), Inr RNone)]"

definition sample_stale_vnet :: vnet where
  "sample_stale_vnet = sample_vnet ''sandbox'' SANDBOX_NETWORK_TAG_VALUE ''10.1.0.0/16''
     [sample_subnet ''other'' ''10.1.0.8/29'', sample_subnet ''old'' ''10.1.0.0/29'']"

lemma sample_stale_exec:
  "exec (create_sandbox_subnet sample_env ''10.1.0.0/29'' (sample_provider []) None sample_stale_vnet ''new'')
     sample_stale_run (Ok sample_stale_vnet)"
  by (rule exec_replay [where vs = "map snd sample_stale_run"]) code_simp

theorem stale_subnets_deleted_witness:
  "(\<exists>s. find (\<lambda>s. sn_address_prefix s = ''10.1.0.0/29'') (vn_subnets sample_stale_vnet) = Some s \<and>
      fst (Network (DeleteSubnet ''mgmt'' ''sandbox'' ''old''), Inr (RPoller 0) :: answer) =
        Network (DeleteSubnet (cp_management_group_name (sample_provider [])) (vn_name sample_stale_vnet) (sn_name s))) \<and>
    (\<exists>q a es1 es2. sample_stale_run = es1 @ (q, a) # es2 \<and> invalid_subnet_answer a \<and>
      (Network (DeleteSubnet ''mgmt'' ''sandbox'' ''old''), Inr (RPoller 0)) \<in> set es2)"
  by (rule stale_subnets_deleted [OF sample_env_law sample_stale_exec]) (simp_all add: sample_stale_run_def)

end
