(* ===== verification/NetworkActions.thy ===== *)
theory NetworkActions
  imports AzureModel "HOL-Library.Option_ord" "HOL-Library.Multiset"
begin

text \<open>
  \<^verbatim>\<open>models/network_actions_models.py\<close>, \<^verbatim>\<open>domain/services/parsers/connection_params.py\<close> and
  \<^verbatim>\<open>domain/services/parsers/network_actions.py\<close>: the actions that connect an app to subnets, how
  they are read, and in which order they are carried out.
\<close>

section \<open>The models\<close>

record network_attribute =
  na_name :: string
  na_value :: string

record subnet_connection_params =
  scp_cidr :: string
  scp_subnet_service_attributes :: "network_attribute list"
  scp_custom_attributes :: "network_attribute list"
  scp_subnet_id :: string

definition VNIC_NAME_ATTRIBUTE :: string where "VNIC_NAME_ATTRIBUTE = ''Vnic Name''"

text \<open>The first attribute of the name counts; a subnet is public by default.\<close>

definition is_public_subnet :: "subnet_connection_params \<Rightarrow> bool" where
  "is_public_subnet params =
     (case find (\<lambda>attr. na_name attr = ''Public'') (scp_subnet_service_attributes params) of
        Some attr \<Rightarrow> py_lower (na_value attr) = ''true''
      | None \<Rightarrow> True)"

definition device_index :: "subnet_connection_params \<Rightarrow> int option" where
  "device_index params =
     (case find (\<lambda>attr. na_name attr = VNIC_NAME_ATTRIBUTE) (scp_custom_attributes params) of
        Some attr \<Rightarrow> py_int (na_value attr)
      | None \<Rightarrow> None)"

text \<open>A parsed connection: of an app to a subnet, the request for a subnet, or for the network.\<close>

record prepare_subnet_params =
  psp_cidr :: string
  psp_alias :: string
  psp_is_public :: bool
  psp_subnet_service_attributes :: "network_attribute list"

datatype connection_params =
    SubnetConnection subnet_connection_params
  | PrepareSubnetConnection prepare_subnet_params
  | PrepareNetworkConnection string "network_attribute list"

record network_action =
  nact_id :: string
  nact_connection_params :: "connection_params option"

section \<open>The parsers\<close>

text \<open>
  What the server sends: the parameter classes of \<^verbatim>\<open>cloudshell.cp.core.models\<close> with the fields that
  are read, each with its cidr and its service attributes. \<open>vnicName\<close> may be missing; \<open>isPublic\<close> is a
  bool or a text.
\<close>

datatype bool_or_text = PyBool bool | PyText string

datatype action_params =
    ConnectToSubnetParams string "string option" string dict
  | PrepareSubnetParams bool_or_text string string dict
  | PrepareCloudInfraParams string dict
  | OtherActionParams

fun convert_to_bool :: "bool_or_text \<Rightarrow> bool" where
  "convert_to_bool (PyBool b) = b"
| "convert_to_bool (PyText s) \<longleftrightarrow> s \<in> {''true'', ''True'', ''1''}"

definition parse_subnet_service_attributes :: "dict \<Rightarrow> network_attribute list" where
  "parse_subnet_service_attributes = map (\<lambda>(n, v). \<lparr>na_name = n, na_value = v\<rparr>)"

definition vnic_attributes :: "string option \<Rightarrow> network_attribute list" where
  "vnic_attributes vnic = (case vnic of
     None \<Rightarrow> [] | Some v \<Rightarrow> [\<lparr>na_name = VNIC_NAME_ATTRIBUTE, na_value = v\<rparr>])"

fun parse_connection_params :: "action_params option \<Rightarrow> exn + connection_params option" where
  "parse_connection_params None = Inr None"
| "parse_connection_params (Some (ConnectToSubnetParams subnet_id vnic cidr attrs)) =
     Inr (Some (SubnetConnection \<lparr>scp_cidr = cidr,
       scp_subnet_service_attributes = parse_subnet_service_attributes attrs,
       scp_custom_attributes = vnic_attributes vnic, scp_subnet_id = subnet_id\<rparr>))"
| "parse_connection_params (Some (PrepareSubnetParams is_public alias cidr attrs)) =
     Inr (Some (PrepareSubnetConnection \<lparr>psp_cidr = cidr, psp_alias = alias,
       psp_is_public = convert_to_bool is_public,
       psp_subnet_service_attributes = parse_subnet_service_attributes attrs\<rparr>))"
| "parse_connection_params (Some (PrepareCloudInfraParams cidr attrs)) =
     Inr (Some (PrepareNetworkConnection cidr (parse_subnet_service_attributes attrs)))"
| "parse_connection_params (Some OtherActionParams) =
     Inl (ValueError ''Unsupported connection params type <type type>'')"

text \<open>The log line of the loop reads the subnet id, which only a connection to a subnet has.\<close>

fun subnet_id_of :: "connection_params option \<Rightarrow> exn + string" where
  "subnet_id_of (Some (SubnetConnection params)) = Inr (scp_subnet_id params)"
| "subnet_id_of (Some (PrepareSubnetConnection params)) =
     Inl (AttributeError ''PrepareSubnetParamsData instance has no attribute subnet_id'')"
| "subnet_id_of (Some (PrepareNetworkConnection c attrs)) =
     Inl (AttributeError ''PrepareNetworkParams instance has no attribute subnet_id'')"
| "subnet_id_of None = Inl (none_attribute ''subnet_id'')"

definition parse_network_action :: "string \<times> action_params option \<Rightarrow> exn + network_action" where
  "parse_network_action action = (case parse_connection_params (snd action) of
     Inl e \<Rightarrow> Inl e
   | Inr params \<Rightarrow> (case subnet_id_of params of
       Inl e \<Rightarrow> Inl e
     | Inr _ \<Rightarrow> Inr \<lparr>nact_id = fst action, nact_connection_params = params\<rparr>))"

text \<open>\<open>None\<close> for what is not a list, and for an empty list.\<close>

definition parse_network_actions_data ::
  "(string \<times> action_params option) list option \<Rightarrow> exn + network_action list option"
where
  "parse_network_actions_data actions_data = (case actions_data of
     None \<Rightarrow> Inr None
   | Some actions \<Rightarrow> (case collect parse_network_action actions of
       Inl e \<Rightarrow> Inl e
     | Inr parsed_data \<Rightarrow> Inr (if parsed_data = [] then None else Some parsed_data)))"

text \<open>The connections of a deployment, by their device index; without an index they come first.\<close>

definition by_device_index :: "subnet_connection_params list \<Rightarrow> subnet_connection_params list" where
  "by_device_index = sort_key device_index"

section \<open>What a connection says is what was sent\<close>

lemma parsed_vnic:
  "device_index \<lparr>scp_cidr = c, scp_subnet_service_attributes = as, scp_custom_attributes = vnic_attributes vnic,
     scp_subnet_id = s\<rparr> = Option.bind vnic py_int"
  by (simp add: device_index_def vnic_attributes_def split: option.split)

lemma find_parsed_attribute:
  "find (\<lambda>attr. na_name attr = n) (parse_subnet_service_attributes d) =
     map_option (\<lambda>v. \<lparr>na_name = n, na_value = v\<rparr>) (map_of d n)"
  by (induction d) (auto simp: parse_subnet_service_attributes_def)

lemma parsed_public:
  "is_public_subnet \<lparr>scp_cidr = c, scp_subnet_service_attributes = parse_subnet_service_attributes attrs,
     scp_custom_attributes = as, scp_subnet_id = s\<rparr> \<longleftrightarrow>
     (case map_of attrs ''Public'' of None \<Rightarrow> True | Some v \<Rightarrow> py_lower v = ''true'')"
  by (simp add: is_public_subnet_def find_parsed_attribute split: option.split)

lemma collect_Inr_list_all2: "collect f xs = Inr ys \<Longrightarrow> list_all2 (\<lambda>x y. f x = Inr y) xs ys"
  by (induction xs arbitrary: ys) (auto split: sum.splits)

text \<open>
  C35: The parsed network actions are the actions that were sent, in their order: each is a connection
  to a subnet with the id and the subnet that were sent, the device index is the number in the name
  of the network card, if there is one, and the subnet is public unless it is marked otherwise. An
  action of another kind is refused.
\<close>

theorem parsed_network_actions:
  assumes "parse_network_actions_data (Some actions) = Inr (Some parsed)"
  shows "parsed \<noteq> [] \<and> list_all2 (\<lambda>(i, ps) a. \<exists>s vnic c attrs params.
    ps = Some (ConnectToSubnetParams s vnic c attrs) \<and> nact_id a = i \<and>
    nact_connection_params a = Some (SubnetConnection params) \<and> scp_subnet_id params = s \<and>
    device_index params = Option.bind vnic py_int \<and>
    (is_public_subnet params \<longleftrightarrow> (case map_of attrs ''Public'' of None \<Rightarrow> True | Some v \<Rightarrow> py_lower v = ''true'')))
    actions parsed"
proof -
  from assms have "parsed \<noteq> []" and all: "list_all2 (\<lambda>x y. parse_network_action x = Inr y) actions parsed"
    by (auto simp: parse_network_actions_data_def split: sum.splits if_splits dest: collect_Inr_list_all2)
  moreover have "\<exists>s vnic c attrs params.
      snd x = Some (ConnectToSubnetParams s vnic c attrs) \<and> nact_id a = fst x \<and>
      nact_connection_params a = Some (SubnetConnection params) \<and> scp_subnet_id params = s \<and>
      device_index params = Option.bind vnic py_int \<and>
      (is_public_subnet params \<longleftrightarrow> (case map_of attrs ''Public'' of None \<Rightarrow> True | Some v \<Rightarrow> py_lower v = ''true''))"
    if "parse_network_action x = Inr a" for x a
  proof -
    from that obtain params s where p: "parse_connection_params (snd x) = Inr params" "subnet_id_of params = Inr s"
      and a: "a = \<lparr>nact_id = fst x, nact_connection_params = params\<rparr>"
      by (auto simp: parse_network_action_def split: sum.splits)
    from p show ?thesis unfolding a
      by (cases "snd x" rule: parse_connection_params.cases)
        (auto simp: parsed_vnic parsed_public)
  qed
  ultimately show ?thesis by (auto elim!: list_all2_mono split: prod.split)
qed

theorem parsed_network_actions_witness:
  "[\<lparr>nact_id = ''a1'', nact_connection_params = Some (SubnetConnection \<lparr>scp_cidr = ''10.0.0.0/24'',
      scp_subnet_service_attributes = [\<lparr>na_name = ''Public'', na_value = ''False''\<rparr>],
      scp_custom_attributes = [\<lparr>na_name = VNIC_NAME_ATTRIBUTE, na_value = ''1''\<rparr>],
      scp_subnet_id = ''s1''\<rparr>)\<rparr>] \<noteq> []"
proof -
  have run: "parse_network_actions_data (Some [(''a1'', Some (ConnectToSubnetParams ''s1'' (Some ''1'') ''10.0.0.0/24''
      [(''Public'', ''False'')]))]) =
    Inr (Some [\<lparr>nact_id = ''a1'', nact_connection_params = Some (SubnetConnection \<lparr>scp_cidr = ''10.0.0.0/24'',
      scp_subnet_service_attributes = [\<lparr>na_name = ''Public'', na_value = ''False''\<rparr>],
      scp_custom_attributes = [\<lparr>na_name = VNIC_NAME_ATTRIBUTE, na_value = ''1''\<rparr>],
      scp_subnet_id = ''s1''\<rparr>)\<rparr>])"
    by code_simp
  from parsed_network_actions [OF run] show ?thesis by (rule conjunct1)
qed

text \<open>
  The connections of a deployment are carried out in the order of their device index, those
  without an index first and those of the same index in the order they were sent; none is lost.
\<close>

lemma connections_in_device_order:
  "sorted (map device_index (by_device_index actions)) \<and> mset (by_device_index actions) = mset actions \<and>
   filter (\<lambda>a. device_index a = k) (by_device_index actions) = filter (\<lambda>a. device_index a = k) actions \<and>
   (\<exists>n. list_all (\<lambda>a. device_index a = None) (take n (by_device_index actions)) \<and>
     list_all (\<lambda>a. device_index a \<noteq> None) (drop n (by_device_index actions)))"
proof -
  have split: "\<exists>n. list_all (\<lambda>a. device_index a = None) (take n xs) \<and> list_all (\<lambda>a. device_index a \<noteq> None) (drop n xs)"
    if "sorted (map device_index xs)" for xs
    using that
  proof (induction xs)
    case (Cons a xs)
    show ?case
    proof (cases "device_index a")
      case None
      from Cons obtain n where "list_all (\<lambda>a. device_index a = None) (take n xs) \<and>
          list_all (\<lambda>a. device_index a \<noteq> None) (drop n xs)" by auto
      with None show ?thesis by (intro exI [of _ "Suc n"]) simp
    next
      case (Some i)
      with Cons.prems have "\<forall>b \<in> set xs. Some i \<le> device_index b" by simp
      with Some have "list_all (\<lambda>a. device_index a \<noteq> None) (a # xs)"
        by (auto simp: list_all_iff less_eq_option_def split: option.splits dest!: bspec)
      then show ?thesis by (intro exI [of _ 0]) simp
    qed
  qed simp
  show ?thesis
    unfolding by_device_index_def using split [of "sort_key device_index actions"]
    by (simp add: sort_key_stable)
qed

end
