(* ===== verification/DeployVm.thy ===== *)
theory DeployVm
  imports SampleRuns RuleParsers VmExtension VmDetails LockService NetworkActions
begin

text \<open>
  \<^verbatim>\<open>domain/vm_management/operations/deploy_operation.py\<close>: a virtual machine is deployed: its name,
  image, size and network cards are worked out, its security group, its network cards and its
  credentials are made, then the machine itself and the script extension; when anything fails,
  what was made is taken back.
\<close>

section \<open>The models\<close>

text \<open>\<^verbatim>\<open>models/nic_request.py\<close>; a request is \<open>None\<close> when no subnet was found.\<close>

record nic_request =
  nrq_interface_name :: string
  nrq_subnet :: subnet
  nrq_is_public :: bool

text \<open>
  \<^verbatim>\<open>models/deploy_azure_vm_resource_models.py\<close>: the two deployment models differ in the image.
  \<open>allow_all_sandbox_traffic\<close> is a bool or a text.
\<close>

record deployment_model =
  dm_image :: deployment_image
  dm_vm_size :: string
  dm_disk_size :: string
  dm_add_public_ip :: bool
  dm_inbound_ports :: string
  dm_public_ip_type :: string
  dm_app_name :: string
  dm_username :: "string option"
  dm_password :: "string option"
  dm_extension_script_file :: string
  dm_extension_script_configurations :: string
  dm_extension_script_timeout :: int
  dm_disk_type :: string
  dm_allow_all_sandbox_traffic :: bool_or_text
  dm_enable_ip_forwarding :: bool
  dm_network_configurations :: "subnet_connection_params list"
  dm_autoload :: bool

text \<open>\<^verbatim>\<open>DeployDataModel\<close>; \<open>dd_vm_credentials\<close> is \<^verbatim>\<open>None\<close> until they are made.\<close>

record deploy_data =
  dd_reservation :: reservation
  dd_group_name :: string
  dd_computer_name :: string
  dd_vm_name :: string
  dd_vm_size :: string
  dd_storage_account_name :: string
  dd_tags :: dict
  dd_image_model :: image_data
  dd_nics :: "nic list"
  dd_vm_credentials :: "vm_credentials option"
  dd_primary_private_ip_address :: string
  dd_all_private_ip_addresses :: "string list"
  dd_public_ip_address :: "string option"
  dd_nic_requests :: "nic_request option list"
  dd_enable_ip_forwarding :: bool

record deploy_app_result =
  dar_vm_uuid :: string
  dar_vm_name :: string
  dar_deployed_app_address :: string
  dar_deployed_app_attributes :: "(string \<times> string option) list"
  dar_vm_details_data :: vm_details_data

section \<open>Preparing the data\<close>

definition all_private :: "bool list \<Rightarrow> bool" where
  "all_private network_actions \<longleftrightarrow> network_actions \<noteq> [] \<and> list_all (\<lambda>is_public. \<not> is_public) network_actions"

text \<open>The network actions are given by their flag \<^verbatim>\<open>actionParams.isPublic\<close>.\<close>

definition validate_deployment_model :: "deployment_model \<Rightarrow> os_type \<Rightarrow> bool list \<Rightarrow> exn + unit" where
  "validate_deployment_model dm image_os network_actions =
     (if all_private network_actions \<and> dm_add_public_ip dm
      then Inl (ValueError ''Cannot deploy app with public ip when connected only to private subnets'')
      else if dm_extension_script_file dm \<noteq> []
      then validate_script_extension image_os (dm_extension_script_file dm)
        (dm_extension_script_configurations dm)
      else Inr ())"

definition prepare_computer_name :: "string \<Rightarrow> string \<Rightarrow> os_type \<Rightarrow> string prog" where
  "prepare_computer_name name postfix image_os =
     (let max_length = (if image_os = Windows then 15 else 64)
      in generate_name name (Some postfix) max_length)"

definition prepare_vm_size :: "deployment_model \<Rightarrow> cloud_provider \<Rightarrow> exn + string" where
  "prepare_vm_size dm cp =
     (let machine_size = (if dm_vm_size dm \<noteq> [] then dm_vm_size dm else cp_vm_size cp)
      in if machine_size = []
         then Inl (PyException (''There is no value for \"VM Size\" attribute neither on the '' @
           ''Deployment model nor on the Cloud Provider one''))
         else Inr machine_size)"

definition interface_name_at :: "string \<Rightarrow> nat \<Rightarrow> string" where
  "interface_name_at name i = name @ ''-'' @ nat_str i"

text \<open>
  Without network actions there is one request, for the first subnet of the sandbox, or \<^verbatim>\<open>None\<close>;
  otherwise one for each connection whose subnet is found, named by the place of the connection.
\<close>

definition default_nic_requests :: "string \<Rightarrow> subnet list \<Rightarrow> string \<Rightarrow> nic_request option list" where
  "default_nic_requests resource_group_name subnets name =
     [map_option (\<lambda>s. \<lparr>nrq_interface_name = interface_name_at name 0, nrq_subnet = s, nrq_is_public = True\<rparr>)
        (find (\<lambda>s. py_in resource_group_name (sn_name s)) subnets)]"

definition connection_nic_request ::
  "subnet list \<Rightarrow> string \<Rightarrow> nat \<times> subnet_connection_params \<Rightarrow> nic_request option"
where
  "connection_nic_request subnets name ic = (case ic of (i, params) \<Rightarrow>
     map_option (\<lambda>s. \<lparr>nrq_interface_name = interface_name_at name i, nrq_subnet = s,
         nrq_is_public = is_public_subnet params\<rparr>)
       (find (\<lambda>s. sn_name s = scp_subnet_id params) subnets))"

definition connection_nic_requests ::
  "subnet_connection_params list \<Rightarrow> subnet list \<Rightarrow> string \<Rightarrow> nic_request option list"
where
  "connection_nic_requests network_configurations subnets name =
     map Some (List.map_filter (connection_nic_request subnets name)
       (List.enumerate 0 (by_device_index network_configurations)))"

definition get_nic_requests ::
  "env \<Rightarrow> cloud_provider \<Rightarrow> deployment_model \<Rightarrow> string \<Rightarrow> string \<Rightarrow> nic_request option list prog"
where
  "get_nic_requests E cp dm resource_group_name name =
     bnd (get_sandbox_virtual_network E (cp_management_group_name cp)) (\<lambda>sandbox_virtual_network.
     case sandbox_virtual_network of
       None \<Rightarrow> Raise (none_attribute ''subnets'')
     | Some v \<Rightarrow> Return
         (if dm_network_configurations dm = [] then default_nic_requests resource_group_name (vn_subnets v) name
          else connection_nic_requests (dm_network_configurations dm) (vn_subnets v) name))"

definition prepare_deploy_data ::
  "env \<Rightarrow> reservation \<Rightarrow> deployment_model \<Rightarrow> cloud_provider \<Rightarrow> bool list \<Rightarrow> deploy_data prog"
where
  "prepare_deploy_data E rs dm cp network_actions =
     bnd (get_image_data_model E (cp_region cp) (dm_image dm)) (\<lambda>image_data_model.
     bnd (raising (validate_deployment_model dm (image_os_type image_data_model) network_actions)) (\<lambda>_.
     bnd generate_short_unique_string (\<lambda>resource_postfix.
     case normalize_name (Some (dm_app_name dm)) of
       None \<Rightarrow> Raise (TypeError ''expected string or buffer'')
     | Some app_name \<Rightarrow>
     bnd (generate_name app_name (Some resource_postfix) 64) (\<lambda>unique_resource_name.
     bnd (prepare_computer_name app_name resource_postfix (image_os_type image_data_model)) (\<lambda>computer_name.
     bnd (raising (prepare_vm_size dm cp)) (\<lambda>machine_size.
     bnd (get_nic_requests E cp dm (rs_reservation_id rs) unique_resource_name) (\<lambda>nic_requests.
     bnd (get_sandbox_storage_account_name E (rs_reservation_id rs)) (\<lambda>storage_account_name.
     Return \<lparr>dd_reservation = rs, dd_group_name = rs_reservation_id rs, dd_computer_name = computer_name,
       dd_vm_name = unique_resource_name, dd_vm_size = machine_size,
       dd_storage_account_name = storage_account_name, dd_tags = get_tags (Some unique_resource_name) rs,
       dd_image_model = image_data_model, dd_nics = [], dd_vm_credentials = None,
       dd_primary_private_ip_address = [], dd_all_private_ip_addresses = [], dd_public_ip_address = Some [],
       dd_nic_requests = nic_requests, dd_enable_ip_forwarding = dm_enable_ip_forwarding dm\<rparr>))))))))"

section \<open>The security group of the machine\<close>

definition get_management_vnet_cidr :: "env \<Rightarrow> cloud_provider \<Rightarrow> string prog" where
  "get_management_vnet_cidr E cp =
     bnd (bnd (get_virtual_networks E (cp_management_group_name cp)) (expect as_vnets)) (\<lambda>virtual_networks.
     case get_virtual_network_by_tag virtual_networks NETWORK_TYPE_TAG_NAME MGMT_NETWORK_TAG_VALUE of
       None \<Rightarrow> Raise (none_attribute ''address_space'')
     | Some management_vnet \<Rightarrow> first (vn_address_prefixes management_vnet))"

definition any_traffic_rule :: "access \<Rightarrow> string \<Rightarrow> inbound_rule" where
  "any_traffic_rule acc security_rule_name =
     ARule (rule_data_init AnyProtocol (Some ''*'') None None acc (Some security_rule_name))"

fun blocks_sandbox_traffic :: "bool_or_text \<Rightarrow> bool" where
  "blocks_sandbox_traffic (PyBool b) \<longleftrightarrow> \<not> b"
| "blocks_sandbox_traffic (PyText s) \<longleftrightarrow> s = [] \<or> s = ''False''"

definition vm_nsg_name :: "string \<Rightarrow> string" where
  "vm_nsg_name name = ''NSG_'' @ name"

text \<open>
  The rules that are created one by one: the rule, where its priority starts and its source. The
  rules for the additional networks are created without a source, which stands for the internet.
\<close>

definition vm_nsg_rules :: "cloud_provider \<Rightarrow> deployment_model \<Rightarrow> string \<Rightarrow> (inbound_rule \<times> int \<times> address) list" where
  "vm_nsg_rules cp dm management_vnet_cidr =
     map (\<lambda>mgmt_network. (any_traffic_rule AccessAllow (''Allow_'' @ py_replace CHR ''/'' ''-'' mgmt_network),
       3000, InternetHop)) (cp_additional_mgmt_networks cp) @
     [(any_traffic_rule AccessAllow ''Allow_Traffic_From_Management_Vnet_To_Any'', 4070, Addr management_vnet_cidr)] @
     (if blocks_sandbox_traffic (dm_allow_all_sandbox_traffic dm)
      then [(any_traffic_rule AccessAllow ''Allow_Azure_Load_Balancer'', 4080, Addr ''AzureLoadBalancer''),
            (any_traffic_rule AccessDeny ''Deny_Sandbox_Traffic'', 4090, Addr ''VirtualNetwork'')]
      else [])"

definition create_vm_network_security_group ::
  "env \<Rightarrow> cloud_provider \<Rightarrow> deploy_data \<Rightarrow> deployment_model \<Rightarrow> nsg prog"
where
  "create_vm_network_security_group E cp data dm =
     (let group_name = dd_group_name data; security_group_name = vm_nsg_name (dd_vm_name data);
          tags = get_tags (Some (dd_vm_name data)) (dd_reservation data) in
     bnd (get_management_vnet_cidr E cp) (\<lambda>management_vnet_cidr.
     bnd (get_sandbox_virtual_network E group_name) (\<lambda>_.
     bnd (bnd (create_network_security_group E group_name security_group_name (cp_region cp) (Some tags))
       (expect as_nsg)) (\<lambda>vm_nsg.
     bnd (get_resource_lock security_group_name) (\<lambda>vm_nsg_lock.
     thn (if dm_inbound_ports dm \<noteq> []
          then bnd (raising (rules_parse_port_group_attribute (dm_inbound_ports dm))) (\<lambda>inbound_rules.
            create_network_security_group_rules E group_name security_group_name (map ARule inbound_rules)
              ''*'' vm_nsg_lock (Some 1000) InternetHop)
          else Return RNone)
     (thn (for_each (\<lambda>(rule, start_from, source_address).
       create_network_security_group_rules E group_name security_group_name [rule] ''*'' vm_nsg_lock
         (Some start_from) source_address) (vm_nsg_rules cp dm management_vnet_cidr))
     (thn check_if_cancelled (Return vm_nsg))))))))"

section \<open>Network cards and credentials\<close>

fun protocol_text :: "protocol \<Rightarrow> string" where
  "protocol_text AnyProtocol = ''SecurityRuleProtocol.asterisk''"
| "protocol_text (Proto p) = p"

definition name_inbound_rule :: "string \<Rightarrow> rule_data \<Rightarrow> rule_data" where
  "name_inbound_rule name rule = rule\<lparr>rd_name := Some (py_replace CHR '' '' [] name @ ''_inbound_ports:'' @
     rule_port_range rule @ '':'' @ protocol_text (rd_protocol rule))\<rparr>"

definition interface_name :: "nic_request option \<Rightarrow> exn + string" where
  "interface_name nr = (case nr of
     None \<Rightarrow> Inl (none_attribute ''interface_name'') | Some r \<Rightarrow> Inr (nrq_interface_name r))"

text \<open>One network card: it is made with its public address, and its private address is read.\<close>

definition create_requested_nic ::
  "env \<Rightarrow> cloud_provider \<Rightarrow> deployment_model \<Rightarrow> deploy_data \<Rightarrow> nsg \<Rightarrow> nic_request option \<Rightarrow> (nic \<times> string) prog"
where
  "create_requested_nic E cp dm data vm_nsg nr =
     (case nr of
        None \<Rightarrow> Raise (none_attribute ''interface_name'')
      | Some r \<Rightarrow>
         (let ip_name = get_ip_from_interface_name (nrq_interface_name r);
              add_public_ip = dm_add_public_ip dm \<and> nrq_is_public r in
          bnd (create_network_for_vm E (dd_group_name data) (nrq_interface_name r) ip_name cp (nrq_subnet r)
            (dd_tags data) add_public_ip (dm_public_ip_type dm) (rs_reservation_id (dd_reservation data))
            (dd_enable_ip_forwarding data) (Some vm_nsg)) (\<lambda>n.
          bnd (first (nic_ip_configurations n)) (\<lambda>c. Return (n, ipc_private_ip_address c)))))"

definition nic_created :: "nat \<Rightarrow> nic \<Rightarrow> string \<Rightarrow> deploy_data \<Rightarrow> deploy_data" where
  "nic_created i n private_ip_address data = data\<lparr>
     dd_all_private_ip_addresses := dd_all_private_ip_addresses data @ [private_ip_address],
     dd_primary_private_ip_address := (if i = 0 then private_ip_address else dd_primary_private_ip_address data),
     dd_nics := dd_nics data @ [n]\<rparr>"

text \<open>
  The data is changed in place, so it is handed back with the exception when the loop fails.
\<close>

fun create_requested_nics ::
  "env \<Rightarrow> cloud_provider \<Rightarrow> deployment_model \<Rightarrow> nsg \<Rightarrow> string \<Rightarrow> rule_data list \<Rightarrow> lock \<Rightarrow> deploy_data \<Rightarrow>
     (nat \<times> nic_request option) list \<Rightarrow> (deploy_data \<times> (exn + unit)) prog"
where
  "create_requested_nics E cp dm vm_nsg subnets_nsg_name inbound_rules subnet_nsg_lock data [] =
     Return (data, Inr ())"
| "create_requested_nics E cp dm vm_nsg subnets_nsg_name inbound_rules subnet_nsg_lock data ((i, nr) # rest) =
     bnd (attempt (create_requested_nic E cp dm data vm_nsg nr)) (\<lambda>r. case r of
       Inl e \<Rightarrow> Return (data, Inl e)
     | Inr (n, private_ip_address) \<Rightarrow>
        (let data = nic_created i n private_ip_address data in
         bnd (attempt (create_network_security_group_rules E (dd_group_name data) subnets_nsg_name
           (map ARule inbound_rules) private_ip_address subnet_nsg_lock (Some 1000) InternetHop)) (\<lambda>r.
         case r of
           Inl e \<Rightarrow> Return (data, Inl e)
         | Inr _ \<Rightarrow> create_requested_nics E cp dm vm_nsg subnets_nsg_name inbound_rules subnet_nsg_lock data rest)))"

text \<open>What precedes the loop: the security group, the rules of the inbound ports and their lock.\<close>

definition prepare_common_objects ::
  "env \<Rightarrow> cloud_provider \<Rightarrow> deployment_model \<Rightarrow> deploy_data \<Rightarrow> (nsg \<times> rule_data list \<times> lock) prog"
where
  "prepare_common_objects E cp dm data =
     bnd (create_vm_network_security_group E cp data dm) (\<lambda>vm_nsg.
     bnd (raising (rules_parse_port_group_attribute (dm_inbound_ports dm))) (\<lambda>inbound_rules.
     bnd (get_resource_lock (get_subnets_nsg_name (rs_reservation_id (dd_reservation data)))) (\<lambda>subnet_nsg_lock.
     Return (vm_nsg, map (name_inbound_rule (dd_vm_name data)) inbound_rules, subnet_nsg_lock))))"

definition prepare_vm_credentials :: "env \<Rightarrow> deployment_model \<Rightarrow> deploy_data \<Rightarrow> vm_credentials prog" where
  "prepare_vm_credentials E dm data =
     prepare_credentials E (image_os_type (dd_image_model data)) (dm_username dm) (dm_password dm)
       (dd_group_name data) (dd_storage_account_name data)"

definition create_vm_common_objects ::
  "env \<Rightarrow> cloud_provider \<Rightarrow> deployment_model \<Rightarrow> deploy_data \<Rightarrow> (deploy_data \<times> (exn + unit)) prog"
where
  "create_vm_common_objects E cp dm data =
     bnd (attempt (prepare_common_objects E cp dm data)) (\<lambda>r. case r of
       Inl e \<Rightarrow> Return (data, Inl e)
     | Inr (vm_nsg, inbound_rules, subnet_nsg_lock) \<Rightarrow>
         bnd (create_requested_nics E cp dm vm_nsg
           (get_subnets_nsg_name (rs_reservation_id (dd_reservation data))) inbound_rules subnet_nsg_lock
           (data\<lparr>dd_nics := []\<rparr>) (List.enumerate 0 (dd_nic_requests data))) (\<lambda>(data, r). case r of
           Inl e \<Rightarrow> Return (data, Inl e)
         | Inr _ \<Rightarrow>
             bnd (attempt (prepare_vm_credentials E dm data)) (\<lambda>r. case r of
               Inl e \<Rightarrow> Return (data, Inl e)
             | Inr vm_creds \<Rightarrow>
                 bnd (attempt check_if_cancelled) (\<lambda>r.
                 Return (data\<lparr>dd_vm_credentials := Some vm_creds\<rparr>, r)))))"

section \<open>The machine and the script extension\<close>

text \<open>\<^verbatim>\<open>storage account type .+ is not supported for vm size\<close>, looked for with \<^verbatim>\<open>re.search\<close>.\<close>

definition unsupported_disk_type :: "string \<Rightarrow> bool" where
  "unsupported_disk_type s \<longleftrightarrow> list_ex (\<lambda>i.
     let head_text = ''storage account type ''; r = drop (i + length head_text) s in
     prefix head_text (drop i s) \<and>
     list_ex (\<lambda>k. CHR 0x0A \<notin> set (take k r) \<and> prefix '' is not supported for vm size'' (drop k r))
       [1..<Suc (length r)]) [0..<Suc (length s)]"

text \<open>The message of the error data, which ends its text, grows; other exceptions are left alone.\<close>

fun expand_cloud_error_message :: "deployment_model \<Rightarrow> exn \<Rightarrow> exn" where
  "expand_cloud_error_message dm (CloudError reason message err) =
     (if unsupported_disk_type (py_lower message)
      then CloudError reason message (err @ [CHR 0x0A] @ ''Disk Type attribute value '' @ dm_disk_type dm @
        '' doesn'' @ [CHR 0x27] @ ''t support the selected VM size.'')
      else CloudError reason message err)"
| "expand_cloud_error_message dm e = e"

type_synonym vm_action = "env \<Rightarrow> deployment_model \<Rightarrow> cloud_provider \<Rightarrow> deploy_data \<Rightarrow> vm prog"

definition credentials_of :: "deploy_data \<Rightarrow> vm_credentials prog" where
  "credentials_of data = (case dd_vm_credentials data of
     None \<Rightarrow> Raise (none_attribute ''admin_username'') | Some c \<Rightarrow> Return c)"

definition create_vm_custom_image_action :: vm_action where
  "create_vm_custom_image_action E dm cp data =
     thn check_if_cancelled
     (case dm_image dm of
        FromCustomImage image_name image_resource_group \<Rightarrow>
          bnd (credentials_of data) (\<lambda>creds.
          bnd (create_vm_from_custom_image E image_name image_resource_group (dm_disk_type dm) creds
            (dd_computer_name data) (dd_group_name data) (dd_nics data) (cp_region cp) (dd_vm_name data)
            (dd_tags data) (dd_vm_size data) (dm_disk_size dm)) (expect as_vm))
      | _ \<Rightarrow> Raise (AttributeError ''image_name''))"

definition create_vm_marketplace_action :: vm_action where
  "create_vm_marketplace_action E dm cp data =
     (case (dm_image dm, dd_image_model data) of
        (FromMarketplace image_publisher image_offer image_sku image_version, MarketplaceImageData _ purchase_plan) \<Rightarrow>
          bnd (credentials_of data) (\<lambda>creds.
          bnd (create_vm_from_marketplace E image_offer image_publisher image_sku image_version
            (dm_disk_type dm) creds (dd_computer_name data) (dd_group_name data) (dd_nics data)
            (cp_region cp) (dd_vm_name data) (dd_tags data) (dd_vm_size data) purchase_plan
            (dm_disk_size dm)) (expect as_vm))
      | (FromMarketplace _ _ _ _, _) \<Rightarrow> Raise (AttributeError ''purchase_plan'')
      | _ \<Rightarrow> Raise (AttributeError ''image_offer''))"

definition script_timeout_message :: "string \<Rightarrow> int \<Rightarrow> string" where
  "script_timeout_message app_name seconds =
     ''App '' @ app_name @ '' was partially deployed - Custom script extension reached maximum timeout of '' @
     int_str (seconds div 60) @ '' minutes and '' @ int_str (seconds mod 60) @ '' seconds''"

definition create_vm_custom_script_extension ::
  "env \<Rightarrow> cloud_provider \<Rightarrow> deployment_model \<Rightarrow> deploy_data \<Rightarrow> unit prog"
where
  "create_vm_custom_script_extension E cp dm data =
     (if dm_extension_script_file dm = [] then Return ()
      else thn check_if_cancelled
        (thn (catch (create_script_extension E (cp_region cp) (dd_group_name data) (dd_vm_name data)
            (image_os_type (dd_image_model data)) (dm_extension_script_file dm)
            (dm_extension_script_configurations dm) (dm_extension_script_timeout dm) (dd_tags data))
          (\<lambda>e. if e = QualiTimeoutException
             then Raise (QualiScriptExecutionTimeoutException
               (script_timeout_message (dm_app_name dm) (dm_extension_script_timeout dm)))
             else Raise e))
        check_if_cancelled))"

section \<open>Taking back what was made\<close>

definition rollback_deployed_resources ::
  "env \<Rightarrow> string \<Rightarrow> nic_request option list \<Rightarrow> string \<Rightarrow> string \<Rightarrow> string list \<Rightarrow> string \<Rightarrow> unit prog"
where
  "rollback_deployed_resources E group_name nic_requests name private_ip_allocation_method
     allocated_private_ips reservation_id =
   thn (VmService.delete_vm E group_name name)
   (thn (for_each (\<lambda>nic_request.
      bnd (raising (interface_name nic_request)) (\<lambda>interface_name.
      thn (delete_nic E group_name interface_name)
        (delete_ip E group_name (get_ip_from_interface_name interface_name)))) nic_requests)
   (thn (only_if (is_static_allocation (AllocationText private_ip_allocation_method))
      (catch (release_ips reservation_id allocated_private_ips None) (\<lambda>_. Return ())))
   (thn (delete_nsg_artifacts_associated_with_vm E group_name name) (Return ()))))"

section \<open>The deployment\<close>

text \<open>\<^verbatim>\<open>any(n.is_public ...)\<close> and \<^verbatim>\<open>next(n ... if n.is_public)\<close>: the first public request.\<close>

fun first_public_request :: "nic_request option list \<Rightarrow> exn + nic_request option" where
  "first_public_request [] = Inr None"
| "first_public_request (None # nrs) = Inl (none_attribute ''is_public'')"
| "first_public_request (Some nr # nrs) = (if nrq_is_public nr then Inr (Some nr) else first_public_request nrs)"

definition get_public_ip_address :: "env \<Rightarrow> deployment_model \<Rightarrow> string \<Rightarrow> string \<Rightarrow> string option prog" where
  "get_public_ip_address E dm group_name ip_name =
     (if dm_add_public_ip dm
      then bnd (bnd (get_public_ip E group_name ip_name) (expect as_public_ip)) (\<lambda>public_ip.
        thn check_if_cancelled (Return (Some (pip_ip_address public_ip))))
      else Return None)"

definition prepare_deployed_app_attributes ::
  "string \<Rightarrow> string option \<Rightarrow> string option \<Rightarrow> (string \<times> string option) list"
where
  "prepare_deployed_app_attributes admin_username admin_password public_ip =
     [(''Password'', admin_password), (''User'', Some admin_username), (''Public IP'', public_ip)]"

fun is_marketplace_image :: "image_data \<Rightarrow> bool" where
  "is_marketplace_image (MarketplaceImageData _ _) \<longleftrightarrow> True"
| "is_marketplace_image (CustomImageData _ _) \<longleftrightarrow> False"

text \<open>The body of the \<^verbatim>\<open>try\<close>: the data, the machine if it was made, and how the body ended.\<close>

definition deploy_steps ::
  "env \<Rightarrow> vm_action \<Rightarrow> deployment_model \<Rightarrow> cloud_provider \<Rightarrow> deploy_data \<Rightarrow>
     (deploy_data \<times> vm option \<times> (exn + unit)) prog"
where
  "deploy_steps E create_vm_action dm cp data =
     bnd (create_vm_common_objects E cp dm data) (\<lambda>(data, r). case r of
       Inl e \<Rightarrow> Return (data, None, Inl e)
     | Inr _ \<Rightarrow>
         bnd (attempt (catch (create_vm_action E dm cp data) (\<lambda>e. Raise (expand_cloud_error_message dm e)))) (\<lambda>r.
         case r of
           Inl e \<Rightarrow> Return (data, None, Inl e)
         | Inr machine \<Rightarrow>
             bnd (attempt (thn check_if_cancelled (create_vm_custom_script_extension E cp dm data))) (\<lambda>r.
             Return (data, Some machine, r))))"

definition unbound_vm :: exn where
  "unbound_vm = PyException ''local variable vm referenced before assignment''"

definition deploy_result ::
  "env \<Rightarrow> deployment_model \<Rightarrow> deploy_data \<Rightarrow> vm option \<Rightarrow> deploy_app_result prog"
where
  "deploy_result E dm data machine =
     bnd (raising (first_public_request (dd_nic_requests data))) (\<lambda>request.
     bnd (case request of
         None \<Rightarrow> Return (dd_public_ip_address data)
       | Some nr \<Rightarrow> get_public_ip_address E dm (dd_group_name data)
           (get_ip_from_interface_name (nrq_interface_name nr))) (\<lambda>public_ip.
     bnd (credentials_of data) (\<lambda>creds.
     (let attributes = prepare_deployed_app_attributes (vc_admin_username creds) (vc_admin_password creds) public_ip in
     case machine of
       None \<Rightarrow> Raise unbound_vm
     | Some machine \<Rightarrow>
         bnd (vm_details_create E machine (is_marketplace_image (dd_image_model data)) (dd_group_name data))
           (\<lambda>vm_details_data.
         Return \<lparr>dar_vm_uuid = vm_uuid machine, dar_vm_name = dd_vm_name data,
           dar_deployed_app_address = dd_primary_private_ip_address data,
           dar_deployed_app_attributes = attributes, dar_vm_details_data = vm_details_data\<rparr>)))))"

definition script_timeout_html :: "string \<Rightarrow> string" where
  "script_timeout_html message =
     ''<html><body><span style='' @ quoted ''color: red;'' @ ''>'' @ message @ ''</span></body></html>''"

definition rollback_deployment :: "env \<Rightarrow> cloud_provider \<Rightarrow> deploy_data \<Rightarrow> unit prog" where
  "rollback_deployment E cp data =
     rollback_deployed_resources E (dd_group_name data) (dd_nic_requests data) (dd_vm_name data)
       (cp_private_ip_allocation_method cp) (dd_all_private_ip_addresses data)
       (rs_reservation_id (dd_reservation data))"

text \<open>What follows the \<^verbatim>\<open>try\<close>: its two \<^verbatim>\<open>except\<close> clauses, and the result.\<close>

fun after_steps ::
  "env \<Rightarrow> deployment_model \<Rightarrow> cloud_provider \<Rightarrow> reservation \<Rightarrow> deploy_data \<times> vm option \<times> (exn + unit) \<Rightarrow>
     deploy_app_result prog"
where
  "after_steps E dm cp rs (data, machine, Inr _) = deploy_result E dm data machine"
| "after_steps E dm cp rs (data, machine, Inl e) = (case e of
     QualiScriptExecutionTimeoutException message \<Rightarrow>
       thn (call (Session (WriteMessageToReservationOutput (rs_reservation_id rs) (script_timeout_html message))))
         (deploy_result E dm data machine)
   | _ \<Rightarrow> thn (rollback_deployment E cp data) (Raise e))"

definition deploy_vm_generic ::
  "env \<Rightarrow> vm_action \<Rightarrow> deployment_model \<Rightarrow> cloud_provider \<Rightarrow> reservation \<Rightarrow> bool list \<Rightarrow> deploy_app_result prog"
where
  "deploy_vm_generic E create_vm_action dm cp rs network_actions =
     bnd (prepare_deploy_data E rs dm cp network_actions) (\<lambda>data.
     thn check_if_cancelled
     (bnd (deploy_steps E create_vm_action dm cp data) (after_steps E dm cp rs)))"

definition deploy_from_custom_image ::
  "env \<Rightarrow> deployment_model \<Rightarrow> cloud_provider \<Rightarrow> reservation \<Rightarrow> bool list \<Rightarrow> deploy_app_result prog"
where
  "deploy_from_custom_image E = deploy_vm_generic E create_vm_custom_image_action"

definition deploy_from_marketplace ::
  "env \<Rightarrow> deployment_model \<Rightarrow> cloud_provider \<Rightarrow> reservation \<Rightarrow> bool list \<Rightarrow> deploy_app_result prog"
where
  "deploy_from_marketplace E = deploy_vm_generic E create_vm_marketplace_action"

section \<open>Which calls the steps make\<close>

text \<open>The request that takes a creation back, and the requests that remove something.\<close>

fun undo :: "request \<Rightarrow> request option" where
  "undo (Network (PutNic g n p)) = Some (Network (DeleteNic g n))"
| "undo (Network (PutPublicIp g n r a t)) = Some (Network (DeletePublicIp g n))"
| "undo (Compute (PutVm g n p)) = Some (Compute (DeleteVm g n))"
| "undo _ = None"

fun is_removal :: "request \<Rightarrow> bool" where
  "is_removal (Network (DeleteNic g n)) \<longleftrightarrow> True"
| "is_removal (Network (DeletePublicIp g n)) \<longleftrightarrow> True"
| "is_removal (Network (DeleteNsg g n)) \<longleftrightarrow> True"
| "is_removal (Network (DeleteRule g n r)) \<longleftrightarrow> True"
| "is_removal (Compute (DeleteVm g n)) \<longleftrightarrow> True"
| "is_removal (Compute (DeleteDisk g n)) \<longleftrightarrow> True"
| "is_removal _ \<longleftrightarrow> False"

text \<open>A call that neither creates something that is taken back nor removes anything.\<close>

definition harmless :: "event \<Rightarrow> bool" where
  "harmless ev \<longleftrightarrow> undo (fst ev) = None \<and> \<not> is_removal (fst ev)"

lemma harmless_simps [simp]:
  "harmless (Runtime q1, v)" "harmless (Storage q2, v)" "harmless (Memory q3, v)" "harmless (Poller q4, v)"
  "harmless (Session q5, v)" "harmless (Resource q6, v)"
  "harmless (Network (ListVnets g), v)" "harmless (Network (PutNsg g n r t), v)" "harmless (Network (ListRules g n), v)"
  "harmless (Network (PutRule g n k sr), v)" "harmless (Network (GetNic g n), v)" "harmless (Network (GetPublicIp g n), v)"
  "harmless (Compute (GetImage g n), v)" "harmless (Compute (ListVmImages a b c d), v)"
  "harmless (Compute (GetVmImage a b c d n), v)" "harmless (Compute (PutExtension g n e ps), v)"
  by (simp_all add: harmless_def)

text \<open>What the rollback deletes of the data.\<close>

definition nic_removals :: "string \<Rightarrow> nic_request \<Rightarrow> request list" where
  "nic_removals g r = [Network (DeleteNic g (nrq_interface_name r)),
     Network (DeletePublicIp g (get_ip_from_interface_name (nrq_interface_name r)))]"

definition removals :: "deploy_data \<Rightarrow> request list" where
  "removals data = Compute (DeleteVm (dd_group_name data) (dd_vm_name data)) #
     concat (map (nic_removals (dd_group_name data)) (List.map_filter id (dd_nic_requests data)))"

definition step_ok :: "request list \<Rightarrow> event \<Rightarrow> bool" where
  "step_ok rs ev \<longleftrightarrow> \<not> is_removal (fst ev) \<and> (\<forall>d. undo (fst ev) = Some d \<longrightarrow> d \<in> set rs)"

lemma step_ok_harmless: "harmless ev \<Longrightarrow> step_ok rs ev"
  by (simp add: harmless_def step_ok_def)

lemma removals_same [simp]:
  "removals (nic_created i n ip data) = removals data" "removals (data\<lparr>dd_nics := ns\<rparr>) = removals data"
  "removals (data\<lparr>dd_vm_credentials := c\<rparr>) = removals data"
  by (simp_all add: removals_def nic_created_def)

lemma emits_get_image: 
  assumes "retry_law E"
  shows "emits harmless (get_image_data_model E region d)"
  by (cases d) (auto simp: get_virtual_machine_image_def intro!: emits_intros retried_intros assms)

lemma emits_prepare_deploy_data:
  assumes "retry_law E"
  shows "emits harmless (prepare_deploy_data E rs dm cp nas)"
  unfolding prepare_deploy_data_def get_nic_requests_def generate_short_unique_string_def prepare_computer_name_def Let_def
  by (auto intro!: emits_intros emits_get_image emits_get_sandbox_virtual_network emits_storage assms
      split: option.split)

lemma emits_prepare_common_objects:
  assumes "retry_law E"
  shows "emits harmless (prepare_common_objects E cp dm data)"
  unfolding prepare_common_objects_def create_vm_network_security_group_def get_management_vnet_cidr_def Let_def
  by (auto intro!: emits_intros emits_get_sandbox_virtual_network emits_get_virtual_networks
      emits_create_network_security_group emits_create_network_security_group_rules assms split: option.split)

lemma emits_create_requested_nic:
  assumes "retry_law E" "nr \<in> set (dd_nic_requests data)"
  shows "emits (step_ok (removals data)) (create_requested_nic E cp dm data nsg nr)"
proof (cases nr)
  case (Some r)
  with assms(2) have "set (nic_removals (dd_group_name data) r) \<subseteq> set (removals data)"
    by (auto simp: removals_def map_filter_def)
  then show ?thesis
    unfolding create_requested_nic_def Some option.case Let_def
    by (auto intro!: emits_intros emits_create_network_for_vm assms(1) simp: step_ok_harmless)
      (auto simp: step_ok_def nic_removals_def)
qed (simp add: create_requested_nic_def emits_intros)

lemma emits_step_ok: "emits harmless p \<Longrightarrow> emits (step_ok rs) p"
  by (erule emits_mono) (rule step_ok_harmless)

lemma emits_create_requested_nics:
  assumes "retry_law E" "removals data = removals data0" "dd_nic_requests data = dd_nic_requests data0"
    "snd ` set inrs \<subseteq> set (dd_nic_requests data0)"
  shows "emits (step_ok (removals data0)) (create_requested_nics E cp dm nsg n rules l data inrs)"
  using assms(2-4)
proof (induction inrs arbitrary: data)
  case (Cons a inrs)
  obtain i nr where a: "a = (i, nr)" by (cases a)
  have nic: "emits (step_ok (removals data0)) (create_requested_nic E cp dm data nsg nr)"
    using emits_create_requested_nic [OF assms(1), of nr data] Cons.prems a by simp
  have rules: "emits (step_ok (removals data0)) (create_network_security_group_rules E g n rds ip l st src)" for g rds ip st src
    by (intro emits_step_ok emits_create_network_security_group_rules assms(1)) simp_all
  have rest: "emits (step_ok (removals data0)) (create_requested_nics E cp dm nsg n rules l (nic_created i k ip data) inrs)" for k ip
    by (rule Cons.IH) (use Cons.prems in \<open>auto simp: nic_created_def removals_def\<close>)
  show ?case
    unfolding a create_requested_nics.simps Let_def
    by (intro emits_bnd emits_attempt nic) (auto intro!: emits_intros rules rest split: sum.split)
qed (simp add: emits_intros)

lemma emits_create_vm_common_objects:
  assumes "retry_law E"
  shows "emits (step_ok (removals data)) (create_vm_common_objects E cp dm data)"
proof -
  have before: "emits (step_ok (removals data)) (prepare_common_objects E cp dm data)"
    by (intro emits_step_ok emits_prepare_common_objects assms)
  have nics: "emits (step_ok (removals data))
      (create_requested_nics E cp dm nsg n rules l (data\<lparr>dd_nics := []\<rparr>) (List.enumerate 0 (dd_nic_requests data)))"
    for nsg n rules l
    by (rule emits_create_requested_nics [OF assms]) (auto simp: in_set_enumerate_eq)
  have creds: "emits (step_ok rs) (prepare_vm_credentials E dm d)" for rs d
    unfolding prepare_vm_credentials_def
    by (intro emits_step_ok emits_prepare_credentials assms) simp_all
  have check: "emits (step_ok rs) check_if_cancelled" for rs
    by (intro emits_intros) (simp add: step_ok_harmless)
  show ?thesis
    unfolding create_vm_common_objects_def
    by (auto intro!: emits_intros before nics creds check split: sum.split prod.split)
qed

text \<open>What the steps leave as it was.\<close>

definition same_deployment :: "deploy_data \<Rightarrow> deploy_data \<Rightarrow> bool" where
  "same_deployment data d \<longleftrightarrow> dd_group_name d = dd_group_name data \<and> dd_vm_name d = dd_vm_name data \<and>
     dd_nic_requests d = dd_nic_requests data \<and> dd_reservation d = dd_reservation data \<and>
     dd_image_model d = dd_image_model data"

lemma same_deployment_updates [simp]:
  "same_deployment (nic_created i n ip data) d \<longleftrightarrow> same_deployment data d"
  "same_deployment (data\<lparr>dd_nics := ns\<rparr>) d \<longleftrightarrow> same_deployment data d"
  "same_deployment data (d\<lparr>dd_vm_credentials := c\<rparr>) \<longleftrightarrow> same_deployment data d"
  "same_deployment data data" "same_deployment data (nic_created i n ip d) \<longleftrightarrow> same_deployment data d"
  by (simp_all add: same_deployment_def nic_created_def)

lemma same_removals: "same_deployment data d \<Longrightarrow> removals d = removals data"
  by (simp add: same_deployment_def removals_def)

lemma yields_create_requested_nics:
  "yields (\<lambda>(d, r). same_deployment data d) (create_requested_nics E cp dm nsg n rules l data inrs)"
proof (induction inrs arbitrary: data)
  case (Cons a inrs)
  obtain i nr where a: "a = (i, nr)" by (cases a)
  have rest: "yields (\<lambda>(d, r). same_deployment data d)
      (create_requested_nics E cp dm nsg n rules l (nic_created i k ip data) inrs)" for k ip
    using Cons.IH [of "nic_created i k ip data"] by simp
  show ?case
    unfolding a create_requested_nics.simps Let_def
    by (rule yields_bnd [OF yields_any], auto split: sum.split simp: yields_simps)
      (rule yields_bnd [OF yields_any], auto split: sum.split simp: yields_simps intro: rest)
qed (simp add: yields_simps)

lemma yields_create_vm_common_objects:
  "yields (\<lambda>(d, r). same_deployment data d) (create_vm_common_objects E cp dm data)"
proof -
  have nics: "yields (\<lambda>(d, r). same_deployment data d)
      (create_requested_nics E cp dm nsg n rules l (data\<lparr>dd_nics := []\<rparr>) inrs)" for nsg n rules l inrs
    using yields_create_requested_nics [of "data\<lparr>dd_nics := []\<rparr>"] by simp
  have last: "yields (\<lambda>(d, r). same_deployment data d) (bnd (attempt (prepare_vm_credentials E dm d)) (\<lambda>r. case r of
       Inl e \<Rightarrow> Return (d, Inl e)
     | Inr vm_creds \<Rightarrow> bnd (attempt check_if_cancelled) (\<lambda>r. Return (d\<lparr>dd_vm_credentials := Some vm_creds\<rparr>, r))))"
    if "same_deployment data d" for d
    using that by (auto intro!: yields_bnd [OF yields_any] simp: yields_simps split: sum.split)
  show ?thesis
    unfolding create_vm_common_objects_def
    by (rule yields_bnd [OF yields_any], auto split: sum.split simp: yields_simps)
      (rule yields_bnd [OF nics], auto split: sum.split simp: yields_simps intro: last)
qed

section \<open>The contract of the action that creates the machine\<close>

text \<open>
  \<^verbatim>\<open>_deploy_vm_generic\<close> is given the action that creates the machine. It relies on this: the action asks
  for no machine but the one of the deployment and removes nothing, and when it returns, it has asked for
  the machine with the data of the deployment.
\<close>

lemma create_vm_made:
  assumes "retry_law E" "exec (create_vm E g n p logged) es (Ok r)"
  shows "Compute (PutVm g n p) \<in> fst ` set es"
proof -
  obtain es0 es1 where 1: "exec (retried_on_retryable E (bnd (call (Compute (PutVm g n p))) (\<lambda>r.
      bnd (expect as_poller r) (\<lambda>operation_poller. wait_for_task E operation_poller 30 logged)))) es1 (Ok r)" "es = es0 @ es1"
    using assms(2) unfolding create_vm_def by (auto elim: exec_retriedE [OF assms(1)])
  obtain es2 es3 where "exec (bnd (call (Compute (PutVm g n p))) (\<lambda>r.
      bnd (expect as_poller r) (\<lambda>operation_poller. wait_for_task E operation_poller 30 logged))) es3 (Ok r)" "es1 = es2 @ es3"
    by (rule retry_lib_outcome [OF assms(1) zero_less_numeral
        1(1) [unfolded retried_on_retryable_def retryable_error_max_attempts_def]])
  with 1(2) show ?thesis by (auto simp: exec_bnd exec_simps image_Un)
qed

text \<open>The parameters of the machine that was asked for, and what of them follows from the data.\<close>

definition machine_asked :: "deploy_data \<Rightarrow> request \<Rightarrow> bool" where
  "machine_asked d q \<longleftrightarrow> (\<exists>p. q = Compute (PutVm (dd_group_name d) (dd_vm_name d) p) \<and>
     vp_computer_name p = dd_computer_name d \<and> vp_vm_size p = dd_vm_size d \<and>
     prepare_network_interfaces (dd_nics d) = Inr (vp_network_interfaces p))"

definition creates_machine :: "deploy_data \<Rightarrow> event \<Rightarrow> bool" where
  "creates_machine d ev \<longleftrightarrow> harmless ev \<or> (\<exists>p. fst ev = Compute (PutVm (dd_group_name d) (dd_vm_name d) p))"

locale vm_creation =
  fixes create_vm_action :: vm_action
  assumes only_machine: "retry_law E \<Longrightarrow> emits (creates_machine d) (create_vm_action E dm cp d)"
    and machine_made: "retry_law E \<Longrightarrow> exec (create_vm_action E dm cp d) es (Ok machine) \<Longrightarrow>
      \<exists>q \<in> fst ` set es. machine_asked d q"
begin

lemma emits_steps:
  assumes "retry_law E"
  shows "emits (step_ok (removals data)) (deploy_steps E create_vm_action dm cp data)"
proof -
  have act: "emits (step_ok (removals data)) (create_vm_action E dm cp d)" if "same_deployment data d" for d
  proof (rule emits_mono [OF only_machine [OF assms]])
    fix ev
    assume "creates_machine d ev"
    then consider "harmless ev" | p where "fst ev = Compute (PutVm (dd_group_name d) (dd_vm_name d) p)"
      by (auto simp: creates_machine_def)
    then show "step_ok (removals data) ev"
      by cases (rule step_ok_harmless, assumption, use that in \<open>simp add: step_ok_def removals_def same_deployment_def\<close>)
  qed
  have script: "emits harmless (create_vm_custom_script_extension E cp dm d)" for d
    unfolding create_vm_custom_script_extension_def create_script_extension_def Let_def
    by (auto intro!: emits_intros retried_intros assms(1))
  have last: "emits (step_ok (removals data)) (thn check_if_cancelled (create_vm_custom_script_extension E cp dm d))" for d
    by (intro emits_step_ok emits_intros script) simp
  show ?thesis
    unfolding deploy_steps_def
    by (rule emits_bnd_yields [OF emits_create_vm_common_objects [OF assms(1)] yields_create_vm_common_objects])
      (auto intro!: emits_intros act last split: sum.split)
qed

end

text \<open>The actions for a custom image and for an image of the marketplace keep the contract.\<close>

lemma emits_vm_actions:
  assumes "retry_law E"
  shows "emits (creates_machine d) (create_vm_custom_image_action E dm cp d)"
    "emits (creates_machine d) (create_vm_marketplace_action E dm cp d)"
  unfolding create_vm_custom_image_action_def create_vm_marketplace_action_def credentials_of_def
    create_vm_from_custom_image_def create_vm_from_marketplace_def
  by (auto intro!: emits_intros emits_create_vm assms simp: creates_machine_def
      split: deployment_image.split image_data.split option.split sum.split)

lemma machine_asked_by:
  assumes "retry_law E" "exec (create_vm E (dd_group_name d) (dd_vm_name d)
       (vm_parameters_of reg tags creds (dd_computer_name d) (dd_vm_size d) refs disk img pl) logged) es (Ok r)"
    "prepare_network_interfaces (dd_nics d) = Inr refs"
  shows "\<exists>q \<in> fst ` set es. machine_asked d q"
  using create_vm_made [OF assms(1,2)] assms(3)
  by (intro bexI) (auto simp: machine_asked_def vm_parameters_of_def)

lemma custom_image_asks:
  assumes "retry_law E" "exec (create_vm_custom_image_action E dm cp d) es (Ok machine)"
  shows "\<exists>q \<in> fst ` set es. machine_asked d q"
proof -
  have custom: "\<exists>q \<in> fst ` set es. machine_asked d q"
    if "exec (create_vm_from_custom_image E im ig dt creds (dd_computer_name d) (dd_group_name d) (dd_nics d) reg
       (dd_vm_name d) tags (dd_vm_size d) ds) es (Ok r)" for im ig dt creds reg tags ds es r
    using that unfolding create_vm_from_custom_image_def
    by (auto simp: exec_simps image_Un bex_Un elim!: exec_bnd_OkE dest!: machine_asked_by [OF assms(1)]
        split: sum.splits option.splits prod.splits)
  show ?thesis
    using assms(2) unfolding create_vm_custom_image_action_def
    by (auto simp: image_Un bex_Un exec_simps credentials_of_def elim!: exec_bnd_OkE dest!: custom
        split: deployment_image.splits option.splits)
qed

lemma marketplace_asks:
  assumes "retry_law E" "exec (create_vm_marketplace_action E dm cp d) es (Ok machine)"
  shows "\<exists>q \<in> fst ` set es. machine_asked d q"
proof -
  have marketplace: "\<exists>q \<in> fst ` set es. machine_asked d q"
    if "exec (create_vm_from_marketplace E io ip isk iv dt creds (dd_computer_name d) (dd_group_name d) (dd_nics d) reg
       (dd_vm_name d) tags (dd_vm_size d) pl ds) es (Ok r)" for io ip isk iv dt creds reg tags pl ds es r
    using that by (auto simp: create_vm_from_marketplace_def exec_simps dest!: machine_asked_by [OF assms(1)]
        split: sum.splits)
  show ?thesis
    using assms(2) unfolding create_vm_marketplace_action_def
    by (auto simp: image_Un bex_Un exec_simps credentials_of_def elim!: exec_bnd_OkE dest!: marketplace
        split: deployment_image.splits image_data.splits option.splits)
qed

interpretation custom_image: vm_creation create_vm_custom_image_action
  by unfold_locales (blast intro: emits_vm_actions custom_image_asks)+

interpretation marketplace: vm_creation create_vm_marketplace_action
  by unfold_locales (blast intro: emits_vm_actions marketplace_asks)+

section \<open>What the rollback does\<close>

text \<open>A decorated method that returns has made, at its last attempt, the calls of its body.\<close>

lemma retried_made:
  assumes "retry_law E" "exec (retried E (no_result (poll_wait (call q)))) es (Ok r)"
  shows "q \<in> fst ` set es"
  using assms(2) by (auto elim!: exec_retriedE [OF assms(1)] simp: no_result_def poll_wait_def exec_bnd exec_simps)

lemma rollback_removes:
  assumes "retry_law E" "exec (rollback_deployment E cp data) es (Ok ())"
  shows "set (removals data) \<subseteq> fst ` set es"
proof -
  let ?g = "dd_group_name data"
  let ?one = "\<lambda>nr. bnd (raising (interface_name nr)) (\<lambda>interface_name.
      thn (delete_nic E ?g interface_name) (delete_ip E ?g (get_ip_from_interface_name interface_name)))"
  obtain es1 es2 es3 r where es: "es = es1 @ es2 @ es3"
      and 1: "exec (VmService.delete_vm E ?g (dd_vm_name data)) es1 (Ok r)"
      and 2: "exec (for_each ?one (dd_nic_requests data)) es2 (Ok ())"
    using assms(2) unfolding rollback_deployment_def rollback_deployed_resources_def
    by (elim exec_bnd_OkE) auto
  have vm: "Compute (DeleteVm ?g (dd_vm_name data)) \<in> fst ` set es1"
    using retried_made [OF assms(1) 1 [unfolded VmService.delete_vm_def]] .
  from exec_for_each_Ok [OF 2] obtain ess where ess: "es2 = concat ess"
      "list_all2 (\<lambda>nr es'. \<exists>y. exec (?one nr) es' (Ok y)) (dd_nic_requests data) ess" by blast
  have one: "set (nic_removals ?g r) \<subseteq> fst ` set es'" if "exec (?one (Some r)) es' (Ok y)" for r es' y
  proof -
    from that obtain ea eb ra where "es' = ea @ eb" "exec (delete_nic E ?g (nrq_interface_name r)) ea (Ok ra)"
        "exec (delete_ip E ?g (get_ip_from_interface_name (nrq_interface_name r))) eb (Ok y)"
      by (auto simp: interface_name_def raising_def elim!: exec_bnd_OkE)
    then show ?thesis
      using retried_made [OF assms(1), of _ ea ra] retried_made [OF assms(1), of _ eb y]
      unfolding delete_nic_def delete_ip_def nic_removals_def by (auto simp: image_Un)
  qed
  have "d \<in> fst ` set es2" if "Some r \<in> set (dd_nic_requests data)" "d \<in> set (nic_removals ?g r)" for r d
  proof -
    from that(1) obtain i where "i < length (dd_nic_requests data)" "dd_nic_requests data ! i = Some r"
      by (auto simp: in_set_conv_nth)
    with ess(2) obtain y where i: "i < length ess" "exec (?one (Some r)) (ess ! i) (Ok y)"
      unfolding list_all2_conv_all_nth by auto
    from one [OF i(2)] that(2) have "d \<in> fst ` set (ess ! i)" by blast
    moreover from i(1) have "set (ess ! i) \<subseteq> set es2" using nth_mem by (fastforce simp: ess(1))
    ultimately show ?thesis by blast
  qed
  with vm show ?thesis
    unfolding es removals_def by (auto simp: map_filter_def image_Un)
qed

section \<open>Failed deployments\<close>

text \<open>Everything the first calls created is asked to be deleted by the others.\<close>

definition taken_back :: "event list \<Rightarrow> event list \<Rightarrow> bool" where
  "taken_back es1 es2 \<longleftrightarrow> (\<forall>ev \<in> set es1. \<forall>q. undo (fst ev) = Some q \<longrightarrow> q \<in> fst ` set es2)"

fun is_script_timeout :: "exn \<Rightarrow> bool" where
  "is_script_timeout (QualiScriptExecutionTimeoutException m) \<longleftrightarrow> True"
| "is_script_timeout e \<longleftrightarrow> False"

definition never_raises :: "'a prog \<Rightarrow> bool" where
  "never_raises p \<longleftrightarrow> (\<forall>es e. \<not> exec p es (Err e))"

lemma never_raises_intros:
  "never_raises (Return x)" "never_raises (attempt p)"
  "never_raises q \<Longrightarrow> (\<And>x. never_raises (f x)) \<Longrightarrow> never_raises (bnd q f)"
  by (auto simp: never_raises_def exec_simps exec_bnd attempt_def exec_try_else)

lemma deploy_steps_never_raise: "never_raises (deploy_steps E act dm cp data)"
proof -
  have nics: "never_raises (create_requested_nics E cp dm nsg n rules l d inrs)" for nsg n rules l d inrs
    by (induction inrs arbitrary: d)
      (auto simp: Let_def intro!: never_raises_intros split: sum.split)
  show ?thesis
    unfolding deploy_steps_def create_vm_common_objects_def
    by (auto intro!: never_raises_intros nics split: sum.split)
qed

text \<open>A run came to the end of the \<^verbatim>\<open>try\<close> with the data, the machine and the end of its body.\<close>

definition reached ::
  "env \<Rightarrow> vm_action \<Rightarrow> deployment_model \<Rightarrow> cloud_provider \<Rightarrow> event list \<Rightarrow> deploy_data \<times> vm option \<times> (exn + unit) \<Rightarrow> bool"
where
  "reached E act dm cp es result \<longleftrightarrow> (\<exists>es0 es1 data. es = es0 @ es1 \<and> list_all harmless es0 \<and>
     exec (deploy_steps E act dm cp data) es1 (Ok result) \<and> same_deployment data (fst result))"

lemma emits_checked_deploy_data:
  assumes "retry_law E"
  shows "emits harmless (bnd (prepare_deploy_data E rs dm cp nas) (\<lambda>data. thn check_if_cancelled (Return data)))"
  by (intro emits_intros emits_prepare_deploy_data assms) simp

lemma yields_deploy_steps:
  "yields (\<lambda>(d, m, r). same_deployment data d) (deploy_steps E act dm cp data)"
  unfolding deploy_steps_def
  by (rule yields_bnd [OF yields_create_vm_common_objects])
    (auto intro!: yields_bnd [OF yields_any] simp: yields_simps split: sum.split)

lemma deploy_runs:
  assumes "retry_law E" "exec (deploy_vm_generic E act dm cp rs nas) es out" "out \<noteq> Hang"
  obtains (unprepared) e where "list_all harmless es" "out = Err e"
  | (reached) es1 es2 result where "es = es1 @ es2" "reached E act dm cp es1 result"
      "exec (after_steps E dm cp rs result) es2 out"
proof -
  let ?prep = "bnd (prepare_deploy_data E rs dm cp nas) (\<lambda>data. thn check_if_cancelled (Return data))"
  have "exec (bnd ?prep (\<lambda>data. bnd (deploy_steps E act dm cp data) (after_steps E dm cp rs))) es out"
    using assms(2) by (simp add: deploy_vm_generic_def bnd_assoc)
  then show thesis
  proof (cases rule: exec_bndE)
    case (ok data es0 es')
    from emitsD [OF emits_checked_deploy_data [OF assms(1)] ok(1)] have "list_all harmless es0" .
    moreover from ok(2) assms(3) obtain result es1 es2 where steps: "exec (deploy_steps E act dm cp data) es1 (Ok result)"
        and after: "exec (after_steps E dm cp rs result) es2 out" "es' = es1 @ es2"
      using deploy_steps_never_raise by (cases rule: exec_bndE) (auto simp: never_raises_def)
    moreover note steps
    moreover from yieldsD [OF yields_deploy_steps steps] have "same_deployment data (fst result)"
      by (simp add: case_prod_unfold)
    ultimately have "reached E act dm cp (es0 @ es1) result" unfolding reached_def by blast
    then show thesis using that(2) [of "es0 @ es1" es2 result] ok(3) after by simp
  next
    case (err e)
    with that(1) show thesis using emitsD [OF emits_checked_deploy_data [OF assms(1)]] by blast
  qed (use assms(3) in simp)
qed

context vm_creation
begin

lemma rollback_takes_back:
  assumes "retry_law E" "reached E create_vm_action dm cp es1 (data, m, r)"
    "exec (rollback_deployment E cp data) es2 (Ok ())"
  shows "taken_back es1 es2"
proof -
  from assms(2) obtain es0 es data0 where es: "es1 = es0 @ es" "list_all harmless es0"
      "exec (deploy_steps E create_vm_action dm cp data0) es (Ok (data, m, r))" "same_deployment data0 data"
    by (auto simp: reached_def)
  have "list_all (step_ok (removals data)) es1"
    using emitsD [OF emits_steps [OF assms(1)] es(3)] es(2) same_removals [OF es(4)]
    by (auto simp: es(1) list_all_iff step_ok_harmless)
  with rollback_removes [OF assms(1,3)] show ?thesis
    unfolding taken_back_def step_ok_def list_all_iff by blast
qed

lemma failure:
  assumes "retry_law E" "exec (deploy_vm_generic E create_vm_action dm cp rs nas) es (Err e)"
  shows "list_all harmless es \<or> (\<exists>es1 es2 data m r. es = es1 @ es2 \<and> reached E create_vm_action dm cp es1 (data, m, r) \<and>
    (r = Inl e \<and> taken_back es1 es2 \<and> exec (rollback_deployment E cp data) es2 (Ok ()) \<or>
     exec (rollback_deployment E cp data) es2 (Err e) \<or>
     (\<forall>e'. r = Inl e' \<longrightarrow> is_script_timeout e')))"
proof (cases rule: deploy_runs [OF assms(1,2), simplified, case_names unprepared reached])
  case (reached es1 es2 result)
  obtain data m r where result: "result = (data, m, r)" by (cases result)
  show ?thesis
  proof (cases "\<forall>e'. r = Inl e' \<longrightarrow> is_script_timeout e'")
    case True
    with reached(1,2) result show ?thesis by blast
  next
    case False
    then obtain e' where e': "r = Inl e'" "\<not> is_script_timeout e'" by blast
    then have "exec (thn (rollback_deployment E cp data) (Raise e')) es2 (Err e :: deploy_app_result outcome)"
      using reached(3) unfolding result by (cases e') auto
    then consider "exec (rollback_deployment E cp data) es2 (Ok ())" "e = e'"
      | "exec (rollback_deployment E cp data) es2 (Err e)"
      by (auto simp: exec_bnd exec_simps)
    then show ?thesis
      using reached(1,2) e'(1) rollback_takes_back [OF assms(1)] unfolding result by cases blast+
  qed
qed auto

end

text \<open>
  C1: When a deployment raises an exception, then either it had created nothing and removed nothing
  so far; or the exception is that of one of its steps and each network card, public address and
  machine it asked for was deleted afterwards; or the rollback itself failed; or all steps had been
  done and the exception came from the report of the result. (A script extension that takes too long
  counts as done.)
\<close>

theorem failed_deployment:
  assumes "retry_law E" "act \<in> {create_vm_custom_image_action, create_vm_marketplace_action}"
    "exec (deploy_vm_generic E act dm cp rs nas) es (Err e)"
  shows "list_all harmless es \<or> (\<exists>es1 es2 data m r. es = es1 @ es2 \<and> reached E act dm cp es1 (data, m, r) \<and>
    (r = Inl e \<and> taken_back es1 es2 \<and> exec (rollback_deployment E cp data) es2 (Ok ()) \<or>
     exec (rollback_deployment E cp data) es2 (Err e) \<or>
     (\<forall>e'. r = Inl e' \<longrightarrow> is_script_timeout e')))"
proof -
  from assms(2) consider "act = create_vm_custom_image_action" | "act = create_vm_marketplace_action" by blast
  then show ?thesis
  proof cases
    case 1
    show ?thesis unfolding 1 by (rule custom_image.failure [OF assms(1) assms(3) [unfolded 1]])
  next
    case 2
    show ?thesis unfolding 2 by (rule marketplace.failure [OF assms(1) assms(3) [unfolded 2]])
  qed
qed

section \<open>Concrete deployments\<close>

definition sample_app :: "string \<Rightarrow> deployment_model" where
  "sample_app disk_size = \<lparr>dm_image = FromMarketplace ''p'' ''o'' ''s'' ''latest'', dm_vm_size = ''A1'',
     dm_disk_size = disk_size, dm_add_public_ip = False, dm_inbound_ports = ''80'', dm_public_ip_type = ''Dynamic'',
     dm_app_name = ''app'', dm_username = Some ''me'', dm_password = Some ''pass'', dm_extension_script_file = [],
     dm_extension_script_configurations = [], dm_extension_script_timeout = 600, dm_disk_type = ''SSD'',
     dm_allow_all_sandbox_traffic = PyText ''False'', dm_enable_ip_forwarding = False,
     dm_network_configurations = [], dm_autoload = True\<rparr>"

definition sample_deployment :: "string \<Rightarrow> deploy_app_result prog" where
  "sample_deployment disk_size = deploy_vm_generic sample_env create_vm_marketplace_action (sample_app disk_size)
     (sample_provider [''10.9.0.0/16'']) sample_reservation [True]"

lemma sample_app_fields:
  "dm_image (sample_app d) = FromMarketplace ''p'' ''o'' ''s'' ''latest''" "dm_vm_size (sample_app d) = ''A1''"
  "dm_disk_size (sample_app d) = d" "dm_add_public_ip (sample_app d) = False" "dm_inbound_ports (sample_app d) = ''80''"
  "dm_app_name (sample_app d) = ''app''" "dm_username (sample_app d) = Some ''me''" "dm_password (sample_app d) = Some ''pass''"
  "dm_extension_script_file (sample_app d) = []" "dm_disk_type (sample_app d) = ''SSD''"
  "dm_allow_all_sandbox_traffic (sample_app d) = PyText ''False''" "dm_network_configurations (sample_app d) = []"
  by (simp_all add: sample_app_def)

lemma outcome_get_resource_lock [result_simps]: "outcome_of sample_azure (get_resource_lock k) = Ok (ResourceLock 0)"
  by (simp add: get_resource_lock_def has_lock_resource_def result_simps cong: result_congs)

definition sample_request :: nic_request where
  "sample_request = \<lparr>nrq_interface_name = ''app-12345678-0'',
     nrq_subnet = sample_subnet ''r-1_10.1.0.0-29'' ''10.1.0.0/29'', nrq_is_public = True\<rparr>"

definition sample_data :: deploy_data where
  "sample_data = \<lparr>dd_reservation = sample_reservation, dd_group_name = ''r-1'', dd_computer_name = ''app-12345678'',
     dd_vm_name = ''app-12345678'', dd_vm_size = ''A1'', dd_storage_account_name = ''r1cs'',
     dd_tags = get_tags (Some ''app-12345678'') sample_reservation, dd_image_model = MarketplaceImageData Linux None,
     dd_nics = [], dd_vm_credentials = None, dd_primary_private_ip_address = [], dd_all_private_ip_addresses = [],
     dd_public_ip_address = Some [], dd_nic_requests = [Some sample_request], dd_enable_ip_forwarding = False\<rparr>"

lemma sample_data_prepared:
  "outcome_of sample_azure (prepare_deploy_data sample_env sample_reservation (sample_app d)
     (sample_provider nets) [True]) = Ok sample_data"
proof -
  have facts: "normalize_name (Some ''app'') = Some ''app''" "name_with_postfix ''app'' ''12345678'' 64 = ''app-12345678''"
    "get_virtual_network_by_tag sample_vnets NETWORK_TYPE_TAG_NAME SANDBOX_NETWORK_TAG_VALUE = Some (sample_vnets ! Suc 0)"
    "default_nic_requests ''r-1'' (vn_subnets (sample_vnets ! Suc 0)) ''app-12345678'' = [Some sample_request]"
    "rs_reservation_id sample_reservation = ''r-1''" "dm_enable_ip_forwarding (sample_app d) = False"
    by code_simp+
  have account: "outcome_of sample_azure (get_sandbox_storage_account_name sample_env g) = Ok ''r1cs''" for g
    by (simp add: get_sandbox_storage_account_name_def get_storage_per_resource_group_def first_def
      validate_single_storage_account_def result_simps cong: result_congs)
  show ?thesis
    by (simp add: prepare_deploy_data_def sample_app_fields validate_deployment_model_def all_private_def raising_def
      generate_short_unique_string_def facts generate_name_def truthy_def prepare_computer_name_def
      prepare_vm_size_def get_nic_requests_def get_sandbox_virtual_network_def account sample_data_def
      result_simps cong: result_congs)
qed

text \<open>The data after the steps that precede the machine.\<close>

definition sample_done :: deploy_data where
  "sample_done = sample_data\<lparr>dd_nics := [sample_card], dd_all_private_ip_addresses := [''10.1.0.4''],
     dd_primary_private_ip_address := ''10.1.0.4'', dd_vm_credentials := Some \<lparr>vc_admin_username = ''me'',
       vc_admin_password = Some ''pass'', vc_ssh_key = None\<rparr>\<rparr>"

lemma sample_common_objects:
  "outcome_of sample_azure (create_vm_common_objects sample_env (sample_provider nets) (sample_app d) sample_data) =
     Ok (sample_done, Inr ())"
proof -
  have facts: "get_virtual_network_by_tag sample_vnets NETWORK_TYPE_TAG_NAME MGMT_NETWORK_TAG_VALUE = Some (sample_vnets ! 0)"
    "get_virtual_network_by_tag sample_vnets NETWORK_TYPE_TAG_NAME SANDBOX_NETWORK_TAG_VALUE = Some (sample_vnets ! Suc 0)"
    "vn_address_prefixes (sample_vnets ! 0) = [''10.0.0.0/24'']" "dm_inbound_ports (sample_app d) = ''80''"
    "rules_parse_port_group_attribute ''80'' = Inr [rule_data_init (Proto ''tcp'') (Some ''80'') None None (AccessText ''Allow'') None]"
    by code_simp+
  have rules: "outcome_of sample_azure (for_each (\<lambda>(rule, start_from, source_address).
       create_network_security_group_rules sample_env g n [rule] ''*'' l (Some start_from) source_address)
       (vm_nsg_rules (sample_provider nets) (sample_app d) c)) = Ok ()" for g n l c
  proof -
    have "outcome_of sample_azure (for_each (\<lambda>(rule, start_from, source_address).
        create_network_security_group_rules sample_env g n [rule] ''*'' l (Some start_from) source_address) rs) = Ok ()"
      if "\<forall>x \<in> set rs. fst x \<noteq> AnotherObject" for rs
      using that by (induction rs) (auto simp: result_simps)
    then show ?thesis by (auto simp: vm_nsg_rules_def any_traffic_rule_def)
  qed
  have group: "outcome_of sample_azure (create_vm_network_security_group sample_env (sample_provider nets)
      sample_data (sample_app d)) = Ok (sample_nsg ''nsg'' [])"
    by (simp add: create_vm_network_security_group_def Let_def get_management_vnet_cidr_def facts first_def
      get_sandbox_virtual_network_def raising_def rules result_simps cong: result_congs)
  have fields: "dd_nic_requests sample_data = [Some sample_request]" "dd_image_model sample_data = MarketplaceImageData Linux None"
      "nic_ip_configurations sample_card = [\<lparr>ipc_private_ip_address = ''10.1.0.4'', ipc_private_ip_allocation_method = DynamicAllocation,
         ipc_public_ip_address = None, ipc_subnet_id = ''/subnets/s1''\<rparr>]"
    by (simp_all add: sample_data_def sample_card_def)
  have creds: "outcome_of sample_azure (prepare_vm_credentials sample_env (sample_app d) dat) =
      Ok \<lparr>vc_admin_username = ''me'', vc_admin_password = Some ''pass'', vc_ssh_key = None\<rparr>"
    if "dd_image_model dat = MarketplaceImageData Linux None" for dat
    by (simp add: prepare_vm_credentials_def that prepare_credentials_def prepare_linux_credentials_def
      sample_app_fields truthy_def result_simps cong: result_congs)
  show ?thesis
    by (simp add: create_vm_common_objects_def prepare_common_objects_def group raising_def facts fields
      create_requested_nic_def sample_app_fields nic_created_def first_def Let_def creds
      result_simps cong: result_congs) (simp add: sample_done_def sample_data_def)
qed

definition sample_disk_error :: exn where
  "sample_disk_error = PyException ''Disk size cannot be larger than 1023 GB''"

lemma sample_failed_steps:
  "outcome_of sample_azure (deploy_steps sample_env create_vm_marketplace_action (sample_app ''2000'')
     (sample_provider nets) sample_data) = Ok (sample_done, None, Inl sample_disk_error)"
proof -
  have facts: "prepare_os_disk ''SSD'' ''2000'' = Inl sample_disk_error"
    "prepare_network_interfaces (dd_nics sample_done) = Inr [\<lparr>nr_id = nic_id sample_card, nr_primary = True\<rparr>]"
    "dd_image_model sample_done = MarketplaceImageData Linux None" "expand_cloud_error_message m sample_disk_error = sample_disk_error"
    for m
    by code_simp+
  have creds: "credentials_of sample_done = Return \<lparr>vc_admin_username = ''me'', vc_admin_password = Some ''pass'', vc_ssh_key = None\<rparr>"
    by (simp add: credentials_of_def sample_done_def)
  show ?thesis
    by (simp add: deploy_steps_def sample_common_objects create_vm_marketplace_action_def facts creds sample_app_fields
      create_vm_from_marketplace_def result_simps cong: result_congs)
qed

lemma sample_rollback: "outcome_of sample_azure (rollback_deployment sample_env (sample_provider nets) sample_done) = Ok ()"
proof -
  have facts: "dd_nic_requests sample_done = [Some sample_request]" "\<not> py_in ''app-12345678'' ''nsg''" "\<not> py_in SANDBOX_NSG_NAME ''nsg''"
    "dd_vm_name sample_done = ''app-12345678''" "nsg_name (sample_nsg ''nsg'' []) = ''nsg''"
    "\<not> is_static_allocation (AllocationText (cp_private_ip_allocation_method (sample_provider nets)))"
    by code_simp+
  show ?thesis
    by (simp add: rollback_deployment_def rollback_deployed_resources_def facts interface_name_def raising_def
      delete_nsg_artifacts_associated_with_vm_def rollback_nsg_def no_result_def
      result_simps del: py_in.simps is_static_allocation.simps cong: result_congs)
qed

lemma sample_deployment_fails: "outcome_of sample_azure (sample_deployment ''2000'') = Err sample_disk_error"
  by (simp add: sample_deployment_def deploy_vm_generic_def sample_data_prepared sample_failed_steps
    sample_rollback result_simps cong: result_congs) (simp add: sample_disk_error_def sample_rollback result_simps cong: result_congs)

theorem failed_deployment_witness:
  "list_all harmless (run_of sample_azure (sample_deployment ''2000'')) \<or>
   (\<exists>es1 es2 data m r. run_of sample_azure (sample_deployment ''2000'') = es1 @ es2 \<and>
    reached sample_env create_vm_marketplace_action (sample_app ''2000'') (sample_provider [''10.9.0.0/16'']) es1 (data, m, r) \<and>
    (r = Inl sample_disk_error \<and> taken_back es1 es2 \<and>
       exec (rollback_deployment sample_env (sample_provider [''10.9.0.0/16'']) data) es2 (Ok ()) \<or>
     exec (rollback_deployment sample_env (sample_provider [''10.9.0.0/16'']) data) es2 (Err sample_disk_error) \<or>
     (\<forall>e'. r = Inl e' \<longrightarrow> is_script_timeout e')))"
  by (rule failed_deployment [OF sample_env_law _
      exec_run_of [OF sample_deployment_fails, unfolded sample_deployment_def], folded sample_deployment_def]) simp

end
