(* ===== verification/DeployResults.thy ===== *)
theory DeployResults
  imports DeployVm
begin

text \<open>
  What a deployment that returns has done: nothing was removed, the machine of the reported name was
  asked for with the network cards that were made, one for each request, and the reported address is
  that of the first card. A deployment that is not allowed makes nothing.
\<close>

section \<open>The data a deployment starts with\<close>

definition fresh_data :: "reservation \<Rightarrow> deploy_data \<Rightarrow> bool" where
  "fresh_data rs d \<longleftrightarrow> dd_group_name d = rs_reservation_id rs \<and> dd_all_private_ip_addresses d = []"

lemma yields_prepare_deploy_data: "yields (fresh_data rs) (prepare_deploy_data E rs dm cp nas)"
  unfolding prepare_deploy_data_def
  by (auto intro!: yields_bnd [OF yields_any] simp: yields_simps fresh_data_def split: option.split)

section \<open>The network cards\<close>

text \<open>The addresses that are kept are the first ones of the cards.\<close>

definition card_address :: "nic \<Rightarrow> string" where
  "card_address n = ipc_private_ip_address (hd (nic_ip_configurations n))"

definition cards_recorded :: "deploy_data \<Rightarrow> bool" where
  "cards_recorded d \<longleftrightarrow> dd_all_private_ip_addresses d = map card_address (dd_nics d) \<and>
     (\<forall>n ns. dd_nics d = n # ns \<longrightarrow> dd_primary_private_ip_address d = card_address n)"

lemma yields_create_requested_nic:
  "yields (\<lambda>(n, ip). ip = card_address n) (create_requested_nic E cp dm data nsg nr)"
proof -
  have addr: "yields (\<lambda>(n, ip). ip = card_address n)
      (bnd (first (nic_ip_configurations c)) (\<lambda>x. Return (c, ipc_private_ip_address x)))" for c
    by (cases "nic_ip_configurations c") (simp_all add: first_def yields_simps card_address_def)
  show ?thesis
    unfolding create_requested_nic_def Let_def
    by (auto intro!: yields_bnd [OF yields_any] addr simp: yields_simps split: option.split)
qed

lemma cards_recorded_step:
  assumes "cards_recorded d" "i = length (dd_nics d)"
  shows "cards_recorded (nic_created i n (card_address n) d)"
  using assms by (cases "dd_nics d") (auto simp: cards_recorded_def nic_created_def)

lemma yields_attempt: "yields Q p \<Longrightarrow> yields (\<lambda>r. \<forall>x. r = Inr x \<longrightarrow> Q x) (attempt p)"
  by (auto simp: yields_def attempt_def exec_try_else exec_simps)

lemma yields_cards:
  assumes "cards_recorded data" "i = length (dd_nics data)"
  shows "yields (\<lambda>(d, r). r = Inr () \<longrightarrow> cards_recorded d \<and> length (dd_nics d) = i + length nrs)
    (create_requested_nics E cp dm nsg n rules l data (List.enumerate i nrs))"
  using assms
proof (induction nrs arbitrary: data i)
  case (Cons nr nrs)
  let ?d = "\<lambda>c. nic_created i c (card_address c) data"
  have rest: "yields (\<lambda>(d, r). r = Inr () \<longrightarrow> cards_recorded d \<and> length (dd_nics d) = Suc (i + length nrs))
      (create_requested_nics E cp dm nsg n rules l (?d c) (List.enumerate (Suc i) nrs))" for c
    using Cons.IH [of "?d c" "Suc i"] cards_recorded_step [OF Cons.prems, of c] Cons.prems(2)
    by (simp add: nic_created_def)
  show ?case
    unfolding enumerate_simps create_requested_nics.simps Let_def
    by (rule yields_bnd [OF yields_attempt [OF yields_create_requested_nic]],
        auto split: sum.split simp: yields_simps)
      (rule yields_bnd [OF yields_any], auto split: sum.split simp: yields_simps intro: rest)
qed (simp add: yields_simps)

text \<open>The data of the steps when they succeeded.\<close>

definition steps_data :: "reservation \<Rightarrow> deploy_data \<Rightarrow> bool" where
  "steps_data rs d \<longleftrightarrow> dd_group_name d = rs_reservation_id rs \<and> cards_recorded d \<and>
     length (dd_nics d) = length (dd_nic_requests d)"

lemma yields_common_objects:
  assumes "fresh_data rs data"
  shows "yields (\<lambda>(d, r). r = Inr () \<longrightarrow> steps_data rs d) (create_vm_common_objects E cp dm data)"
proof -
  have nics: "yields (\<lambda>(d, r). (r = Inr () \<longrightarrow> steps_data rs d))
      (create_requested_nics E cp dm nsg n rules l (data\<lparr>dd_nics := []\<rparr>) (List.enumerate 0 (dd_nic_requests data)))" for nsg n rules l
  proof (unfold yields_def split_beta, intro allI impI)
    fix es x assume run: "exec (create_requested_nics E cp dm nsg n rules l (data\<lparr>dd_nics := []\<rparr>)
        (List.enumerate 0 (dd_nic_requests data))) es (Ok x)" and "snd x = Inr ()"
    have "cards_recorded (data\<lparr>dd_nics := []\<rparr>)" using assms by (simp add: cards_recorded_def fresh_data_def)
    from yieldsD [OF yields_cards [OF this] run] yieldsD [OF yields_create_requested_nics run] \<open>snd x = Inr ()\<close> assms
    show "steps_data rs (fst x)"
      by (auto simp: steps_data_def same_deployment_def fresh_data_def)
  qed
  show ?thesis
    unfolding create_vm_common_objects_def
    by (rule yields_bnd [OF yields_any], auto split: sum.split simp: yields_simps)
      (rule yields_bnd [OF nics], auto split: sum.split simp: yields_simps steps_data_def cards_recorded_def
        intro!: yields_bnd [OF yields_any])
qed

section \<open>What a run that returns has asked for\<close>

text \<open>A network card of the name was asked for.\<close>

definition card_asked :: "string \<Rightarrow> nic_request option \<Rightarrow> request \<Rightarrow> bool" where
  "card_asked g nr q \<longleftrightarrow> (\<exists>r p. nr = Some r \<and> q = Network (PutNic g (nrq_interface_name r) p) \<and> np_subnet p = nrq_subnet r)"

lemma makes_create_nic:
  assumes "retry_law E"
  shows "makes (card_asked g (Some r) \<circ> fst) (create_nic E (nrq_interface_name r) g ip reg (nrq_subnet r) alloc tags rid fw nsg)"
  unfolding create_nic_def poll_result_def
  by (intro makes_retried assms, rule makes_then, rule makes_then, rule makes_first, rule makes_first)
    (simp add: makes_simps card_asked_def)

lemma makes_create_requested_nic:
  assumes "retry_law E"
  shows "makes (card_asked (dd_group_name data) nr \<circ> fst) (create_requested_nic E cp dm data nsg nr)"
proof (cases nr)
  case (Some r)
  show ?thesis
    unfolding create_requested_nic_def create_network_for_vm_def Let_def Some option.case
    by (rule makes_first, rule makes_then, rule makes_first) (rule makes_create_nic [OF assms])
qed (simp add: create_requested_nic_def makes_simps)

lemma exec_attempt_cases:
  assumes "exec (bnd (attempt p) (\<lambda>r. case r of Inl e \<Rightarrow> f e | Inr x \<Rightarrow> h x)) es (Ok y)"
  obtains (err) e es1 es2 where "exec p es1 (Err e)" "exec (f e) es2 (Ok y)" "es = es1 @ es2"
  | (ok) x es1 es2 where "exec p es1 (Ok x)" "exec (h x) es2 (Ok y)" "es = es1 @ es2"
  using assms by (auto simp: exec_bnd attempt_def exec_try_else exec_simps)

lemma cards_made:
  assumes "retry_law E"
    "exec (create_requested_nics E cp dm nsg n rules l data inrs) es (Ok (d, Inr ()))" "nr \<in> snd ` set inrs"
  shows "\<exists>q \<in> fst ` set es. card_asked (dd_group_name data) nr q"
  using assms(2,3)
proof (induction inrs arbitrary: data es)
  case (Cons a inrs)
  obtain i nr' where a: "a = (i, nr')" by (cases a)
  obtain c ip es1 es2 es3 where 1: "exec (create_requested_nic E cp dm data nsg nr') es1 (Ok (c, ip))"
      and 2: "exec (create_requested_nics E cp dm nsg n rules l (nic_created i c ip data) inrs) es3 (Ok (d, Inr ()))"
      and es: "es = es1 @ es2 @ es3"
    using Cons.prems(1) [unfolded a create_requested_nics.simps Let_def]
  proof (cases rule: exec_attempt_cases)
    case (ok x es1 es2)
    then show thesis using that [of es1 "fst x" "snd x"]
      by (cases x) (auto simp: exec_simps elim!: exec_attempt_cases)
  qed (simp add: exec_simps)
  from makesD [OF makes_create_requested_nic [OF assms(1)] 1]
  have "\<exists>q \<in> fst ` set es. card_asked (dd_group_name data) nr' q" by (auto simp: es image_Un)
  moreover have "\<exists>q \<in> fst ` set es. card_asked (dd_group_name data) nr q" if "nr \<in> snd ` set inrs"
    using Cons.IH [OF 2 that] by (auto simp: es nic_created_def image_Un)
  ultimately show ?case using Cons.prems(2) a by auto
qed simp

lemma common_objects_run:
  assumes "exec (create_vm_common_objects E cp dm data) es (Ok (d, Inr ()))"
  obtains nsg n rules l es1 es2 d' es3 where
    "exec (create_requested_nics E cp dm nsg n rules l (data\<lparr>dd_nics := []\<rparr>)
       (List.enumerate 0 (dd_nic_requests data))) es2 (Ok (d', Inr ()))" "es = es1 @ es2 @ es3"
  using assms [unfolded create_vm_common_objects_def]
proof (cases rule: exec_attempt_cases)
  case (ok x es1 es2)
  obtain nsg rules l where x: "x = (nsg, rules, l)" by (cases x)
  from ok(2) [unfolded x prod.case] show thesis
  proof (rule exec_bnd_OkE)
    fix y es3 es4
    assume run: "exec (create_requested_nics E cp dm nsg
        (get_subnets_nsg_name (rs_reservation_id (dd_reservation data))) rules l
        (data\<lparr>dd_nics := []\<rparr>) (List.enumerate 0 (dd_nic_requests data))) es3 (Ok y)" and es: "es2 = es3 @ es4"
      and rest: "exec (case y of (data, r) \<Rightarrow> case r of Inl e \<Rightarrow> Return (data, Inl e)
        | Inr _ \<Rightarrow> bnd (attempt (prepare_vm_credentials E dm data)) (\<lambda>r. case r of Inl e \<Rightarrow> Return (data, Inl e)
          | Inr vm_creds \<Rightarrow> bnd (attempt check_if_cancelled) (\<lambda>r. Return (data\<lparr>dd_vm_credentials := Some vm_creds\<rparr>, r))))
        es4 (Ok (d, Inr ()))"
    from rest have "snd y = Inr ()" by (cases y, cases "snd y") (simp_all add: exec_simps)
    then have "y = (fst y, Inr ())" by (cases y) simp
    with run have "exec (create_requested_nics E cp dm nsg
        (get_subnets_nsg_name (rs_reservation_id (dd_reservation data))) rules l
        (data\<lparr>dd_nics := []\<rparr>) (List.enumerate 0 (dd_nic_requests data))) es3 (Ok (fst y, Inr ()))" by simp
    from that [OF this] show thesis unfolding ok(3) es by blast
  qed
qed (simp add: exec_simps)

lemma common_objects_made:
  assumes "retry_law E" "exec (create_vm_common_objects E cp dm data) es (Ok (d, Inr ()))"
    "nr \<in> set (dd_nic_requests data)"
  shows "\<exists>q \<in> fst ` set es. card_asked (dd_group_name data) nr q"
proof -
  have nr: "nr \<in> snd ` set (List.enumerate 0 (dd_nic_requests data))"
    using assms(3) by (metis map_snd_enumerate set_map)
  from common_objects_run [OF assms(2)] obtain nsg n rules l es1 es2 d' es3 where
      run: "exec (create_requested_nics E cp dm nsg n rules l (data\<lparr>dd_nics := []\<rparr>)
        (List.enumerate 0 (dd_nic_requests data))) es2 (Ok (d', Inr ()))" and es: "es = es1 @ es2 @ es3" .
  from cards_made [OF assms(1) run nr] show ?thesis by (auto simp: es image_Un)
qed

lemma steps_done:
  assumes "exec (deploy_steps E act dm cp data) es (Ok (d, Some m, r))"
  obtains es1 es2 es3 where "exec (create_vm_common_objects E cp dm data) es1 (Ok (d, Inr ()))"
    "exec (act E dm cp d) es2 (Ok m)" "es = es1 @ es2 @ es3"
proof -
  from assms [unfolded deploy_steps_def] obtain d' r' es1 es2 where
      1: "exec (create_vm_common_objects E cp dm data) es1 (Ok (d', r'))" and es: "es = es1 @ es2"
      and 2: "exec (case r' of Inl e \<Rightarrow> Return (d', None, Inl e) | Inr _ \<Rightarrow>
        bnd (attempt (catch (act E dm cp d') (\<lambda>e. Raise (expand_cloud_error_message dm e)))) (\<lambda>r. case r of
           Inl e \<Rightarrow> Return (d', None, Inl e)
         | Inr machine \<Rightarrow> bnd (attempt (thn check_if_cancelled (create_vm_custom_script_extension E cp dm d'))) (\<lambda>r.
             Return (d', Some machine, r)))) es2 (Ok (d, Some m, r))"
    by (elim exec_bnd_OkE) auto
  from 2 have "r' = Inr ()" by (auto simp: exec_simps split: sum.splits)
  with 2 have "exec (bnd (attempt (catch (act E dm cp d') (\<lambda>e. Raise (expand_cloud_error_message dm e)))) (\<lambda>r. case r of
           Inl e \<Rightarrow> Return (d', None, Inl e)
         | Inr machine \<Rightarrow> bnd (attempt (thn check_if_cancelled (create_vm_custom_script_extension E cp dm d'))) (\<lambda>r.
             Return (d', Some machine, r)))) es2 (Ok (d, Some m, r))" by simp
  then show thesis
  proof (cases rule: exec_attempt_cases)
    case (ok x esa esb)
    from ok(2) have "d' = d" "x = m" by (auto simp: exec_bnd exec_simps)
    with ok(1) have "exec (act E dm cp d) esa (Ok m)" by (auto simp: exec_catch exec_simps)
    with that 1 es ok(3) \<open>r' = Inr ()\<close> \<open>d' = d\<close> show thesis by blast
  qed (simp add: exec_simps)
qed

lemma emits_deploy_result:
  assumes "retry_law E"
  shows "emits harmless (deploy_result E dm data m)"
  unfolding deploy_result_def get_public_ip_address_def get_public_ip_def credentials_of_def Let_def
  by (auto intro!: emits_intros retried_intros emits_vm_details_create assms split: option.split)

section \<open>Successful deployments\<close>

lemma exec_after_steps_Ok:
  assumes "exec (after_steps E dm cp rs (d, m, r)) es (Ok result)"
  obtains es1 es2 where "exec (deploy_result E dm d m) es2 (Ok result)" "es = es1 @ es2" "list_all harmless es1"
proof (cases r)
  case (Inl e)
  with assms show thesis
    by (cases e) (auto simp: exec_bnd exec_simps intro!: that)
qed (use assms that [of es "[]"] in auto)

lemma deploy_result_fields:
  assumes "exec (deploy_result E dm d m) es (Ok result)"
  shows "m \<noteq> None \<and> dar_vm_name result = dd_vm_name d \<and>
    dar_deployed_app_address result = dd_primary_private_ip_address d"
  using assms unfolding deploy_result_def Let_def
  by (auto simp: exec_simps elim!: exec_bnd_OkE split: option.splits)

context vm_creation
begin

lemma success:
  assumes "retry_law E" "exec (deploy_vm_generic E create_vm_action dm cp rs nas) es (Ok result)"
  shows "list_all (\<lambda>ev. \<not> is_removal (fst ev)) es \<and>
    (\<exists>d. dd_group_name d = rs_reservation_id rs \<and> dd_vm_name d = dar_vm_name result \<and>
      (\<forall>nr \<in> set (dd_nic_requests d). \<exists>q \<in> fst ` set es. card_asked (dd_group_name d) nr q) \<and>
      length (dd_nics d) = length (dd_nic_requests d) \<and> (\<exists>q \<in> fst ` set es. machine_asked d q) \<and>
      (\<forall>n ns. dd_nics d = n # ns \<longrightarrow> dar_deployed_app_address result = card_address n))"
proof -
  from assms(2) [unfolded deploy_vm_generic_def] obtain data es0 es' where
      0: "exec (prepare_deploy_data E rs dm cp nas) es0 (Ok data)" and es': "es = es0 @ es'"
      and "exec (thn check_if_cancelled (bnd (deploy_steps E create_vm_action dm cp data) (after_steps E dm cp rs))) es' (Ok result)"
    by (rule exec_bnd_OkE)
  then obtain u res esc esa esb where c: "exec check_if_cancelled esc (Ok u)"
      and a: "exec (deploy_steps E create_vm_action dm cp data) esa (Ok res)"
      and b: "exec (after_steps E dm cp rs res) esb (Ok result)" and es: "es = es0 @ esc @ esa @ esb"
    by (elim exec_bnd_OkE) auto
  obtain d m r where res: "res = (d, m, r)" by (cases res)
  from exec_after_steps_Ok [OF b [unfolded res]] obtain esb1 esb2 where
      after: "exec (deploy_result E dm d m) esb2 (Ok result)" "esb = esb1 @ esb2" "list_all harmless esb1" by blast
  note fields = deploy_result_fields [OF after(1)]
  then obtain mach where m: "m = Some mach" by blast
  from steps_done [OF a [unfolded res m]] obtain es1 es2 es3 where
      1: "exec (create_vm_common_objects E cp dm data) es1 (Ok (d, Inr ()))"
      and 2: "exec (create_vm_action E dm cp d) es2 (Ok mach)" and esa: "esa = es1 @ es2 @ es3" by blast
  have check: "emits harmless check_if_cancelled" by (intro emits_intros) simp
  have "list_all (\<lambda>ev. \<not> is_removal (fst ev)) es"
    using emitsD [OF emits_prepare_deploy_data [OF assms(1)] 0] emitsD [OF check c]
      emitsD [OF emits_steps [OF assms(1)] a] after(3) emitsD [OF emits_deploy_result [OF assms(1)] after(1)]
    by (auto simp: es after(2) list_all_iff harmless_def step_ok_def)
  moreover have data: "fresh_data rs data" using yieldsD [OF yields_prepare_deploy_data 0] .
  have "steps_data rs d" using yieldsD [OF yields_common_objects [OF data] 1] by simp
  moreover have "same_deployment data d" using yieldsD [OF yields_create_vm_common_objects 1] by simp
  moreover have "\<exists>q \<in> fst ` set es. card_asked (dd_group_name data) nr q" if "nr \<in> set (dd_nic_requests data)" for nr
    using common_objects_made [OF assms(1) 1 that] by (auto simp: es esa image_Un)
  moreover have "\<exists>q \<in> fst ` set es. machine_asked d q"
    using machine_made [OF assms(1) 2] by (auto simp: es esa image_Un)
  ultimately show ?thesis
    using fields by (auto simp: steps_data_def same_deployment_def cards_recorded_def intro!: exI [of _ d])
qed

end


lemma outcome_create_vm [result_simps]: "outcome_of sample_azure (create_vm sample_env g n p logged) = Ok (RVm sample_machine)"
  by (simp add: create_vm_def wait_for_task_def wait_until_ready.simps result_simps cong: result_congs)

lemma sample_machine_made:
  "outcome_of sample_azure (deploy_steps sample_env create_vm_marketplace_action (sample_app ''100'')
     (sample_provider nets) sample_data) = Ok (sample_done, Some sample_machine, Inr ())"
proof -
  obtain disk where disk: "prepare_os_disk ''SSD'' ''100'' = Inr disk" by (rule that) code_simp
  have facts: "prepare_network_interfaces (dd_nics sample_done) = Inr [\<lparr>nr_id = nic_id sample_card, nr_primary = True\<rparr>]"
    "dd_image_model sample_done = MarketplaceImageData Linux None" "dm_extension_script_file (sample_app ''100'') = []"
    by code_simp+
  have creds: "credentials_of sample_done = Return \<lparr>vc_admin_username = ''me'', vc_admin_password = Some ''pass'', vc_ssh_key = None\<rparr>"
    by (simp add: credentials_of_def sample_done_def)
  show ?thesis
    by (simp add: deploy_steps_def sample_common_objects create_vm_marketplace_action_def facts creds sample_app_fields
      create_vm_from_marketplace_def disk create_vm_custom_script_extension_def result_simps cong: result_congs)
qed

lemma sample_details:
  "\<exists>details. outcome_of sample_azure (vm_details_create sample_env sample_machine True g) = Ok details"
proof -
  obtain inst where "get_vm_instance_data_for_market_place sample_machine = Inr inst"
    by (rule that) code_simp
  moreover have "vm_network_interfaces sample_machine = [\<lparr>nr_id = ''/nics/nic'', nr_primary = True\<rparr>]"
    "nic_ip_configurations sample_card = [\<lparr>ipc_private_ip_address = ''10.1.0.4'', ipc_private_ip_allocation_method = DynamicAllocation,
         ipc_public_ip_address = None, ipc_subnet_id = ''/subnets/s1''\<rparr>]"
    by (simp_all add: sample_machine_def sample_card_def)
  ultimately show ?thesis
    by (simp add: vm_details_create_def get_vm_network_data_def get_vm_interface_data_def first_def Let_def
        result_simps cong: result_congs)
qed

lemma sample_deployment_returns:
  obtains result where "outcome_of sample_azure (sample_deployment ''100'') = Ok result"
    "dar_vm_name result = ''app-12345678''"
proof -
  have facts: "first_public_request (dd_nic_requests sample_done) = Inr (Some sample_request)"
    "dm_add_public_ip (sample_app ''100'') = False" "dd_vm_name sample_done = ''app-12345678''"
    "is_marketplace_image (dd_image_model sample_done)"
    by code_simp+
  have creds: "credentials_of sample_done = Return \<lparr>vc_admin_username = ''me'', vc_admin_password = Some ''pass'', vc_ssh_key = None\<rparr>"
    by (simp add: credentials_of_def sample_done_def)
  obtain details where details:
      "outcome_of sample_azure (vm_details_create sample_env sample_machine True (dd_group_name sample_done)) = Ok details"
    using sample_details by blast
  show thesis
    by (rule that [where result = "\<lparr>dar_vm_uuid = vm_uuid sample_machine, dar_vm_name = dd_vm_name sample_done,
         dar_deployed_app_address = dd_primary_private_ip_address sample_done,
         dar_deployed_app_attributes = prepare_deployed_app_attributes ''me'' (Some ''pass'') None, dar_vm_details_data = details\<rparr>"])
      (simp_all add: sample_deployment_def deploy_vm_generic_def sample_data_prepared sample_machine_made deploy_result_def
        facts raising_def get_public_ip_address_def creds details Let_def result_simps cong: result_congs)
qed


section \<open>Deployments that are refused\<close>

text \<open>The wishes that the code turns down, whatever the image is.\<close>

definition not_allowed :: "deployment_model \<Rightarrow> cloud_provider \<Rightarrow> bool list \<Rightarrow> bool" where
  "not_allowed dm cp network_actions \<longleftrightarrow>
     network_actions \<noteq> [] \<and> True \<notin> set network_actions \<and> dm_add_public_ip dm \<or>
     dm_vm_size dm = [] \<and> cp_vm_size cp = []"

lemma not_allowed_refused:
  assumes "not_allowed dm cp nas"
  shows "yields (\<lambda>_. False) (prepare_deploy_data E rs dm cp nas)"
proof (cases "dm_vm_size dm = [] \<and> cp_vm_size cp = []")
  case True
  then have "prepare_vm_size dm cp = Inl (PyException (''There is no value for \"VM Size\" attribute neither on the '' @
           ''Deployment model nor on the Cloud Provider one''))"
    by (simp add: prepare_vm_size_def)
  then show ?thesis
    unfolding prepare_deploy_data_def
    by (auto intro!: yields_bnd [OF yields_any] simp: yields_simps raising_def split: option.split)
next
  case False
  with assms have "all_private nas" "dm_add_public_ip dm"
    by (auto simp: not_allowed_def all_private_def list_all_iff intro: ccontr)
  then have "validate_deployment_model dm image_os nas = Inl (ValueError
      ''Cannot deploy app with public ip when connected only to private subnets'')" for image_os
    by (simp add: validate_deployment_model_def)
  then show ?thesis
    unfolding prepare_deploy_data_def
    by (auto intro!: yields_bnd [OF yields_any] simp: yields_simps raising_def)
qed

lemma halts_prepare_deploy_data:
  assumes "retry_law E"
  shows "halts (prepare_deploy_data E rs dm cp nas)"
proof -
  have image: "halts (get_image_data_model E region d)" for region d
    by (cases d) (auto simp: get_virtual_machine_image_def intro!: halts_intros retried_intros assms)
  show ?thesis
    unfolding prepare_deploy_data_def get_nic_requests_def generate_short_unique_string_def prepare_computer_name_def
      get_sandbox_storage_account_name_def get_storage_per_resource_group_def Let_def
    by (auto intro!: halts_intros retried_intros image assms split: option.split sum.split)
qed


definition sample_private_app :: deployment_model where
  "sample_private_app = (sample_app ''100'')\<lparr>dm_add_public_ip := True\<rparr>"

definition sample_refusal :: exn where
  "sample_refusal = ValueError ''Cannot deploy app with public ip when connected only to private subnets''"

lemma sample_refused:
  "outcome_of sample_azure (deploy_vm_generic sample_env create_vm_marketplace_action sample_private_app
     (sample_provider []) sample_reservation [False]) = Err sample_refusal"
proof -
  have "all_private [False]" "dm_add_public_ip sample_private_app" "dm_image sample_private_app = FromMarketplace ''p'' ''o'' ''s'' ''latest''"
    by (simp_all add: all_private_def sample_private_app_def sample_app_def)
  then show ?thesis
    by (simp add: deploy_vm_generic_def prepare_deploy_data_def validate_deployment_model_def raising_def
      sample_refusal_def result_simps cong: result_congs)
qed


end
