(* ===== verification/AppOperations.thy ===== *)
theory AppOperations
  imports LockService SecurityGroups VmService RuleParsers SampleRuns
begin

text \<open>
  The operations on a deployed app: \<^verbatim>\<open>power_operation.py\<close>, \<^verbatim>\<open>refresh_ip_operation.py\<close> and
  \<^verbatim>\<open>set_app_security_groups.py\<close> of \<^verbatim>\<open>domain/vm_management/operations\<close>, and \<^verbatim>\<open>ip_operation.py\<close> and
  \<^verbatim>\<open>add_route_operation.py\<close> of \<^verbatim>\<open>domain/networking_management/operations\<close>.
\<close>

section \<open>Power\<close>

text \<open>The custom parameters of the app are given by their names and values.\<close>

definition partially_deployed :: exn where
  "partially_deployed = PyException (''Partially deployed app: VM Custom Script Extension failed to '' @
     ''compete within the specified timeout'')"

definition extension_timed_out :: "(string \<times> string) list \<Rightarrow> bool" where
  "extension_timed_out custom_params \<longleftrightarrow>
     get_custom_param_value custom_params ''extension_time_out'' \<in> {Some ''True'', Some ''true'', Some ''1''}"

definition power_on :: "env \<Rightarrow> string \<Rightarrow> string \<Rightarrow> string \<Rightarrow> (string \<times> string) list \<Rightarrow> unit prog" where
  "power_on E resource_group_name resource_full_name name custom_params =
     (if extension_timed_out custom_params
      then thn (call (Session (SetResourceLiveStatus resource_full_name ''Error'' ''Partially deployed app'')))
        (Raise partially_deployed)
      else thn (start_vm E resource_group_name name False) (Return ()))"

definition power_off :: "env \<Rightarrow> string \<Rightarrow> string \<Rightarrow> unit prog" where
  "power_off E resource_group_name name = thn (stop_vm E resource_group_name name False) (Return ())"

section \<open>Refreshing the addresses\<close>

text \<open>The reference of the first primary network interface, or else of the first one.\<close>

definition primary_nic_ref :: "vm \<Rightarrow> nic_ref prog" where
  "primary_nic_ref machine = (case find nr_primary (vm_network_interfaces machine) of
     Some r \<Rightarrow> Return r | None \<Rightarrow> first (vm_network_interfaces machine))"

text \<open>The private and the public address of the machine; the public one is empty when there is none.\<close>

definition addresses_on_azure :: "env \<Rightarrow> string \<Rightarrow> string \<Rightarrow> (string \<times> string) prog" where
  "addresses_on_azure E resource_group_name name =
     bnd (get_active_vm E resource_group_name name) (\<lambda>machine.
     bnd (primary_nic_ref machine) (\<lambda>nic_reference.
     bnd (bnd (call (Network (GetNic resource_group_name (get_name_from_resource_id (nr_id nic_reference)))))
       (expect as_nic)) (\<lambda>n.
     bnd (first (nic_ip_configurations n)) (\<lambda>vm_ip_configuration.
     bnd (case ipc_public_ip_address vm_ip_configuration of
         None \<Rightarrow> Return []
       | Some i \<Rightarrow> bnd (bnd (call (Network (GetPublicIp resource_group_name (get_name_from_resource_id i))))
           (expect as_public_ip)) (\<lambda>pub_ip_addr. Return (pip_ip_address pub_ip_addr))) (\<lambda>public_ip_on_azure.
     Return (ipc_private_ip_address vm_ip_configuration, public_ip_on_azure))))))"

definition refresh_ip ::
  "env \<Rightarrow> string \<Rightarrow> string \<Rightarrow> string \<Rightarrow> string \<times> string option \<Rightarrow> string \<Rightarrow> unit prog"
where
  "refresh_ip E resource_group_name name private_ip_on_resource public_ip_on_resource_attr resource_fullname =
     bnd (addresses_on_azure E resource_group_name name) (\<lambda>(private_ip_on_azure, public_ip_on_azure).
     thn (only_if (Some public_ip_on_azure \<noteq> snd public_ip_on_resource_attr)
       (thn (call (Session (SetAttributeValue resource_fullname (fst public_ip_on_resource_attr)
         (Some public_ip_on_azure)))) (Return ())))
     (only_if (private_ip_on_azure \<noteq> private_ip_on_resource)
       (thn (call (Session (UpdateResourceAddress resource_fullname private_ip_on_azure))) (Return ()))))"

section \<open>Private addresses\<close>

definition validate_allocation_method :: "cloud_provider \<Rightarrow> exn + unit" where
  "validate_allocation_method cp =
     (if py_lower (cp_private_ip_allocation_method cp) \<noteq> ''cloudshell allocation''
      then Inl (ValueError (''GetAvailablePrivateIP is supported only when the cloud provider '' @
        quoted ''Private IP Allocation Method'' @ '' attribute is set to Cloudshell Allocation. '' @
        ''Current allocation method is '' @ cp_private_ip_allocation_method cp))
      else Inr ())"

definition validate_subnet_exists :: "env \<Rightarrow> cloud_provider \<Rightarrow> string \<Rightarrow> string \<Rightarrow> unit prog" where
  "validate_subnet_exists E cp reservation_id subnet_cidr =
     bnd (get_sandbox_virtual_network E (cp_management_group_name cp)) (\<lambda>sandbox_vnet.
     case sandbox_vnet of
       None \<Rightarrow> Raise (none_attribute ''name'')
     | Some v \<Rightarrow> thn (call (Network (GetSubnet (cp_management_group_name cp) (vn_name v)
         (format_subnet_name reservation_id subnet_cidr)))) (Return ()))"

definition get_available_private_ip ::
  "env \<Rightarrow> cloud_provider \<Rightarrow> string \<Rightarrow> string \<Rightarrow> string option \<Rightarrow> string prog"
where
  "get_available_private_ip E cp reservation_id subnet_cidr owner =
     thn (raising (validate_allocation_method cp))
     (thn (validate_subnet_exists E cp reservation_id subnet_cidr)
     (get_next_available_ip_from_cs_pool E reservation_id subnet_cidr owner))"

section \<open>Routes\<close>

text \<open>\<^verbatim>\<open>RouteTableRequestResourceModel\<close>\<close>

record route_table_request =
  rtr_name :: string
  rtr_routes :: "route list"
  rtr_subnets :: "string list"

definition create_sandbox_route_table ::
  "env \<Rightarrow> route_table_request \<Rightarrow> cloud_provider \<Rightarrow> string \<Rightarrow> resp prog"
where
  "create_sandbox_route_table E request cp sandbox_id =
     retried_on_retryable E (no_result (
       bnd (get_sandbox_virtual_network E (cp_management_group_name cp)) (\<lambda>v. case v of
         None \<Rightarrow> Raise (none_attribute ''name'')
       | Some v \<Rightarrow>
           thn (create_route_table (cp_region cp) (rtr_routes request) (rtr_name request) sandbox_id)
           (with_lock SubnetLocker
             (add_route_table_to_subnets sandbox_id (rtr_name request) (rtr_subnets request)
               (cp_management_group_name cp) (vn_name v))))))"

section \<open>Security groups of apps\<close>

text \<open>\<^verbatim>\<open>models/app_security_groups_model.py\<close>; the deployed app is given by its name.\<close>

record app_security_group_model =
  asg_app_name :: string
  asg_security_group_configurations :: "security_group_configuration list option"

record app_security_group_result =
  asr_app_name :: string
  asr_success :: bool
  asr_error :: string

definition create_security_group_action_result :: "string \<Rightarrow> bool \<Rightarrow> string \<Rightarrow> app_security_group_result" where
  "create_security_group_action_result app_name is_success message =
     \<lparr>asr_app_name = app_name, asr_success = is_success, asr_error = message\<rparr>"

definition determine_name_of_subnet :: "env \<Rightarrow> string \<Rightarrow> security_group_configuration \<Rightarrow> exn + string" where
  "determine_name_of_subnet E resource_group_name config =
     (case is_cidr_format E (sg_subnet_id config) of
        Inl e \<Rightarrow> Inl e
      | Inr is_single_subnet_scenario \<Rightarrow>
         Inr (get_name_from_resource_id (if is_single_subnet_scenario
           then format_subnet_name resource_group_name (sg_subnet_id config) else sg_subnet_id config)))"

text \<open>
  The dictionary from network cards to the names of their subnets: its keys are objects that were
  just read, so each card has an entry of its own; \<open>items\<close> is the order in which Python goes through it.
\<close>

definition find_nic_by_subnet :: "(nic \<times> string) list \<Rightarrow> string \<Rightarrow> nic option" where
  "find_nic_by_subnet nic_to_subnet_map subnet_name =
     map_option fst (find (\<lambda>(k, v). v = subnet_name) nic_to_subnet_map)"

definition create_nic_to_subnet_name_map :: "vm \<Rightarrow> string \<Rightarrow> (nic \<times> string) list prog" where
  "create_nic_to_subnet_name_map instnc group_name =
     map_prog (\<lambda>nic_ref.
       bnd (bnd (call (Network (GetNic group_name (get_name_from_resource_id (nr_id nic_ref)))))
         (expect as_nic)) (\<lambda>n.
       bnd (first (nic_ip_configurations n)) (\<lambda>ip_configuration.
       Return (n, get_name_from_resource_id (ipc_subnet_id ip_configuration)))))
     (vm_network_interfaces instnc)"

definition custom_rule_name :: "string \<Rightarrow> string \<Rightarrow> nat \<Rightarrow> string" where
  "custom_rule_name name destination_ip i =
     ''custom_rule_'' @ nat_str i @ ''_for_'' @ name @ ''_to_'' @ destination_ip"

definition name_custom_rules :: "string \<Rightarrow> string \<Rightarrow> port_data list \<Rightarrow> port_data list" where
  "name_custom_rules name destination_ip rules =
     map (\<lambda>(i, rule). rule\<lparr>pd_name := Some (custom_rule_name name destination_ip i)\<rparr>) (List.enumerate 0 rules)"

definition not_iterable :: exn where
  "not_iterable = TypeError (quoted ''NoneType'' @ '' object is not iterable'')"

definition set_configuration ::
  "env \<Rightarrow> string \<Rightarrow> string \<Rightarrow> lock \<Rightarrow> (nic \<times> string) list \<Rightarrow> security_group_configuration \<Rightarrow> unit prog"
where
  "set_configuration E group_name name lk nic_to_subnet_name_map config =
     bnd (raising (determine_name_of_subnet E group_name config)) (\<lambda>subnet_name.
     case find_nic_by_subnet nic_to_subnet_name_map subnet_name of
       None \<Rightarrow> Raise (none_attribute ''ip_configurations'')
     | Some n \<Rightarrow>
         bnd (first (nic_ip_configurations n)) (\<lambda>c.
         (let destination_ip = ipc_private_ip_address c in
          case sg_rules config of
            None \<Rightarrow> Raise not_iterable
          | Some rules \<Rightarrow>
              thn (create_network_security_group_rules E group_name (''NSG_'' @ name)
                (map APort (name_custom_rules name destination_ip rules)) destination_ip lk None InternetHop)
              (Return ()))))"

definition set_app_security_groups ::
  "env \<Rightarrow> ((nic \<times> string) list \<Rightarrow> (nic \<times> string) list) \<Rightarrow> string \<Rightarrow> app_security_group_model \<Rightarrow> unit prog"
where
  "set_app_security_groups E items group_name model =
     (let name = asg_app_name model in
      bnd (get_resource_lock (''NSG_'' @ name)) (\<lambda>lk.
      thn (delete_custom_security_rules_from_nsg E group_name (''NSG_'' @ name) lk)
      (bnd (bnd (get_vm E group_name name) (expect as_vm)) (\<lambda>instnc.
      bnd (create_nic_to_subnet_name_map instnc group_name) (\<lambda>nic_to_subnet_name_map.
      case asg_security_group_configurations model of
        None \<Rightarrow> Raise not_iterable
      | Some configs \<Rightarrow>
          for_each (set_configuration E group_name name lk (items nic_to_subnet_name_map)) configs)))))"

definition app_failure :: "string \<Rightarrow> exn \<Rightarrow> string" where
  "app_failure name e = ''Setting custom app security rules failed for '' @ quoted name @ '' with error '' @
     quoted (exn_message e) @ ''.''"

definition set_apps_security_groups ::
  "env \<Rightarrow> ((nic \<times> string) list \<Rightarrow> (nic \<times> string) list) \<Rightarrow> string \<Rightarrow> app_security_group_model list \<Rightarrow>
     app_security_group_result list prog"
where
  "set_apps_security_groups E items group_name models =
     map_prog (\<lambda>model. try_else (set_app_security_groups E items group_name model)
       (\<lambda>ex. Return (create_security_group_action_result (asg_app_name model) False
         (app_failure (asg_app_name model) ex)))
       (\<lambda>_. Return (create_security_group_action_result (asg_app_name model) True []))) models"

section \<open>Refreshed addresses\<close>

text \<open>What CloudShell keeps of a resource: its address and its attributes.\<close>

record resource_view =
  rv_address :: string
  rv_attributes :: "string \<rightharpoonup> string"

fun apply_event :: "string \<Rightarrow> resource_view \<Rightarrow> event \<Rightarrow> resource_view" where
  "apply_event full s (Session (SetAttributeValue r k v), Inr _) =
     (if r = full then s\<lparr>rv_attributes := (rv_attributes s)(k := v)\<rparr> else s)"
| "apply_event full s (Session (UpdateResourceAddress r a), Inr _) =
     (if r = full then s\<lparr>rv_address := a\<rparr> else s)"
| "apply_event full s ev = s"

fun is_session :: "event \<Rightarrow> bool" where
  "is_session (Session q, v) \<longleftrightarrow> True"
| "is_session ev \<longleftrightarrow> False"

lemma apply_other [simp]: "\<not> is_session ev \<Longrightarrow> apply_event full s ev = s"
  by (cases "(full, s, ev)" rule: apply_event.cases) auto

lemma apply_others: "list_all (\<lambda>ev. \<not> is_session ev) es \<Longrightarrow> foldl (apply_event full) s es = s"
  by (induction es) auto

lemma reads_no_session:
  assumes "retry_law E"
  shows "emits (\<lambda>ev. \<not> is_session ev) (addresses_on_azure E g n)"
  unfolding addresses_on_azure_def get_active_vm_def get_vm_def primary_nic_ref_def
  by (auto intro!: emits_intros retried_intros assms split: option.split)

text \<open>
  C11: When the addresses of an app were refreshed, CloudShell has for the resource the private and the
  public address that were read from Azure, and everything else of it is as before, although only the
  values that differ are sent.
\<close>

theorem refreshed:
  assumes "retry_law E" "exec (refresh_ip E g n (rv_address s) (k, p0) full) es (Ok ())" "rv_attributes s k = p0"
  shows "\<exists>es1 es2 a p. es = es1 @ es2 \<and> exec (addresses_on_azure E g n) es1 (Ok (a, p)) \<and>
    foldl (apply_event full) s es = s\<lparr>rv_address := a, rv_attributes := (rv_attributes s)(k \<mapsto> p)\<rparr>"
proof -
  from assms(2) obtain es1 es2 a p where 1: "exec (addresses_on_azure E g n) es1 (Ok (a, p))" "es = es1 @ es2"
    and 2: "exec (thn (only_if (Some p \<noteq> p0) (thn (call (Session (SetAttributeValue full k (Some p)))) (Return ())))
      (only_if (a \<noteq> rv_address s) (thn (call (Session (UpdateResourceAddress full a))) (Return ())))) es2 (Ok ())"
    unfolding refresh_ip_def by (elim exec_bnd_OkE) auto
  from emitsD [OF reads_no_session [OF assms(1)] 1(1)] have "foldl (apply_event full) s es1 = s" by (rule apply_others)
  moreover from 2 have "foldl (apply_event full) s es2 = s\<lparr>rv_address := a, rv_attributes := (rv_attributes s)(k \<mapsto> p)\<rparr>"
    using assms(3) by (cases "Some p = p0"; cases "a = rv_address s") (auto simp: only_if_def exec_bnd exec_simps fun_upd_idem)
  ultimately show ?thesis using 1
    by - (rule exI [of _ es1], rule exI [of _ es2], rule exI [of _ a], rule exI [of _ p], simp)
qed

section \<open>Rules of apps\<close>

text \<open>
  The requests that setting the rules of apps of a group makes: of the network and of the machines it
  only reads, apart from the custom rules in the security groups of these apps.
\<close>

fun custom_only :: "string \<Rightarrow> string set \<Rightarrow> request \<Rightarrow> bool" where
  "custom_only g ns (Network (PutRule grp n r rule)) \<longleftrightarrow>
     grp = g \<and> n \<in> (@) ''NSG_'' ` ns \<and> r = sr_name rule \<and> is_custom_rule rule"
| "custom_only g ns (Network (DeleteRule grp n r)) \<longleftrightarrow> grp = g \<and> n \<in> (@) ''NSG_'' ` ns \<and> py_in ''custom_rule'' r"
| "custom_only g ns (Network (ListRules grp n)) \<longleftrightarrow> True"
| "custom_only g ns (Network (GetNic grp n)) \<longleftrightarrow> True"
| "custom_only g ns (Network q) \<longleftrightarrow> False"
| "custom_only g ns (Compute (GetVm grp n)) \<longleftrightarrow> True"
| "custom_only g ns (Compute q) \<longleftrightarrow> False"
| "custom_only g ns (Resource q) \<longleftrightarrow> False"
| "custom_only g ns (Storage q) \<longleftrightarrow> False"
| "custom_only g ns (Session q) \<longleftrightarrow> False"
| "custom_only g ns q \<longleftrightarrow> True"

lemma port_rule_name:
  "truthy (pd_name pd) \<Longrightarrow> prepare_security_group_rule (APort pd) dest prio acc src = Inr r \<Longrightarrow>
     sr_name r = the (pd_name pd)"
  by (auto simp: prepare_security_group_rule_def Let_def)

lemma emits_named_rules:
  assumes "retry_law E" "\<And>pd. pd \<in> set pds \<Longrightarrow> truthy (pd_name pd)"
    "\<And>pd r v. pd \<in> set pds \<Longrightarrow> sr_name r = the (pd_name pd) \<Longrightarrow> P (Network (PutRule grp n (sr_name r) r), v)"
    "\<And>i v. P (Poller (PollResult i), v)"
  shows "emits P (create_rules E grp n dest src gen (map APort pds))"
  using assms(2,3)
proof (induction pds arbitrary: gen)
  case (Cons pd pds)
  have one: "emits P (create_network_security_group_rule E grp n (APort pd) dest prio src)" for prio
    unfolding create_network_security_group_rule_def
    using port_rule_name [OF Cons.prems(1), of pd dest prio "AccessText ''Allow''" src] Cons.prems(2) [of pd]
    by (auto intro!: emits_intros retried_intros assms(1,4) split: sum.split)
  show ?case
    using Cons by (auto intro!: emits_intros one split: sum.split)
qed (simp add: emits_intros)

lemma custom_rule_named:
  assumes "pd \<in> set (name_custom_rules name ip rules)"
  shows "truthy (pd_name pd)" "py_in ''custom_rule'' (the (pd_name pd))"
proof -
  from assms obtain i where i: "pd_name pd = Some (custom_rule_name name ip i)"
    by (auto simp: name_custom_rules_def)
  have name: "custom_rule_name name ip i = ''custom_rule'' @ (''_'' @ nat_str i @ ''_for_'' @ name @ ''_to_'' @ ip)"
    by (simp add: custom_rule_name_def)
  show "truthy (pd_name pd)" unfolding i name by (simp add: truthy_def)
  show "py_in ''custom_rule'' (the (pd_name pd))"
    unfolding i name option.sel by (rule py_in_appendI [of _ "[]", unfolded append_Nil])
qed

lemma custom_only_others [simp]:
  "custom_only g ns (Memory m)" "custom_only g ns (Runtime q)" "custom_only g ns (Poller pq)"
  by simp_all

lemma emits_set_configuration:
  assumes "retry_law E" "name \<in> ns"
  shows "emits (\<lambda>ev. custom_only g ns (fst ev)) (set_configuration E g name lk m config)"
proof -
  have rules: "emits (\<lambda>ev. custom_only g ns (fst ev)) (create_network_security_group_rules E g (''NSG_'' @ name)
      (map APort (name_custom_rules name ip rs)) ip lk st src)" for ip rs st src
    unfolding create_network_security_group_rules_def
    by (intro retried_intros emits_intros assms(1) emits_named_rules)
      (use assms(2) in \<open>auto simp: is_custom_rule_def emits_intros dest: custom_rule_named\<close>)
  show ?thesis
    unfolding set_configuration_def Let_def
    by (auto intro!: emits_intros rules [unfolded append_Cons append_Nil] split: option.split)
qed

lemma emits_set_app_security_groups:
  assumes "retry_law E" "asg_app_name model \<in> ns"
  shows "emits (\<lambda>ev. custom_only g ns (fst ev)) (set_app_security_groups E items g model)"
proof -
  have old: "emits (\<lambda>ev. custom_only g ns (fst ev))
      (delete_custom_security_rules_from_nsg E g (''NSG_'' @ asg_app_name model) lk)" for lk
    unfolding delete_custom_security_rules_from_nsg_def
    by (intro retried_intros emits_intros assms(1))
      (use assms(2) in \<open>auto simp: is_custom_rule_def emits_intros\<close>)
  show ?thesis
    unfolding set_app_security_groups_def create_nic_to_subnet_name_map_def get_vm_def Let_def
    by (auto intro!: emits_intros retried_intros old [unfolded append_Cons append_Nil] emits_set_configuration assms split: option.split)
qed

lemma halts_set_app_security_groups:
  assumes "retry_law E"
  shows "halts (set_app_security_groups E items g model)"
  unfolding set_app_security_groups_def create_nic_to_subnet_name_map_def get_vm_def set_configuration_def
    delete_custom_security_rules_from_nsg_def Let_def
  by (auto intro!: halts_intros retried_intros assms split: option.split)

text \<open>What the result of an app says of the run for the app.\<close>

definition app_result_of ::
  "env \<Rightarrow> ((nic \<times> string) list \<Rightarrow> (nic \<times> string) list) \<Rightarrow> string \<Rightarrow> app_security_group_model \<Rightarrow> event list \<Rightarrow>
     app_security_group_result \<Rightarrow> bool"
where
  "app_result_of E items g model es r \<longleftrightarrow> asr_app_name r = asg_app_name model \<and>
     (if asr_success r then asr_error r = [] \<and> exec (set_app_security_groups E items g model) es (Ok ())
      else \<exists>e. asr_error r = app_failure (asg_app_name model) e \<and>
        exec (set_app_security_groups E items g model) es (Err e))"

lemma app_result_of_run:
  assumes "exec (try_else (set_app_security_groups E items g model)
       (\<lambda>ex. Return (create_security_group_action_result (asg_app_name model) False
         (app_failure (asg_app_name model) ex)))
       (\<lambda>_. Return (create_security_group_action_result (asg_app_name model) True []))) es (Ok r)"
  shows "app_result_of E items g model es r"
  using assms
  by (auto simp: exec_try_else exec_simps app_result_of_def create_security_group_action_result_def)

text \<open>
  C36: Setting the rules of apps always returns, with one result per app in their order, and a failure
  for one app does not keep the others from being done: the result says that the app succeeded if the
  run for it did, and otherwise what it failed with. Everything it changes are custom rules of the
  security groups of these apps: it puts only rules that a later call deletes again, and deletes no
  others.
\<close>

theorem app_rules_are_custom:
  assumes "retry_law E" "exec (set_apps_security_groups E items g models) es out"
  shows "(\<exists>rs ess. out = Ok rs \<and> es = concat ess \<and> length ess = length models \<and> length rs = length models \<and>
      (\<forall>i < length models. app_result_of E items g (models ! i) (ess ! i) (rs ! i))) \<and>
    list_all (\<lambda>ev. custom_only g (asg_app_name ` set models) (fst ev)) es"
proof
  have "halts (set_apps_security_groups E items g models)"
    unfolding set_apps_security_groups_def by (intro halts_intros halts_set_app_security_groups assms(1))
  moreover have "out \<noteq> Err e" for e
    using assms(2) unfolding set_apps_security_groups_def
    by (induction models arbitrary: es out) (auto simp: exec_simps exec_bnd exec_try_else)
  ultimately obtain rs where out: "out = Ok rs" using assms(2) by (cases out) (auto dest: haltsD)
  from exec_map_prog_Ok [OF assms(2) [unfolded set_apps_security_groups_def out]]
  show "\<exists>rs ess. out = Ok rs \<and> es = concat ess \<and> length ess = length models \<and> length rs = length models \<and>
      (\<forall>i < length models. app_result_of E items g (models ! i) (ess ! i) (rs ! i))"
    unfolding out by (auto intro: app_result_of_run)
  have "emits (\<lambda>ev. custom_only g (asg_app_name ` set models) (fst ev)) (set_apps_security_groups E items g models)"
    unfolding set_apps_security_groups_def
    by (intro emits_intros emits_set_app_security_groups assms(1)) simp
  then show "list_all (\<lambda>ev. custom_only g (asg_app_name ` set models) (fst ev)) es"
    using assms(2) by (rule emitsD)
qed

section \<open>Concrete runs\<close>

definition sample_view :: resource_view where
  "sample_view = \<lparr>rv_address = ''10.1.0.9'', rv_attributes = [''Public IP'' \<mapsto> ''52.0.0.1'', ''User'' \<mapsto> ''me'']\<rparr>"

lemma outcome_get_vm [result_simps]: "outcome_of sample_azure (get_vm sample_env g n) = Ok (RVm sample_machine)"
  by (simp add: get_vm_def result_simps cong: result_congs)

lemma sample_card_ips: "nic_ip_configurations sample_card = [\<lparr>ipc_private_ip_address = ''10.1.0.4'',
    ipc_private_ip_allocation_method = DynamicAllocation, ipc_public_ip_address = None, ipc_subnet_id = ''/subnets/s1''\<rparr>]"
  by (simp add: sample_card_def)

definition sample_refresh :: "unit prog" where
  "sample_refresh = refresh_ip sample_env ''r-1'' ''vm'' (rv_address sample_view) (''Public IP'', Some ''52.0.0.1'') ''app''"

lemma sample_refresh_returns: "outcome_of sample_azure sample_refresh = Ok ()"
proof -
  have machine: "vm_network_interfaces sample_machine = [\<lparr>nr_id = ''/nics/nic'', nr_primary = True\<rparr>]"
    "vm_provisioning_state sample_machine = ''Succeeded''"
    by (simp_all add: sample_machine_def)
  show ?thesis
    by (simp add: sample_refresh_def refresh_ip_def addresses_on_azure_def get_active_vm_def primary_nic_ref_def
      machine first_def sample_card_ips only_if_def result_simps cong: result_congs)
qed

theorem refreshed_witness:
  "\<exists>es1 es2 a p. run_of sample_azure sample_refresh = es1 @ es2 \<and>
    exec (addresses_on_azure sample_env ''r-1'' ''vm'') es1 (Ok (a, p)) \<and>
    foldl (apply_event ''app'') sample_view (run_of sample_azure sample_refresh) =
      sample_view\<lparr>rv_address := a, rv_attributes := (rv_attributes sample_view)(''Public IP'' \<mapsto> p)\<rparr>"
proof (rule refreshed [OF sample_env_law exec_run_of [OF sample_refresh_returns, unfolded sample_refresh_def],
    folded sample_refresh_def])
  show "rv_attributes sample_view ''Public IP'' = Some ''52.0.0.1''" by (simp add: sample_view_def)
qed

definition sample_app_groups :: "app_security_group_model list" where
  "sample_app_groups =
    [\<lparr>asg_app_name = ''vm1'', asg_security_group_configurations = Some [\<lparr>sg_subnet_id = ''s1'', sg_rules = Some
        [\<lparr>pd_from_port = ''80'', pd_to_port = ''80'', pd_protocol = Proto ''tcp'', pd_destination = None,
          pd_source = Addr ''10.0.0.0/24'', pd_name = None\<rparr>]\<rparr>]\<rparr>,
     \<lparr>asg_app_name = ''vm2'', asg_security_group_configurations = None\<rparr>]"

definition sample_app_rules :: "app_security_group_result list prog" where
  "sample_app_rules = set_apps_security_groups sample_env rev ''r-1'' sample_app_groups"

definition sample_app_results :: "app_security_group_result list" where
  "sample_app_results = [\<lparr>asr_app_name = ''vm1'', asr_success = True, asr_error = []\<rparr>,
     \<lparr>asr_app_name = ''vm2'', asr_success = False, asr_error = app_failure ''vm2'' not_iterable\<rparr>]"

lemma sample_app_rules_return: "outcome_of sample_azure sample_app_rules = Ok sample_app_results"
proof -
  have net: "is_cidr_format sample_env ''s1'' = Inr False" by code_simp
  have names: "get_name_from_resource_id ''s1'' = ''s1''" "get_name_from_resource_id ''/subnets/s1'' = ''s1''"
    by code_simp+
  have machine: "vm_network_interfaces sample_machine = [\<lparr>nr_id = ''/nics/nic'', nr_primary = True\<rparr>]"
    by (simp add: sample_machine_def)
  have lock: "outcome_of sample_azure (get_resource_lock k) = Ok (ResourceLock 0)" for k
    by (simp add: get_resource_lock_def has_lock_resource_def result_simps cong: result_congs)
  have old: "outcome_of sample_azure (delete_custom_security_rules_from_nsg sample_env g n l) = Ok RNone" for g n l
    by (simp add: delete_custom_security_rules_from_nsg_def no_result_def result_simps cong: result_congs)
  have map: "outcome_of sample_azure (create_nic_to_subnet_name_map sample_machine g) = Ok [(sample_card, ''s1'')]" for g
    by (simp add: create_nic_to_subnet_name_map_def machine first_def sample_card_ips names result_simps cong: result_congs)
  have rules: "outcome_of sample_azure (create_network_security_group_rules sample_env g n (map APort pds) ip l st src) = Ok RNone"
    for g n pds ip l st src by (rule outcome_security_group_rules) auto
  show ?thesis
    by (simp add: sample_app_rules_def set_apps_security_groups_def sample_app_groups_def set_app_security_groups_def
      lock old map set_configuration_def determine_name_of_subnet_def net names raising_def find_nic_by_subnet_def first_def
      sample_card_ips create_security_group_action_result_def sample_app_results_def rules Let_def
      result_simps cong: result_congs)
qed

theorem app_rules_are_custom_witness:
  "(\<exists>rs ess. Ok sample_app_results = Ok rs \<and> run_of sample_azure sample_app_rules = concat ess \<and>
      length ess = length sample_app_groups \<and> length rs = length sample_app_groups \<and>
      (\<forall>i < length sample_app_groups. app_result_of sample_env rev ''r-1'' (sample_app_groups ! i) (ess ! i) (rs ! i))) \<and>
    list_all (\<lambda>ev. custom_only ''r-1'' (asg_app_name ` set sample_app_groups) (fst ev)) (run_of sample_azure sample_app_rules)"
  by (rule app_rules_are_custom [OF sample_env_law exec_run_of [OF sample_app_rules_return, unfolded sample_app_rules_def],
      folded sample_app_rules_def])

end
