(* ===== verification/Clients.thy ===== *)
theory Clients
  imports SampleRuns
begin

text \<open>
  \<^verbatim>\<open>common/azure_clients.py\<close> and \<^verbatim>\<open>common/singletons.py\<close>: the manager of the clients of a
  subscription, of which the last one is kept, and its clients, which are made when they are first
  used. \<^verbatim>\<open>domain/context/azure_resource_model.py\<close> and the models of the cloud provider.
\<close>

section \<open>The cloud provider\<close>

text \<open>
  \<^verbatim>\<open>models/azure_cloud_provider_resource_model.py\<close>: the fields the operations read
  (\<^typ>\<open>cloud_provider\<close>) and those that identify the subscription.
\<close>

record azure_provider = cloud_provider +
  ap_azure_application_id :: string
  ap_azure_application_key :: string
  ap_azure_subscription_id :: string
  ap_azure_tenant :: string
  ap_networks_in_use :: "string list"

definition credentials_of_provider :: "azure_provider \<Rightarrow> clients_manager" where
  "credentials_of_provider cp =
     \<lparr>cm_subscription_id = ap_azure_subscription_id cp, cm_application_id = ap_azure_application_id cp,
      cm_application_key = ap_azure_application_key cp, cm_tenant = ap_azure_tenant cp\<rparr>"

section \<open>AzureClientsManager\<close>

definition check_params_equality :: "clients_manager \<Rightarrow> azure_provider \<Rightarrow> bool" where
  "check_params_equality self cp \<longleftrightarrow> list_all id
     [ap_azure_subscription_id cp = cm_subscription_id self,
      ap_azure_application_id cp = cm_application_id self,
      ap_azure_application_key cp = cm_application_key self,
      ap_azure_tenant cp = cm_tenant self]"

text \<open>The constructor: it signs in, and has no clients yet.\<close>

definition new_clients_manager :: "azure_provider \<Rightarrow> clients_manager prog" where
  "new_clients_manager cp =
     (let self = credentials_of_provider cp in
      thn (call (Runtime (Authenticate (cm_application_id self) (cm_application_key self) (cm_tenant self))))
        (Return self))"

fun as_clients_opt :: "resp \<Rightarrow> clients_manager option option" where
  "as_clients_opt (RClients m) = Some (Some m)"
| "as_clients_opt RNone = Some None"
| "as_clients_opt r = None"

text \<open>\<^verbatim>\<open>SingletonByArgsMeta.__call__\<close> for the manager, which is the only class that uses it.\<close>

definition singleton_call :: "azure_provider \<Rightarrow> clients_manager prog" where
  "singleton_call cp = with_lock InstancesLock
     (bnd (bnd (call (Memory FindInstance)) (expect as_clients_opt)) (\<lambda>instnc.
      case instnc of
        Some m \<Rightarrow>
          if check_params_equality m cp then Return m
          else bnd (new_clients_manager cp) (\<lambda>m. thn (call (Memory (PutInstance m))) (Return m))
      | None \<Rightarrow> bnd (new_clients_manager cp) (\<lambda>m. thn (call (Memory (PutInstance m))) (Return m))))"

text \<open>
  The properties \<^verbatim>\<open>compute_client\<close>, \<^verbatim>\<open>network_client\<close>, \<^verbatim>\<open>storage_client\<close>, \<^verbatim>\<open>resource_client\<close> and
  \<^verbatim>\<open>subscription_client\<close> differ in the kind; a client is given by a number.
\<close>

fun as_client_opt :: "resp \<Rightarrow> int option option" where
  "as_client_opt (RInt c) = Some (Some c)"
| "as_client_opt RNone = Some None"
| "as_client_opt r = None"

definition find_client :: "clients_manager \<Rightarrow> client_kind \<Rightarrow> int option prog" where
  "find_client self kind = bnd (call (Memory (FindClient self kind))) (expect as_client_opt)"

definition client_property :: "client_kind \<Rightarrow> clients_manager \<Rightarrow> int option prog" where
  "client_property kind self =
     thn (bnd (find_client self kind) (\<lambda>c. only_if (c = None)
       (with_lock InstancesLock
         (bnd (find_client self kind) (\<lambda>c. only_if (c = None)
           (bnd (bnd (call (Runtime (NewClient kind self))) (expect as_int)) (\<lambda>c.
             thn (call (Memory (PutClient self kind c))) (Return ()))))))))
     (find_client self kind)"

section \<open>The manager that is used belongs to the cloud provider\<close>

lemma check_params: "check_params_equality m cp \<longleftrightarrow> m = credentials_of_provider cp"
  by (cases m) (auto simp: check_params_equality_def credentials_of_provider_def)

lemma yields_singleton_call: "yields (\<lambda>m. m = credentials_of_provider cp) (singleton_call cp)"
proof -
  have made: "yields (\<lambda>m. m = credentials_of_provider cp)
      (bnd (new_clients_manager cp) (\<lambda>m. thn (call (Memory (PutInstance m))) (Return m)))"
    by (rule yields_bnd [where R = "\<lambda>m. m = credentials_of_provider cp"])
      (auto simp: new_clients_manager_def Let_def yields_simps intro!: yields_bnd [OF yields_any])
  have body: "yields (\<lambda>m. m = credentials_of_provider cp)
     (bnd (bnd (call (Memory FindInstance)) (expect as_clients_opt)) (\<lambda>instnc.
      case instnc of
        Some m \<Rightarrow>
          if check_params_equality m cp then Return m
          else bnd (new_clients_manager cp) (\<lambda>m. thn (call (Memory (PutInstance m))) (Return m))
      | None \<Rightarrow> bnd (new_clients_manager cp) (\<lambda>m. thn (call (Memory (PutInstance m))) (Return m))))"
    by (rule yields_bnd [OF yields_any]) (auto simp: yields_simps check_params intro: made split: option.split)
  show ?thesis
    unfolding singleton_call_def yields_def
    by (auto elim!: exec_with_lockE dest: yieldsD [OF body])
qed

end
