(* ===== verification/Threads.thy ===== *)
theory Threads
  imports Monitor
begin

text \<open>
  Several commands at once: threads whose calls are interleaved in any order over one memory, with
  its locks, its dictionaries and the clients that are kept. Calls that leave the process may be
  answered in any way.
\<close>

section \<open>The memory\<close>

record memory =
  mem_held :: "lock set"
  mem_next :: nat
  mem_dict :: "shared_dict \<times> string list \<rightharpoonup> resp"
  mem_copied :: "string list \<rightharpoonup> copy_state \<times> string option"
  mem_instance :: "clients_manager option"
  mem_clients :: "clients_manager \<times> client_kind \<rightharpoonup> int"

definition empty_memory :: memory where
  "empty_memory = \<lparr>mem_held = {}, mem_next = 0, mem_dict = Map.empty, mem_copied = Map.empty,
     mem_instance = None, mem_clients = Map.empty\<rparr>"

definition put_entry :: "shared_dict \<Rightarrow> string list \<Rightarrow> resp \<Rightarrow> memory \<Rightarrow> memory" where
  "put_entry d k v s = s\<lparr>mem_dict := (mem_dict s)((d, k) \<mapsto> v)\<rparr>"

text \<open>The copied blobs are a dictionary of objects whose fields are read and written one by one.\<close>

definition has_entry :: "memory \<Rightarrow> shared_dict \<Rightarrow> string list \<Rightarrow> bool" where
  "has_entry s d k \<longleftrightarrow> (if d = CachedCopiedBlobUrls then mem_copied s k \<noteq> None else mem_dict s (d, k) \<noteq> None)"

definition find_entry :: "memory \<Rightarrow> shared_dict \<Rightarrow> string list \<Rightarrow> resp" where
  "find_entry s d k = (if d = CachedCopiedBlobUrls
     then (case mem_copied s k of Some (c, r) \<Rightarrow> RCopied c | None \<Rightarrow> RNone)
     else (case mem_dict s (d, k) of Some v \<Rightarrow> v | None \<Rightarrow> RNone))"

definition update_copied :: "string list \<Rightarrow> (copy_state \<times> string option \<Rightarrow> copy_state \<times> string option) \<Rightarrow> memory \<Rightarrow> memory" where
  "update_copied k f s = s\<lparr>mem_copied := (mem_copied s)(k := map_option f (mem_copied s k))\<rparr>"

definition missing_key :: "string list \<Rightarrow> exn" where
  "missing_key k = KeyError (py_join '', '' k)"

text \<open>One access; \<open>None\<close> when the thread has to wait for a lock.\<close>

fun mem_step :: "memory \<Rightarrow> memory_request \<Rightarrow> (memory \<times> answer) option" where
  "mem_step s (Acquire l) = (if l \<in> mem_held s then None else Some (s\<lparr>mem_held := insert l (mem_held s)\<rparr>, Inr RNone))"
| "mem_step s (Release l) = Some (s\<lparr>mem_held := mem_held s - {l}\<rparr>, Inr RNone)"
| "mem_step s NewLock = Some (s\<lparr>mem_next := Suc (mem_next s)\<rparr>, Inr (RLock (ResourceLock (mem_next s))))"
| "mem_step s (DictHas d k) = Some (s, Inr (RBool (has_entry s d k)))"
| "mem_step s (DictGet d k) = Some (s, case mem_dict s (d, k) of Some v \<Rightarrow> Inr v | None \<Rightarrow> Inl (missing_key k))"
| "mem_step s (DictFind d k) = Some (s, Inr (find_entry s d k))"
| "mem_step s (DictPutStr d k v) = Some (put_entry d k (RStr v) s, Inr RNone)"
| "mem_step s (DictPutLock d k v) = Some (put_entry d k (RLock v) s, Inr RNone)"
| "mem_step s (DictPutKeys d k v) = Some (put_entry d k (RSshKey v) s, Inr RNone)"
| "mem_step s (DictDel d k) = (if mem_dict s (d, k) = None then Some (s, Inl (missing_key k))
     else Some (s\<lparr>mem_dict := (mem_dict s)((d, k) := None)\<rparr>, Inr RNone))"
| "mem_step s (CopiedPut k c) = Some (s\<lparr>mem_copied := (mem_copied s)(k \<mapsto> (c, None))\<rparr>, Inr RNone)"
| "mem_step s (CopiedState k) = Some (s, case mem_copied s k of Some (c, r) \<Rightarrow> Inr (RCopied c) | None \<Rightarrow> Inl (missing_key k))"
| "mem_step s (CopiedSetState k c) = Some (update_copied k (\<lambda>(_, r). (c, r)) s, Inr RNone)"
| "mem_step s (CopiedResult k) = Some (s, case mem_copied s k of Some (c, Some r) \<Rightarrow> Inr (RStr r) | _ \<Rightarrow> Inr RNone)"
| "mem_step s (CopiedSetResult k r) = Some (update_copied k (\<lambda>(c, _). (c, Some r)) s, Inr RNone)"
| "mem_step s FindInstance = Some (s, Inr (case mem_instance s of Some m \<Rightarrow> RClients m | None \<Rightarrow> RNone))"
| "mem_step s (PutInstance m) = Some (s\<lparr>mem_instance := Some m\<rparr>, Inr RNone)"
| "mem_step s (FindClient m c) = Some (s, Inr (case mem_clients s (m, c) of Some i \<Rightarrow> RInt i | None \<Rightarrow> RNone))"
| "mem_step s (PutClient m c i) = Some (s\<lparr>mem_clients := (mem_clients s)((m, c) \<mapsto> i)\<rparr>, Inr RNone)"

section \<open>Interleaving\<close>

text \<open>One call of one of the threads.\<close>

inductive thread_step :: "memory \<times> 'a prog list \<Rightarrow> memory \<times> 'a prog list \<Rightarrow> bool" where
  memory_call: "i < length ps \<Longrightarrow> ps ! i = Call (Memory m) f \<Longrightarrow> mem_step s m = Some (s', v) \<Longrightarrow>
     thread_step (s, ps) (s', ps[i := f v])"
| outside_call: "i < length ps \<Longrightarrow> ps ! i = Call q f \<Longrightarrow> (\<And>m. q \<noteq> Memory m) \<Longrightarrow>
     thread_step (s, ps) (s, ps[i := f v])"

inductive_cases thread_stepE: "thread_step (s, ps) c"

inductive reachable :: "memory \<times> 'a prog list \<Rightarrow> memory \<times> 'a prog list \<Rightarrow> bool" where
  start: "reachable c c"
| step: "reachable c d \<Longrightarrow> thread_step d e \<Longrightarrow> reachable c e"

lemma reachable_invariant:
  assumes "reachable c d" "I c" "\<And>d e. I d \<Longrightarrow> thread_step d e \<Longrightarrow> I e"
  shows "I d"
  using assms by (induction rule: reachable.induct) auto

lemma length_threads: "reachable (s, ps) (s', ps') \<Longrightarrow> length ps' = length ps"
  by (induction "(s, ps)" "(s', ps')" arbitrary: s' ps' rule: reachable.induct)
    (auto elim!: thread_step.cases)

text \<open>The call a thread is about to make, and what it does after an answer.\<close>

fun asks :: "'a prog \<Rightarrow> request option" where
  "asks (Call q f) = Some q" | "asks p = None"

fun feed :: "'a prog \<Rightarrow> answer \<Rightarrow> 'a prog" where
  "feed (Call q f) v = f v" | "feed p v = p"

section \<open>Schedules\<close>

text \<open>The threads that are given by their numbers make their next access, one after the other.\<close>

fun run_schedule :: "nat list \<Rightarrow> memory \<times> 'a prog list \<Rightarrow> (memory \<times> 'a prog list) option" where
  "run_schedule [] c = Some c"
| "run_schedule (i # is) (s, ps) =
     (if i < length ps then
        (case ps ! i of
           Call q f \<Rightarrow> (case q of
             Memory m \<Rightarrow> (case mem_step s m of
               Some (s', v) \<Rightarrow> run_schedule is (s', ps[i := f v]) | None \<Rightarrow> None)
           | _ \<Rightarrow> None)
         | _ \<Rightarrow> None)
      else None)"

lemma reachable_trans: "reachable d e \<Longrightarrow> reachable c d \<Longrightarrow> reachable c e"
  by (induction rule: reachable.induct) (auto intro: reachable.intros)

lemma run_schedule_reachable: "run_schedule is c = Some d \<Longrightarrow> reachable c d"
proof (induction "is" c rule: run_schedule.induct)
  case (2 i "is" s ps)
  then obtain m f s' v where i: "i < length ps" "ps ! i = Call (Memory m) f" "mem_step s m = Some (s', v)"
      and run: "run_schedule is (s', ps[i := f v]) = Some d"
    by (auto split: if_splits prog.splits request.splits option.splits)
  have "reachable (s', ps[i := f v]) d" using 2(1) [OF i(1,2) refl i(3) refl run] .
  moreover have "reachable (s, ps) (s', ps[i := f v])"
    using i by (intro step [OF start] memory_call)
  ultimately show ?case by (rule reachable_trans)
qed (simp add: start)

fun returned :: "'a prog \<Rightarrow> 'a option" where
  "returned (Return x) = Some x" | "returned p = None"

fun raised :: "'a prog \<Rightarrow> exn option" where
  "raised (Raise e) = Some e" | "raised p = None"

lemma returned_Some: "returned p = Some x \<longleftrightarrow> p = Return x"
  by (cases p) auto

lemma raised_Some: "raised p = Some e \<longleftrightarrow> p = Raise e"
  by (cases p) auto

end
