(* ===== verification/LockRaces.thy ===== *)
theory LockRaces
  imports Threads LockService
begin

text \<open>
  \<^verbatim>\<open>domain/services/lock_service.py\<close> used by several threads at once: threads that ask for the
  locks of keys, in any interleaving, get one lock object per key; a thread that removes a key at
  the same time can make another one fail.
\<close>

section \<open>Where a thread that asks for a lock can be\<close>

datatype place = Look | Enter | LookAgain | Allocate | Insert lock | Leave | Read | Finished lock

fun answers_at :: "place \<Rightarrow> answer list" where
  "answers_at Look = []"
| "answers_at Enter = [Inr (RBool False)]"
| "answers_at LookAgain = [Inr (RBool False), Inr RNone]"
| "answers_at Allocate = [Inr (RBool False), Inr RNone, Inr (RBool False)]"
| "answers_at (Insert l) = [Inr (RBool False), Inr RNone, Inr (RBool False), Inr (RLock l)]"
| "answers_at Leave = [Inr (RBool False), Inr RNone, Inr (RBool True)]"
| "answers_at Read = [Inr (RBool True)]"
| "answers_at (Finished l) = [Inr (RBool True), Inr (RLock l)]"

definition code_at :: "string \<Rightarrow> place \<Rightarrow> lock prog" where
  "code_at k p = foldl feed (get_resource_lock k) (answers_at p)"

lemmas code_defs = code_at_def get_resource_lock_def has_lock_resource_def allocate_lock_def
  with_lock_def ensuring_def signal_def call_def only_if_def expect_def

lemma code_asks:
  "asks (code_at k Look) = Some (Memory (DictHas LockDictionary [k]))"
  "asks (code_at k Enter) = Some (Memory (Acquire ProviderLock))"
  "asks (code_at k LookAgain) = Some (Memory (DictHas LockDictionary [k]))"
  "asks (code_at k Allocate) = Some (Memory NewLock)"
  "asks (code_at k (Insert l)) = Some (Memory (DictPutLock LockDictionary [k] l))"
  "asks (code_at k Leave) = Some (Memory (Release ProviderLock))"
  "asks (code_at k Read) = Some (Memory (DictGet LockDictionary [k]))"
  "asks (code_at k (Finished l)) = None"
  by (simp_all add: code_defs)

lemma code_goes_on:
  "feed (code_at k Look) (Inr (RBool b)) = code_at k (if b then Read else Enter)"
  "feed (code_at k Enter) (Inr RNone) = code_at k LookAgain"
  "feed (code_at k LookAgain) (Inr (RBool b)) = code_at k (if b then Leave else Allocate)"
  "feed (code_at k Allocate) (Inr (RLock l)) = code_at k (Insert l)"
  "feed (code_at k (Insert l)) (Inr RNone) = code_at k Leave"
  "feed (code_at k Leave) (Inr RNone) = code_at k Read"
  "feed (code_at k Read) (Inr (RLock l)) = code_at k (Finished l)"
  "code_at k (Finished l) = Return l"
  by (simp_all add: code_defs)

section \<open>One lock per key\<close>

text \<open>The entries of the dictionary are locks that were made, a different one for each key.\<close>

definition locks_ok :: "memory \<Rightarrow> bool" where
  "locks_ok s \<longleftrightarrow> (\<forall>k v. mem_dict s (LockDictionary, k) = Some v \<longrightarrow> (\<exists>n < mem_next s. v = RLock (ResourceLock n))) \<and>
     (\<forall>k k' v. mem_dict s (LockDictionary, k) = Some v \<longrightarrow> mem_dict s (LockDictionary, k') = Some v \<longrightarrow> k = k')"

definition entry :: "memory \<Rightarrow> string \<Rightarrow> resp option" where
  "entry s k = mem_dict s (LockDictionary, [k])"

fun inside :: "place \<Rightarrow> bool" where
  "inside LookAgain = True" | "inside Allocate = True" | "inside (Insert l) = True" | "inside Leave = True"
| "inside p = False"

fun place_ok :: "memory \<Rightarrow> string \<Rightarrow> place \<Rightarrow> bool" where
  "place_ok s k Allocate \<longleftrightarrow> entry s k = None"
| "place_ok s k (Insert l) \<longleftrightarrow> entry s k = None \<and> (\<exists>n < mem_next s. l = ResourceLock n) \<and>
     (\<forall>k'. mem_dict s (LockDictionary, k') \<noteq> Some (RLock l))"
| "place_ok s k Leave \<longleftrightarrow> entry s k \<noteq> None"
| "place_ok s k Read \<longleftrightarrow> entry s k \<noteq> None"
| "place_ok s k (Finished l) \<longleftrightarrow> entry s k = Some (RLock l)"
| "place_ok s k p \<longleftrightarrow> True"

definition threads_ok :: "string list \<Rightarrow> memory \<Rightarrow> place list \<Rightarrow> bool" where
  "threads_ok ks s pl \<longleftrightarrow> locks_ok s \<and> length pl = length ks \<and> (\<forall>i < length ks. place_ok s (ks ! i) (pl ! i)) \<and>
     (ProviderLock \<in> mem_held s \<longleftrightarrow> (\<exists>i < length ks. inside (pl ! i))) \<and>
     (\<forall>i < length ks. \<forall>j < length ks. inside (pl ! i) \<longrightarrow> inside (pl ! j) \<longrightarrow> i = j)"

text \<open>The moves of a thread between the places.\<close>

inductive moves :: "string \<Rightarrow> memory \<Rightarrow> place \<Rightarrow> memory \<Rightarrow> place \<Rightarrow> bool" where
  look: "moves k s Look s (if entry s k \<noteq> None then Read else Enter)"
| enter: "ProviderLock \<notin> mem_held s \<Longrightarrow> moves k s Enter (s\<lparr>mem_held := insert ProviderLock (mem_held s)\<rparr>) LookAgain"
| look_again: "moves k s LookAgain s (if entry s k \<noteq> None then Leave else Allocate)"
| allocate: "moves k s Allocate (s\<lparr>mem_next := Suc (mem_next s)\<rparr>) (Insert (ResourceLock (mem_next s)))"
| insert: "moves k s (Insert l) (put_entry LockDictionary [k] (RLock l) s) Leave"
| leave: "moves k s Leave (s\<lparr>mem_held := mem_held s - {ProviderLock}\<rparr>) Read"
| read: "entry s k = Some (RLock l) \<Longrightarrow> moves k s Read s (Finished l)"

lemma entry_updates [simp]:
  "entry (s\<lparr>mem_held := h\<rparr>) k = entry s k" "entry (s\<lparr>mem_next := n\<rparr>) k = entry s k"
  by (simp_all add: entry_def)

lemma locks_ok_updates [simp]:
  "locks_ok (s\<lparr>mem_held := h\<rparr>) = locks_ok s" "locks_ok s \<Longrightarrow> locks_ok (s\<lparr>mem_next := Suc (mem_next s)\<rparr>)"
  unfolding locks_ok_def by (simp, simp) (metis less_Suc_eq)

lemma entry_put: "entry (put_entry LockDictionary [k] v s) k' = (if k' = k then Some v else entry s k')"
  by (auto simp: entry_def put_entry_def)

lemma place_ok_held [simp]: "place_ok (s\<lparr>mem_held := h\<rparr>) k p = place_ok s k p"
  by (cases "(s, k, p)" rule: place_ok.cases) auto

lemma place_ok_next: "place_ok s k p \<Longrightarrow> place_ok (s\<lparr>mem_next := Suc (mem_next s)\<rparr>) k p"
  by (cases "(s, k, p)" rule: place_ok.cases) auto

text \<open>A new entry disturbs only the threads that are inside.\<close>

lemma place_ok_put:
  assumes "place_ok s k p" "\<not> inside p" "entry s k' = None"
  shows "place_ok (put_entry LockDictionary [k'] v s) k p"
  using assms by (cases "(s, k, p)" rule: place_ok.cases) (auto simp: entry_put)

lemma locks_ok_put:
  assumes "locks_ok s" "place_ok s k (Insert l)"
  shows "locks_ok (put_entry LockDictionary [k] (RLock l) s)"
  using assms unfolding locks_ok_def put_entry_def by (auto split: if_splits)

lemma locks_ok_made: "locks_ok s \<Longrightarrow> mem_dict s (LockDictionary, k) = Some v \<Longrightarrow> \<exists>n < mem_next s. v = RLock (ResourceLock n)"
  by (auto simp: locks_ok_def)

lemma moves_self:
  assumes "moves k s p s' p'" "place_ok s k p" "locks_ok s"
  shows "place_ok s' k p'" "locks_ok s'"
proof -
  have new: "mem_dict s (LockDictionary, k') \<noteq> Some (RLock (ResourceLock (mem_next s)))" for k'
    using locks_ok_made [OF assms(3), of k'] by auto
  show "place_ok s' k p'" using assms(1,2)
    by cases (auto simp: entry_put new)
  show "locks_ok s'" using assms
    by cases (simp_all add: locks_ok_put)
qed

lemma moves_others:
  assumes "moves k s p s' p'" "place_ok s k p" "place_ok s k2 q" "inside p \<Longrightarrow> \<not> inside q"
  shows "place_ok s' k2 q"
  using assms(1)
proof cases
  case (insert l)
  with assms(2-4) show ?thesis by (simp add: place_ok_put)
qed (use assms(3) in \<open>simp_all add: place_ok_next\<close>)

lemma moves_held:
  assumes "moves k s p s' p'"
  obtains (stays) "inside p' \<longleftrightarrow> inside p" "mem_held s' = mem_held s"
  | (enters) "\<not> inside p" "inside p'" "ProviderLock \<notin> mem_held s" "mem_held s' = insert ProviderLock (mem_held s)"
  | (leaves) "inside p" "\<not> inside p'" "mem_held s' = mem_held s - {ProviderLock}"
  using assms by cases (simp_all add: put_entry_def split: if_splits)

lemma moves_ok:
  assumes "threads_ok ks s pl" "i < length ks" "moves (ks ! i) s (pl ! i) s' p"
  shows "threads_ok ks s' (pl[i := p])"
proof -
  from assms(1) have locks: "locks_ok s" and len: "length pl = length ks"
    and places: "\<And>j. j < length ks \<Longrightarrow> place_ok s (ks ! j) (pl ! j)"
    and held: "ProviderLock \<in> mem_held s \<longleftrightarrow> (\<exists>j < length ks. inside (pl ! j))"
    and one: "\<And>j j'. j < length ks \<Longrightarrow> j' < length ks \<Longrightarrow> inside (pl ! j) \<Longrightarrow> inside (pl ! j') \<Longrightarrow> j = j'"
    by (simp_all add: threads_ok_def)
  have others: "place_ok s' (ks ! j) (pl ! j)" if "j < length ks" "j \<noteq> i" for j
    using moves_others [OF assms(3) places [OF assms(2)] places [OF that(1)]] one [OF that(1) assms(2)] that by blast
  have place: "place_ok s' (ks ! j) (pl[i := p] ! j)" if "j < length ks" for j
    using moves_self(1) [OF assms(3) places [OF assms(2)] locks] others [OF that] assms(2) len
    by (cases "j = i") (simp_all add: nth_list_update)
  have inside_new: "inside (pl[i := p] ! j) \<longleftrightarrow> (if j = i then inside p else inside (pl ! j))" if "j < length ks" for j
    using assms(2) len by (simp add: nth_list_update)
  from assms(3) have "(ProviderLock \<in> mem_held s' \<longleftrightarrow> (\<exists>j < length ks. inside (pl[i := p] ! j))) \<and>
    (\<forall>j < length ks. \<forall>j' < length ks. inside (pl[i := p] ! j) \<longrightarrow> inside (pl[i := p] ! j') \<longrightarrow> j = j')"
  proof (cases rule: moves_held)
    case stays
    then have "inside (pl[i := p] ! j) \<longleftrightarrow> inside (pl ! j)" if "j < length ks" for j
      using inside_new [OF that] by auto
    with held one stays show ?thesis by auto
  next
    case enters
    with held have "\<not> inside (pl ! j)" if "j < length ks" for j using that by auto
    with inside_new enters assms(2) show ?thesis by auto
  next
    case leaves
    with one assms(2) have "\<not> inside (pl ! j)" if "j < length ks" "j \<noteq> i" for j using that by blast
    with inside_new leaves show ?thesis by auto
  qed
  with place moves_self(2) [OF assms(3) places [OF assms(2)] locks] len show ?thesis
    by (simp add: threads_ok_def)
qed

text \<open>What the call of a thread does is the move of its place.\<close>

lemma call_moves:
  assumes "code_at k p = Call q f" "place_ok s k p" "locks_ok s"
  obtains m where "q = Memory m"
    "\<And>s' v. mem_step s m = Some (s', v) \<Longrightarrow> \<exists>p'. moves k s p s' p' \<and> f v = code_at k p'"
proof -
  have asks: "asks (code_at k p) = Some q" and feed: "f v = feed (code_at k p) v" for v
    using assms(1) by simp_all
  have has: "has_entry s LockDictionary [k] \<longleftrightarrow> entry s k \<noteq> None" by (simp add: has_entry_def entry_def)
  show thesis
  proof (cases p)
    case Read
    with assms(2) obtain v where v: "entry s k = Some v" by auto
    with locks_ok_made [OF assms(3), of "[k]"] obtain l where "v = RLock l" by (auto simp: entry_def)
    with v Read asks show thesis
      by (intro that [of "DictGet LockDictionary [k]"])
        (auto simp: code_asks feed code_goes_on entry_def intro!: exI [of _ "Finished l"] moves.intros)
  qed (use asks in \<open>auto simp: code_asks feed code_goes_on has intro!: that moves.intros exI split: if_splits\<close>)
qed

lemma locks_ok_inj: "locks_ok s \<Longrightarrow> mem_dict s (LockDictionary, k) = Some v \<Longrightarrow>
    mem_dict s (LockDictionary, k') = Some v \<Longrightarrow> k = k'"
  by (auto simp: locks_ok_def)

definition lock_threads :: "string list \<Rightarrow> place list \<Rightarrow> lock prog list" where
  "lock_threads ks pl = map2 code_at ks pl"

lemma lock_threads_nth: "length pl = length ks \<Longrightarrow> i < length ks \<Longrightarrow> lock_threads ks pl ! i = code_at (ks ! i) (pl ! i)"
  by (simp add: lock_threads_def)

lemma lock_threads_update:
  "length pl = length ks \<Longrightarrow> i < length ks \<Longrightarrow> lock_threads ks (pl[i := p]) = (lock_threads ks pl)[i := code_at (ks ! i) p]"
  by (rule nth_equalityI) (auto simp: lock_threads_def nth_list_update)

lemma threads_ok_step:
  assumes "threads_ok ks s pl" "thread_step (s, lock_threads ks pl) (s', ps')"
  shows "\<exists>pl'. threads_ok ks s' pl' \<and> ps' = lock_threads ks pl'"
proof -
  from assms(1) have len: "length pl = length ks" and locks: "locks_ok s"
      and places: "\<And>j. j < length ks \<Longrightarrow> place_ok s (ks ! j) (pl ! j)"
    by (simp_all add: threads_ok_def)
  obtain i q f v where i: "i < length ks" "lock_threads ks pl ! i = Call q f" "ps' = (lock_threads ks pl)[i := f v]"
      and memory: "\<And>m. q = Memory m \<Longrightarrow> mem_step s m = Some (s', v)"
    using assms(2)
  proof (cases rule: thread_step.cases)
    case (memory_call i m f v)
    with that [of i "Memory m" f v] len show thesis by (simp add: lock_threads_def)
  next
    case (outside_call i q f v)
    with that [of i q f v] len show thesis by (simp add: lock_threads_def)
  qed
  from i len have code: "code_at (ks ! i) (pl ! i) = Call q f" by (simp add: lock_threads_nth)
  obtain p' where "moves (ks ! i) s (pl ! i) s' p'" "f v = code_at (ks ! i) p'"
    by (rule call_moves [OF code places [OF i(1)] locks]) (use memory that in blast)
  then have "threads_ok ks s' (pl[i := p'])" "ps' = lock_threads ks (pl[i := p'])"
    using moves_ok [OF assms(1) i(1)] by (simp_all add: lock_threads_update [OF len i(1)] i(3))
  then show ?thesis by blast
qed

lemma threads_ok_reachable:
  assumes "reachable (s0, map get_resource_lock ks) (s, ps)" "locks_ok s0" "ProviderLock \<notin> mem_held s0"
  shows "\<exists>pl. threads_ok ks s pl \<and> ps = lock_threads ks pl"
proof -
  have "get_resource_lock k = code_at k Look" for k by (simp add: code_at_def)
  then have "map get_resource_lock ks = lock_threads ks (map (\<lambda>_. Look) ks)"
    by (intro nth_equalityI) (simp_all add: lock_threads_nth, simp add: lock_threads_def)
  moreover have "threads_ok ks s0 (map (\<lambda>_. Look) ks)"
    using assms(2,3) by (simp add: threads_ok_def)
  ultimately have start: "case (s0, map get_resource_lock ks) of (s, ps) \<Rightarrow> \<exists>pl. threads_ok ks s pl \<and> ps = lock_threads ks pl"
    by auto
  have "case (s, ps) of (s, ps) \<Rightarrow> \<exists>pl. threads_ok ks s pl \<and> ps = lock_threads ks pl"
  proof (rule reachable_invariant [where I = "\<lambda>(s, ps). \<exists>pl. threads_ok ks s pl \<and> ps = lock_threads ks pl",
      OF assms(1) start])
    fix d e
    assume "case d of (s, ps) \<Rightarrow> \<exists>pl. threads_ok ks s pl \<and> ps = lock_threads ks pl" and "thread_step d e"
    then show "case e of (s, ps) \<Rightarrow> \<exists>pl. threads_ok ks s pl \<and> ps = lock_threads ks pl"
      using threads_ok_step by (cases d; cases e) blast
  qed
  then show ?thesis by simp
qed

text \<open>Some thread can go on unless all have finished.\<close>

lemma threads_ok_progress:
  assumes "threads_ok ks s pl" "i < length ks" "\<forall>l. pl ! i \<noteq> Finished l"
  shows "\<exists>c. thread_step (s, lock_threads ks pl) c"
proof -
  from assms(1) have len: "length pl = length ks" by (simp add: threads_ok_def)
  have step: "\<exists>c. thread_step (s, lock_threads ks pl) c"
    if "j < length ks" "asks (code_at (ks ! j) (pl ! j)) = Some (Memory m)" "mem_step s m \<noteq> None" for j m
  proof -
    from that(2) obtain f where "code_at (ks ! j) (pl ! j) = Call (Memory m) f"
      by (cases "code_at (ks ! j) (pl ! j)") auto
    moreover from that(3) obtain s' v where "mem_step s m = Some (s', v)" by auto
    moreover have "j < length (lock_threads ks pl)" using that(1) len by (simp add: lock_threads_def)
    ultimately show ?thesis
      using thread_step.memory_call [of j "lock_threads ks pl" m f s s' v] that(1) len
      by (auto simp: lock_threads_nth)
  qed
  show ?thesis
  proof (cases "pl ! i = Enter \<and> ProviderLock \<in> mem_held s")
    case True
    with assms(1) obtain j where j: "j < length ks" "inside (pl ! j)" by (auto simp: threads_ok_def)
    then show ?thesis
      by (cases "pl ! j") (use step [OF j(1)] in \<open>simp_all add: code_asks\<close>)
  next
    case False
    with assms(3) show ?thesis
      by (cases "pl ! i") (use step [OF assms(2)] in \<open>simp_all add: code_asks\<close>)
  qed
qed

text \<open>
  C9: Threads that ask the provider for the locks of keys, at the same time and interleaved in any
  way, never fail; those that have finished got the same lock object if and only if they asked for
  the same key; and as long as one has not finished, some thread can go on.
\<close>

theorem one_lock_per_key:
  assumes "reachable (s0, map get_resource_lock ks) (s, ps)" "locks_ok s0" "ProviderLock \<notin> mem_held s0"
  shows "(\<forall>i < length ks. \<forall>e. ps ! i \<noteq> Raise e) \<and>
    (\<forall>i < length ks. \<forall>j < length ks. \<forall>l l'. ps ! i = Return l \<longrightarrow> ps ! j = Return l' \<longrightarrow> (l = l' \<longleftrightarrow> ks ! i = ks ! j)) \<and>
    ((\<forall>i < length ks. \<exists>l. ps ! i = Return l) \<or> (\<exists>c. thread_step (s, ps) c))"
proof -
  from threads_ok_reachable [OF assms] obtain pl where ok: "threads_ok ks s pl" and ps: "ps = lock_threads ks pl" by blast
  then have len: "length pl = length ks" and locks: "locks_ok s"
      and places: "\<And>j. j < length ks \<Longrightarrow> place_ok s (ks ! j) (pl ! j)"
    by (simp_all add: threads_ok_def)
  have raise: "ps ! i \<noteq> Raise e" if "i < length ks" for i e
    using that len by (cases "pl ! i") (auto simp: ps lock_threads_nth code_goes_on(8) dest: arg_cong [of _ _ asks] simp: code_asks)
  have return: "pl ! i = Finished l" if "i < length ks" "ps ! i = Return l" for i l
    using that len by (cases "pl ! i") (auto simp: ps lock_threads_nth code_goes_on(8) dest!: arg_cong [of _ _ asks] simp: code_asks)
  have same: "l = l' \<longleftrightarrow> ks ! i = ks ! j" if "i < length ks" "j < length ks" "ps ! i = Return l" "ps ! j = Return l'" for i j l l'
    using places [OF that(1)] places [OF that(2)] return [OF that(1,3)] return [OF that(2,4)]
      locks_ok_inj [OF locks, of "[ks ! i]" _ "[ks ! j]"] by (auto simp: entry_def)
  have all_done: "(\<forall>i < length ks. \<exists>l. ps ! i = Return l) \<or> (\<exists>c. thread_step (s, ps) c)"
  proof (rule ccontr)
    assume stuck: "\<not> ?thesis"
    then obtain i where i: "i < length ks" "\<forall>l. ps ! i \<noteq> Return l" by auto
    then have "\<forall>l. pl ! i \<noteq> Finished l" using len by (auto simp: ps lock_threads_nth code_goes_on(8))
    from threads_ok_progress [OF ok i(1) this] stuck ps show False by blast
  qed
  from raise same all_done show ?thesis by blast
qed

definition sample_schedule :: "nat list" where
  "sample_schedule = [0, 1, 0, 0, 0, 0, 0, 1, 1, 1, 0, 1, 2, 2, 2, 2, 2, 2, 2]"

definition sample_keys :: "string list" where
  "sample_keys = [''a'', ''a'', ''b'']"

lemma sample_schedule_run:
  "map_option (\<lambda>(s, ps). map returned ps) (run_schedule sample_schedule (empty_memory, map get_resource_lock sample_keys)) =
     Some [Some (ResourceLock 0), Some (ResourceLock 0), Some (ResourceLock 1)]"
  by code_simp

theorem one_lock_per_key_witness:
  "\<exists>s ps. reachable (empty_memory, map get_resource_lock sample_keys) (s, ps) \<and>
    ps = [Return (ResourceLock 0), Return (ResourceLock 0), Return (ResourceLock 1)] \<and>
    (\<forall>i < length sample_keys. \<forall>e. ps ! i \<noteq> Raise e) \<and>
    (\<forall>i < length sample_keys. \<forall>j < length sample_keys. \<forall>l l'. ps ! i = Return l \<longrightarrow> ps ! j = Return l' \<longrightarrow>
       (l = l' \<longleftrightarrow> sample_keys ! i = sample_keys ! j)) \<and>
    ((\<forall>i < length sample_keys. \<exists>l. ps ! i = Return l) \<or> (\<exists>c. thread_step (s, ps) c))"
proof -
  from sample_schedule_run obtain s ps where
      run: "run_schedule sample_schedule (empty_memory, map get_resource_lock sample_keys) = Some (s, ps)"
      and ps: "map returned ps = [Some (ResourceLock 0), Some (ResourceLock 0), Some (ResourceLock 1)]"
    by auto
  note reached = run_schedule_reachable [OF run]
  have "locks_ok empty_memory" "ProviderLock \<notin> mem_held empty_memory"
    by (simp_all add: locks_ok_def empty_memory_def)
  moreover have "ps = [Return (ResourceLock 0), Return (ResourceLock 0), Return (ResourceLock 1)]"
    using ps by (auto simp: map_eq_Cons_conv returned_Some)
  ultimately show ?thesis using reached one_lock_per_key [OF reached] by blast
qed

section \<open>Removing a key at the same time\<close>

text \<open>
  The provider tests for the key and reads it in two steps; when another thread removes the key in
  between, the first one fails with a \<^verbatim>\<open>KeyError\<close>.
\<close>

definition get_while_removed :: "string \<Rightarrow> unit prog list" where
  "get_while_removed k = [thn (get_resource_lock k) (Return ()), remove_lock_resource k]"

lemma removal_makes_get_fail:
  "\<exists>s ps. reachable (put_entry LockDictionary [''a''] (RLock l) empty_memory, get_while_removed ''a'') (s, ps) \<and>
     ps = [Raise (missing_key [''a'']), Return ()]"
proof -
  have "map_option (\<lambda>(s, ps). map (\<lambda>p. (raised p, returned p)) ps) (run_schedule [0, 1, 1, 1, 1, 1, 0]
      (put_entry LockDictionary [''a''] (RLock l) empty_memory, get_while_removed ''a'')) =
    Some [(Some (missing_key [''a'']), None), (None, Some ())]"
    by (simp add: get_while_removed_def remove_lock_resource_def get_resource_lock_def has_lock_resource_def
      with_lock_def ensuring_def signal_def call_def only_if_def expect_def has_entry_def put_entry_def
      empty_memory_def)
  then obtain s ps where run: "run_schedule [0, 1, 1, 1, 1, 1, 0]
      (put_entry LockDictionary [''a''] (RLock l) empty_memory, get_while_removed ''a'') = Some (s, ps)"
      and ps: "map (\<lambda>p. (raised p, returned p)) ps = [(Some (missing_key [''a'']), None), (None, Some ())]"
    by (auto simp del: run_schedule.simps)
  from ps have "ps = [Raise (missing_key [''a'']), Return ()]"
    by (auto simp: map_eq_Cons_conv returned_Some raised_Some)
  with run_schedule_reachable [OF run] show ?thesis by blast
qed

end
