(* ===== verification/DataHolder.thy ===== *)
theory DataHolder
  imports AzureModel
begin

text \<open>
  \<^verbatim>\<open>common/deploy_data_holder.py\<close>: decoded JSON texts are turned into objects, dictionary by
  dictionary, so that the commands read the fields of a request as attributes.
\<close>

section \<open>Values\<close>

text \<open>
  What \<^verbatim>\<open>jsonpickle.decode\<close> gives, and the objects that are made of it. A dictionary and the
  attributes of an object are given by their entries; a float by the text of its literal.
\<close>

datatype pyval =
    PNone
  | PBool bool
  | PInt int
  | PFloat string
  | PStr string
  | PList "pyval list"
  | PDict "(string \<times> pyval) list"
  | PHolder "(string \<times> pyval) list"

fun py_type_name :: "pyval \<Rightarrow> string" where
  "py_type_name PNone = ''NoneType''"
| "py_type_name (PBool b) = ''bool''"
| "py_type_name (PInt i) = ''int''"
| "py_type_name (PFloat t) = ''float''"
| "py_type_name (PStr s) = ''unicode''"
| "py_type_name (PList vs) = ''list''"
| "py_type_name (PDict d) = ''dict''"
| "py_type_name (PHolder fs) = ''DeployDataHolder''"

definition no_attribute :: "pyval \<Rightarrow> string \<Rightarrow> exn" where
  "no_attribute v name =
     AttributeError (quoted (py_type_name v) @ '' object has no attribute '' @ quoted name)"

text \<open>
  Reading an attribute that was set from a request; the names that the code reads are none of the
  methods of the built-in types or of the class.
\<close>

definition get_attr :: "string \<Rightarrow> pyval \<Rightarrow> exn + pyval" where
  "get_attr name v = (case v of
     PHolder fs \<Rightarrow> (case map_of fs name of Some w \<Rightarrow> Inr w | None \<Rightarrow> Inl (no_attribute v name))
   | _ \<Rightarrow> Inl (no_attribute v name))"

text \<open>\<^verbatim>\<open>getattr(v, name, default)\<close>\<close>

definition get_attr_or :: "string \<Rightarrow> pyval \<Rightarrow> pyval \<Rightarrow> pyval" where
  "get_attr_or name d v = (case get_attr name v of Inr w \<Rightarrow> w | Inl e \<Rightarrow> d)"

section \<open>DeployDataHolder\<close>

text \<open>The attributes that are set so far, and the entries to come.\<close>

fun holder_init :: "(string \<times> pyval) list \<Rightarrow> (string \<times> pyval) list \<Rightarrow> (string \<times> pyval) list"
  and holder_create_obj_by_type :: "pyval \<Rightarrow> pyval"
where
  "holder_init attributes [] = attributes"
| "holder_init attributes ((a, b) # d) = holder_init (AList.update a
     (case b of
        PDict d' \<Rightarrow> PHolder (holder_init [] d')
      | PList items \<Rightarrow> PList (map holder_create_obj_by_type items)
      | _ \<Rightarrow> holder_create_obj_by_type b) attributes) d"
| "holder_create_obj_by_type (PDict d) = PHolder (holder_init [] d)"
| "holder_create_obj_by_type (PList vs) = PList (map holder_create_obj_by_type vs)"
| "holder_create_obj_by_type v = v"

text \<open>\<^verbatim>\<open>DeployDataHolder(d)\<close>: anything but a dictionary has no \<^verbatim>\<open>items\<close> to call.\<close>

definition data_holder :: "pyval \<Rightarrow> exn + pyval" where
  "data_holder d = (case d of
     PDict fs \<Rightarrow> Inr (PHolder (holder_init [] fs))
   | PHolder fs \<Rightarrow> (case map_of fs ''items'' of
       Some w \<Rightarrow> Inl (TypeError (quoted (py_type_name w) @ '' object is not callable''))
     | None \<Rightarrow> Inl (no_attribute d ''items''))
   | _ \<Rightarrow> Inl (no_attribute d ''items''))"

text \<open>The public function is a copy of the private one that calls itself.\<close>

fun create_obj_by_type :: "pyval \<Rightarrow> pyval" where
  "create_obj_by_type (PDict d) = PHolder (holder_init [] d)"
| "create_obj_by_type (PList vs) = PList (map create_obj_by_type vs)"
| "create_obj_by_type v = v"

text \<open>
  Where the requests are read, with what \<^verbatim>\<open>jsonpickle.decode\<close> has made of their texts: the deployed
  app and the request of a resource, the groups of the apps, the request to clean up - an object
  without \<^verbatim>\<open>driverRequest\<close> gives \<^verbatim>\<open>None\<close> - and the machines whose details are asked for.
\<close>

definition convert_app_resource_to_deployed_app :: "pyval \<Rightarrow> exn + pyval" where
  "convert_app_resource_to_deployed_app deployed_app_json = data_holder deployed_app_json"

definition convert_app_resource_to_request :: "pyval \<Rightarrow> exn + pyval" where
  "convert_app_resource_to_request app_request_json = data_holder app_request_json"

definition get_app_security_groups_from_request :: "pyval \<Rightarrow> pyval" where
  "get_app_security_groups_from_request request = create_obj_by_type request"

definition cleanup_connectivity_request :: "pyval \<Rightarrow> exn + pyval" where
  "cleanup_connectivity_request request = (case data_holder request of
     Inl e \<Rightarrow> Inl e | Inr h \<Rightarrow> Inr (get_attr_or ''driverRequest'' PNone h))"

definition vm_details_items :: "pyval \<Rightarrow> exn + pyval" where
  "vm_details_items requests_json = (case data_holder requests_json of
     Inl e \<Rightarrow> Inl e | Inr h \<Rightarrow> get_attr ''items'' h)"

section \<open>Every dictionary becomes an object with the same entries\<close>

text \<open>The keys of each dictionary are distinct, and nothing is an object yet.\<close>

fun decoded_value :: "pyval \<Rightarrow> bool" where
  "decoded_value (PList vs) \<longleftrightarrow> list_all decoded_value vs"
| "decoded_value (PDict d) \<longleftrightarrow> distinct (map fst d) \<and> list_all (\<lambda>(k, v). decoded_value v) d"
| "decoded_value (PHolder fs) \<longleftrightarrow> False"
| "decoded_value v \<longleftrightarrow> True"

fun free_of_dicts :: "pyval \<Rightarrow> bool" where
  "free_of_dicts (PList vs) \<longleftrightarrow> list_all free_of_dicts vs"
| "free_of_dicts (PDict d) \<longleftrightarrow> False"
| "free_of_dicts (PHolder fs) \<longleftrightarrow> list_all (\<lambda>(k, v). free_of_dicts v) fs"
| "free_of_dicts v \<longleftrightarrow> True"

text \<open>An object written back as the dictionary of its attributes (\<^verbatim>\<open>jsonpickle.encode\<close> without types).\<close>

fun attributes_as_dicts :: "pyval \<Rightarrow> pyval" where
  "attributes_as_dicts (PList vs) = PList (map attributes_as_dicts vs)"
| "attributes_as_dicts (PHolder fs) = PDict (map (\<lambda>(k, v). (k, attributes_as_dicts v)) fs)"
| "attributes_as_dicts v = v"

text \<open>Going down the attributes of objects, and down the entries of dictionaries.\<close>

fun read_path :: "string list \<Rightarrow> pyval \<Rightarrow> exn + pyval" where
  "read_path [] v = Inr v"
| "read_path (a # as) v = (case get_attr a v of Inl e \<Rightarrow> Inl e | Inr w \<Rightarrow> read_path as w)"

fun dict_path :: "string list \<Rightarrow> pyval \<Rightarrow> pyval option" where
  "dict_path [] v = Some v"
| "dict_path (a # as) (PDict d) = (case map_of d a of None \<Rightarrow> None | Some w \<Rightarrow> dict_path as w)"
| "dict_path (a # as) v = None"

lemma create_copies: "create_obj_by_type v = holder_create_obj_by_type v"
  by (induction v rule: create_obj_by_type.induct) auto

text \<open>The cases of the constructor are those of the function it calls otherwise.\<close>

lemma holder_init_Cons: "holder_init attributes ((a, b) # d) = holder_init (AList.update a (create_obj_by_type b) attributes) d"
  by (cases b) (simp_all add: create_copies)

lemma holder_init_map:
  assumes "distinct (map fst d)" "fst ` set attributes \<inter> fst ` set d = {}"
  shows "holder_init attributes d = attributes @ map (\<lambda>(k, v). (k, create_obj_by_type v)) d"
  using assms
proof (induction d arbitrary: attributes)
  case (Cons entry d)
  obtain a b where entry: "entry = (a, b)" by (cases entry)
  have new: "AList.update a v attributes = attributes @ [(a, v)]" if "a \<notin> fst ` set attributes" for v
    using that by (induction attributes) auto
  have "a \<notin> fst ` set attributes" using Cons.prems(2) by (auto simp: entry)
  then show ?case
    using Cons.prems Cons.IH [of "attributes @ [(a, create_obj_by_type b)]"]
    unfolding entry holder_init_Cons by (simp add: new)
qed simp

lemma create_dict: "distinct (map fst d) \<Longrightarrow>
    create_obj_by_type (PDict d) = PHolder (map (\<lambda>(k, v). (k, create_obj_by_type v)) d)"
  by (simp add: holder_init_map)

lemma create_free_of_dicts: "decoded_value v \<Longrightarrow> free_of_dicts (create_obj_by_type v)"
proof (induction v)
  case (PDict d)
  then have "free_of_dicts (create_obj_by_type v)" if "(k, v) \<in> set d" for k v
    using that by (force simp: list_all_iff)
  with PDict.prems show ?case by (auto simp: create_dict list_all_iff simp del: create_obj_by_type.simps(1))
qed (auto simp: list_all_iff)

lemma create_written_back: "decoded_value v \<Longrightarrow> attributes_as_dicts (create_obj_by_type v) = v"
proof (induction v)
  case (PDict d)
  then have "attributes_as_dicts (create_obj_by_type v) = v" if "(k, v) \<in> set d" for k v
    using that by (force simp: list_all_iff)
  with PDict.prems show ?case
    by (auto simp: create_dict split_def intro!: map_idI simp del: create_obj_by_type.simps(1))
qed (auto simp: list_all_iff intro!: map_idI)

lemma get_attr_create_dict:
  assumes "decoded_value (PDict d)"
  shows "get_attr a (create_obj_by_type (PDict d)) = (case map_of d a of
    None \<Rightarrow> Inl (no_attribute (PHolder []) a) | Some w \<Rightarrow> Inr (create_obj_by_type w))"
proof -
  have "distinct (map fst d)" using assms by simp
  then show ?thesis
    by (simp add: create_dict get_attr_def map_of_map no_attribute_def del: create_obj_by_type.simps(1) split: option.split)
qed

lemma create_path:
  assumes "decoded_value v"
  shows "case dict_path p v of
      Some w \<Rightarrow> read_path p (create_obj_by_type v) = Inr (create_obj_by_type w)
    | None \<Rightarrow> \<exists>m. read_path p (create_obj_by_type v) = Inl (AttributeError m)"
  using assms
proof (induction p arbitrary: v)
  case (Cons a p)
  show ?case
  proof (cases v)
    case (PDict d)
    with Cons.prems have d: "decoded_value (PDict d)" by simp
    show ?thesis
    proof (cases "map_of d a")
      case None
      with get_attr_create_dict [OF d, of a] show ?thesis
        unfolding PDict by (simp add: no_attribute_def del: create_obj_by_type.simps(1))
    next
      case (Some w)
      then have read: "read_path (a # p) (create_obj_by_type v) = read_path p (create_obj_by_type w)"
        using get_attr_create_dict [OF d, of a] unfolding PDict by (simp del: create_obj_by_type.simps(1))
      have entry: "dict_path (a # p) v = dict_path p w" by (simp add: PDict Some)
      have "decoded_value w" using d map_of_SomeD [OF Some] by (auto simp: list_all_iff)
      then show ?thesis unfolding read entry by (rule Cons.IH)
    qed
  qed (use Cons.prems in \<open>auto simp: get_attr_def no_attribute_def\<close>)
qed simp

lemma data_holder_dict: "decoded_value (PDict d) \<Longrightarrow> data_holder (PDict d) = Inr (create_obj_by_type (PDict d))"
  by (simp add: data_holder_def)

lemma cleanup_connectivity_request_dict:
  assumes "decoded_value (PDict d)"
  shows "cleanup_connectivity_request (PDict d) =
    Inr (case map_of d ''driverRequest'' of None \<Rightarrow> PNone | Some w \<Rightarrow> create_obj_by_type w)"
  unfolding cleanup_connectivity_request_def data_holder_dict [OF assms] get_attr_or_def
  by (simp add: get_attr_create_dict [OF assms] del: create_obj_by_type.simps(1) split: option.split)

lemma vm_details_items_dict:
  assumes "decoded_value (PDict d)"
  shows "vm_details_items (PDict d) = (case map_of d ''items'' of
    None \<Rightarrow> Inl (no_attribute (PHolder []) ''items'') | Some w \<Rightarrow> Inr (create_obj_by_type w))"
  unfolding vm_details_items_def data_holder_dict [OF assms]
  by (simp add: get_attr_create_dict [OF assms] del: create_obj_by_type.simps(1))

text \<open>
  C40: Of a decoded JSON value both functions, and the constructor for a dictionary, make the same
  value, in which no dictionary is left at any depth. It has everything the decoded value has: written
  back with the attributes as entries it is the decoded value, and going down its attributes gives what
  going down the entries gives - an \<^verbatim>\<open>AttributeError\<close> exactly if an entry on the way is missing.
\<close>

theorem decoded_requests_become_objects:
  assumes "decoded_value v"
  shows "holder_create_obj_by_type v = create_obj_by_type v \<and>
    data_holder v = (case v of PDict d \<Rightarrow> Inr (create_obj_by_type v) | _ \<Rightarrow> Inl (no_attribute v ''items'')) \<and>
    free_of_dicts (create_obj_by_type v) \<and> attributes_as_dicts (create_obj_by_type v) = v \<and>
    (case dict_path p v of
       Some w \<Rightarrow> read_path p (create_obj_by_type v) = Inr (create_obj_by_type w)
     | None \<Rightarrow> \<exists>m. read_path p (create_obj_by_type v) = Inl (AttributeError m))"
proof -
  have "data_holder v = (case v of PDict d \<Rightarrow> Inr (create_obj_by_type v) | _ \<Rightarrow> Inl (no_attribute v ''items''))"
    using assms by (cases v) (simp_all add: data_holder_def)
  then show ?thesis
    using assms create_copies create_free_of_dicts create_written_back create_path by simp
qed

definition sample_request :: pyval where
  "sample_request = PDict [(''deployedApp'', PDict [(''name'', PStr ''vm1''), (''vmdetails'', PDict [(''uid'', PStr ''7'')])]),
     (''securityGroupsConfigurations'', PList [PDict [(''subnetId'', PStr ''10.0.0.0/24''), (''rules'', PNone)]])]"

theorem decoded_requests_become_objects_witness:
  "free_of_dicts (create_obj_by_type sample_request) \<and>
   attributes_as_dicts (create_obj_by_type sample_request) = sample_request \<and>
   read_path [''deployedApp'', ''vmdetails'', ''uid''] (create_obj_by_type sample_request) = Inr (PStr ''7'') \<and>
   (\<exists>m. read_path [''deployedApp'', ''address''] (create_obj_by_type sample_request) = Inl (AttributeError m))"
proof -
  have v: "decoded_value sample_request" by code_simp
  have found: "dict_path [''deployedApp'', ''vmdetails'', ''uid''] sample_request = Some (PStr ''7'')"
    and missing: "dict_path [''deployedApp'', ''address''] sample_request = None"
    by code_simp+
  show ?thesis
    using decoded_requests_become_objects [OF v, of "[''deployedApp'', ''address'']"]
      decoded_requests_become_objects [OF v, of "[''deployedApp'', ''vmdetails'', ''uid'']"]
    unfolding found missing by simp
qed

end
