(* ===== verification/ModelParser.thy ===== *)
theory ModelParser
  imports DeployResults AppOperations Clients DataHolder
begin

text \<open>
  \<^verbatim>\<open>common/parsers/azure_model_parser.py\<close>: the models the operations work with are made from the
  attributes of resources and from decoded requests.
\<close>

section \<open>Attributes\<close>

text \<open>
  \<^verbatim>\<open>attributes[key]\<close>. A dictionary is given by its entries in the order in which Python goes through
  it, one entry per key.
\<close>

definition attr :: "dict \<Rightarrow> string \<Rightarrow> string prog" where
  "attr d key = (case map_of d key of Some v \<Rightarrow> Return v | None \<Rightarrow> Raise (KeyError key))"

definition convert_to_boolean :: "string \<Rightarrow> bool" where
  "convert_to_boolean v \<longleftrightarrow> py_lower v \<in> {''1'', ''true''}"

definition convert_list_attribute :: "string \<Rightarrow> string list" where
  "convert_list_attribute attribute =
     (if attribute \<noteq> [] then map py_strip (py_split (CHR '','') attribute) else [])"

definition gen2_matches :: "string \<Rightarrow> string \<Rightarrow> bool" where
  "gen2_matches attribute_key x \<longleftrightarrow> x = attribute_key \<or> py_endswith x (''.'' @ attribute_key)"

definition get_matching_attribute_tuple_ignoring_namespace :: "dict \<Rightarrow> string \<Rightarrow> string \<times> string option" where
  "get_matching_attribute_tuple_ignoring_namespace attributes name =
     (case find (\<lambda>(key, v). name = last_part (CHR ''.'') key) attributes of
        Some (key, v) \<Rightarrow> (key, Some v) | None \<Rightarrow> (name, None))"

definition get_attribute_value_by_name_ignoring_namespace :: "dict \<Rightarrow> string \<Rightarrow> string option" where
  "get_attribute_value_by_name_ignoring_namespace attributes name =
     (case find (\<lambda>(key, v). name = last_part (CHR ''.'') key) attributes of
        Some (key, v) \<Rightarrow> Some v | None \<Rightarrow> None)"

text \<open>
  \<^verbatim>\<open>first_or_default\<close> and \<^verbatim>\<open>single\<close> of \<^verbatim>\<open>cloudshell.cp.core.utils\<close> are not part of the repository: they are
  parameters, with what their documentation says.
\<close>

definition first_or_default_law :: "(string list \<Rightarrow> (string \<Rightarrow> bool) \<Rightarrow> string option) \<Rightarrow> bool" where
  "first_or_default_law first_or_default \<longleftrightarrow> (\<forall>xs P. first_or_default xs P = find P xs)"

text \<open>An attribute of the app by its name without the namespace; \<open>None\<close> without one.\<close>

definition app_attribute ::
  "(string list \<Rightarrow> (string \<Rightarrow> bool) \<Rightarrow> string option) \<Rightarrow> dict \<Rightarrow> string \<Rightarrow> string option prog"
where
  "app_attribute first_or_default logical_resource key =
     (case first_or_default (map fst logical_resource) (gen2_matches key) of
        None \<Rightarrow> Return None
      | Some full_key \<Rightarrow> if full_key = [] then Return None
          else bnd (attr logical_resource full_key) (\<lambda>v. Return (Some v)))"

section \<open>Deployments\<close>

text \<open>
  The actions of a request: to deploy an app, with the attributes of its deployment and of the app, and to
  connect it to a subnet.
\<close>

record deploy_action =
  da_action_id :: string
  da_deployment_path :: string
  da_attributes :: dict
  da_app_name :: string
  da_app_attributes :: dict

record connect_subnet =
  cs_action_id :: string
  cs_is_public :: bool
  cs_subnet_id :: string
  cs_vnic_name :: "string option"
  cs_cidr :: string
  cs_attributes :: dict

definition connect_params :: "connect_subnet \<Rightarrow> string \<times> action_params option" where
  "connect_params a = (cs_action_id a,
     Some (ConnectToSubnetParams (cs_subnet_id a) (cs_vnic_name a) (cs_cidr a) (cs_attributes a)))"

definition parse_deploy_networking_configurations :: "connect_subnet list \<Rightarrow> exn + network_action list option" where
  "parse_deploy_networking_configurations actions =
     (if actions = [] then Inr None else parse_network_actions_data (Some (map connect_params actions)))"

text \<open>The connections that the deployment reads of the network actions.\<close>

fun connection_of :: "network_action \<Rightarrow> subnet_connection_params option" where
  "connection_of a = (case nact_connection_params a of Some (SubnetConnection params) \<Rightarrow> Some params | _ \<Rightarrow> None)"

definition connections_of :: "network_action list option \<Rightarrow> subnet_connection_params list" where
  "connections_of nas = (case nas of None \<Rightarrow> [] | Some as \<Rightarrow> List.map_filter connection_of as)"

definition invalid_int :: "string \<Rightarrow> exn" where
  "invalid_int s = ValueError (''invalid literal for int() with base 10: '' @ py_repr s)"

definition decrypt :: "string option \<Rightarrow> string option prog" where
  "decrypt password = (case password of
     Some (c # cs) \<Rightarrow> bnd (bnd (call (Session (DecryptPassword (c # cs)))) (expect as_str)) (\<lambda>v. Return (Some v))
   | p \<Rightarrow> Return p)"

definition set_base_deploy_azure_vm_model_params ::
  "(string list \<Rightarrow> (string \<Rightarrow> bool) \<Rightarrow> string option) \<Rightarrow> deployment_image \<Rightarrow> deploy_action \<Rightarrow> connect_subnet list \<Rightarrow>
     deployment_model prog"
where
  "set_base_deploy_azure_vm_model_params first_or_default img action network_actions =
   (let data_attributes = da_attributes action; logical_resource = da_app_attributes action in
     bnd (attr data_attributes ''Add Public IP'') (\<lambda>add_public_ip.
     bnd (attr data_attributes ''Autoload'') (\<lambda>autoload.
     bnd (attr data_attributes ''Inbound Ports'') (\<lambda>inbound_ports.
     bnd (attr data_attributes ''VM Size'') (\<lambda>machine_size.
     bnd (attr data_attributes ''Disk Size'') (\<lambda>disk_size.
     bnd (attr data_attributes ''Public IP Type'') (\<lambda>public_ip_type.
     bnd (attr data_attributes ''Extension Script file'') (\<lambda>extension_script_file.
     bnd (attr data_attributes ''Extension Script Configurations'') (\<lambda>extension_script_configurations.
     bnd (attr data_attributes ''Extension Script Timeout'') (\<lambda>extension_script_timeout.
     bnd (case py_int extension_script_timeout of Some i \<Rightarrow> Return i | None \<Rightarrow> Raise (invalid_int extension_script_timeout))
       (\<lambda>script_timeout.
     bnd (attr data_attributes ''Disk Type'') (\<lambda>disk_type.
     bnd (attr data_attributes ''Allow all Sandbox Traffic'') (\<lambda>allow_all_sandbox_traffic.
     (let enable_ip_forwarding = (case map_of data_attributes ''Enable IP Forwarding'' of
            Some v \<Rightarrow> v | None \<Rightarrow> ''False'') in
     bnd (app_attribute first_or_default logical_resource ''User'') (\<lambda>username.
     bnd (app_attribute first_or_default logical_resource ''Password'') (\<lambda>password.
     bnd (decrypt password) (\<lambda>password.
     bnd (raising (parse_deploy_networking_configurations network_actions)) (\<lambda>network_configurations.
     Return \<lparr>dm_image = img, dm_vm_size = machine_size, dm_disk_size = disk_size,
       dm_add_public_ip = convert_to_boolean add_public_ip, dm_inbound_ports = inbound_ports,
       dm_public_ip_type = public_ip_type, dm_app_name = da_app_name action, dm_username = username,
       dm_password = password, dm_extension_script_file = extension_script_file,
       dm_extension_script_configurations = extension_script_configurations,
       dm_extension_script_timeout = script_timeout, dm_disk_type = disk_type,
       dm_allow_all_sandbox_traffic = PyText allow_all_sandbox_traffic,
       dm_enable_ip_forwarding = convert_to_boolean enable_ip_forwarding,
       dm_network_configurations = connections_of network_configurations,
       dm_autoload = convert_to_boolean autoload\<rparr>))))))))))))))))))"

definition convert_to_deploy_azure_vm_resource_model ::
  "(string list \<Rightarrow> (string \<Rightarrow> bool) \<Rightarrow> string option) \<Rightarrow> deploy_action \<Rightarrow> connect_subnet list \<Rightarrow> deployment_model prog"
where
  "convert_to_deploy_azure_vm_resource_model first_or_default action network_actions =
     bnd (attr (da_attributes action) ''Image Offer'') (\<lambda>image_offer.
     bnd (attr (da_attributes action) ''Image Publisher'') (\<lambda>image_publisher.
     bnd (attr (da_attributes action) ''Image SKU'') (\<lambda>image_sku.
     bnd (attr (da_attributes action) ''Image Version'') (\<lambda>image_version.
     set_base_deploy_azure_vm_model_params first_or_default
       (FromMarketplace image_publisher image_offer image_sku image_version) action network_actions))))"

definition validate_custom_image_model :: "string \<Rightarrow> string \<Rightarrow> exn + unit" where
  "validate_custom_image_model image_name image_resource_group =
     (if image_name = [] then Inl (ValueError ''Azure Image attribute is mandatory and cannot be empty'')
      else if image_resource_group = []
      then Inl (ValueError ''Azure Resource Group attribute is mandatory and cannot be empty'')
      else Inr ())"

definition convert_to_deploy_azure_vm_from_custom_image_resource_model ::
  "(string list \<Rightarrow> (string \<Rightarrow> bool) \<Rightarrow> string option) \<Rightarrow> deploy_action \<Rightarrow> connect_subnet list \<Rightarrow> deployment_model prog"
where
  "convert_to_deploy_azure_vm_from_custom_image_resource_model first_or_default action network_actions =
     bnd (attr (da_attributes action) ''Azure Image'') (\<lambda>image_name.
     bnd (attr (da_attributes action) ''Azure Resource Group'') (\<lambda>image_resource_group.
     bnd (set_base_deploy_azure_vm_model_params first_or_default (FromCustomImage image_name image_resource_group)
       action network_actions) (\<lambda>deployment_resource_model.
     bnd (raising (validate_custom_image_model image_name image_resource_group)) (\<lambda>_.
     Return deployment_resource_model))))"

section \<open>The cloud provider\<close>

definition convert_to_cloud_provider_resource_model :: "dict \<Rightarrow> azure_provider prog" where
  "convert_to_cloud_provider_resource_model resource_context =
     bnd (attr resource_context ''Azure Application ID'') (\<lambda>azure_application_id.
     bnd (attr resource_context ''Azure Subscription ID'') (\<lambda>azure_subscription_id.
     bnd (attr resource_context ''Azure Tenant ID'') (\<lambda>azure_tenant.
     bnd (attr resource_context ''VM Size'') (\<lambda>machine_size.
     bnd (attr resource_context ''Region'') (\<lambda>region.
     bnd (attr resource_context ''Management Group Name'') (\<lambda>management_group_name.
     bnd (attr resource_context ''Private IP Allocation Method'') (\<lambda>private_ip_allocation_method.
     bnd (attr resource_context ''Networks In Use'') (\<lambda>networks_in_use.
     bnd (attr resource_context ''Additional Mgmt Networks'') (\<lambda>additional_mgmt_networks.
     bnd (attr resource_context ''Azure Application Key'') (\<lambda>encrypted_azure_application_key.
     bnd (bnd (call (Session (DecryptPassword encrypted_azure_application_key))) (expect as_str))
       (\<lambda>azure_application_key.
     Return \<lparr>cp_region = py_lower (py_replace CHR '' '' [] region), cp_vm_size = machine_size,
       cp_management_group_name = management_group_name,
       cp_private_ip_allocation_method = private_ip_allocation_method,
       cp_additional_mgmt_networks = convert_list_attribute additional_mgmt_networks,
       ap_azure_application_id = azure_application_id, ap_azure_application_key = azure_application_key,
       ap_azure_subscription_id = azure_subscription_id, ap_azure_tenant = azure_tenant,
       ap_networks_in_use = convert_list_attribute networks_in_use\<rparr>)))))))))))"

section \<open>Remote resources\<close>

record remote_endpoint =
  re_fullname :: string
  re_address :: string
  re_attributes :: dict
  re_name :: string  \<comment> \<open>of the deployed app\<close>
  re_custom_params :: "(string \<times> string) list"  \<comment> \<open>\<^verbatim>\<open>vmdetails.vmCustomParams\<close> of the deployed app\<close>
  re_deployment_attributes :: dict  \<comment> \<open>of the deployment service of the app request\<close>

definition PUBLIC_IP_KEY :: string where "PUBLIC_IP_KEY = ''Public IP''"

definition first_endpoint :: "remote_endpoint list option \<Rightarrow> exn + remote_endpoint" where
  "first_endpoint remote_endpoints = (case remote_endpoints of
     None \<Rightarrow> Inl (TypeError (quoted ''NoneType'' @ '' object has no attribute '' @ quoted ''__getitem__''))
   | Some [] \<Rightarrow> Inl IndexError
   | Some (r # _) \<Rightarrow> Inr r)"

definition get_public_ip_from_connected_resource_details :: "remote_endpoint list option \<Rightarrow> string option prog" where
  "get_public_ip_from_connected_resource_details remote_endpoints =
     (if remote_endpoints \<noteq> None
      then bnd (raising (first_endpoint remote_endpoints)) (\<lambda>r.
        Return (get_attribute_value_by_name_ignoring_namespace (re_attributes r) PUBLIC_IP_KEY))
      else Return (Some []))"

definition get_public_ip_tuple_attribute_from_connected_resource_details ::
  "remote_endpoint list option \<Rightarrow> (string \<times> string option) prog"
where
  "get_public_ip_tuple_attribute_from_connected_resource_details remote_endpoints =
     (if remote_endpoints \<noteq> None
      then bnd (raising (first_endpoint remote_endpoints)) (\<lambda>r.
        Return (get_matching_attribute_tuple_ignoring_namespace (re_attributes r) PUBLIC_IP_KEY))
      else Return (PUBLIC_IP_KEY, None))"

definition get_private_ip_from_connected_resource_details :: "remote_endpoint list option \<Rightarrow> string prog" where
  "get_private_ip_from_connected_resource_details remote_endpoints =
     (if remote_endpoints \<noteq> None
      then bnd (raising (first_endpoint remote_endpoints)) (\<lambda>r. Return (re_address r))
      else Return [])"

definition get_connected_resource_fullname :: "remote_endpoint list option \<Rightarrow> string prog" where
  "get_connected_resource_fullname remote_endpoints =
     bnd (raising (first_endpoint remote_endpoints)) (\<lambda>r. Return (re_fullname r))"

definition get_allow_all_storage_traffic_from_connected_resource_details ::
  "remote_endpoint list option \<Rightarrow> string option prog"
where
  "get_allow_all_storage_traffic_from_connected_resource_details remote_endpoints =
     (if remote_endpoints \<noteq> None
      then bnd (raising (first_endpoint remote_endpoints)) (\<lambda>r.
        Return (get_attribute_value_by_name_ignoring_namespace (re_deployment_attributes r) ''Allow all Sandbox Traffic''))
      else Return (Some []))"

section \<open>Requests for routes and security groups\<close>

text \<open>The decoded objects by their fields; a field is \<open>None\<close> when the object lacks it.\<close>

record route_data =
  rtd_name :: "string option"
  rtd_address_prefix :: "string option"
  rtd_next_hop_type :: "string option"
  rtd_next_hop_address :: "string option"

record route_table_data =
  rtt_name :: "string option"
  rtt_subnets :: "string list option option"  \<comment> \<open>\<open>Some None\<close> for \<^verbatim>\<open>null\<close>\<close>
  rtt_routes :: "route_data list option"

definition field :: "'a option \<Rightarrow> string \<Rightarrow> exn + 'a" where
  "field v name = (case v of Some x \<Rightarrow> Inr x | None \<Rightarrow> Inl (KeyError name))"

definition route_of :: "route_data \<Rightarrow> exn + route" where
  "route_of d = (case field (rtd_name d) ''name'' of Inl e \<Rightarrow> Inl e | Inr n \<Rightarrow>
     (case field (rtd_address_prefix d) ''address_prefix'' of Inl e \<Rightarrow> Inl e | Inr a \<Rightarrow>
     (case field (rtd_next_hop_type d) ''next_hop_type'' of Inl e \<Rightarrow> Inl e | Inr t \<Rightarrow>
     (case field (rtd_next_hop_address d) ''next_hop_address'' of Inl e \<Rightarrow> Inl e | Inr h \<Rightarrow>
      Inr \<lparr>route_name = n, route_address_prefix = a, route_next_hop_type = t, route_next_hop_address = h\<rparr>))))"

definition route_table_of :: "route_table_data \<Rightarrow> exn + route_table_request" where
  "route_table_of d = (case field (rtt_name d) ''name'' of Inl e \<Rightarrow> Inl e | Inr n \<Rightarrow>
     (case field (rtt_subnets d) ''subnets'' of Inl e \<Rightarrow> Inl e | Inr subnets \<Rightarrow>
     (case field (rtt_routes d) ''routes'' of Inl e \<Rightarrow> Inl e | Inr routes \<Rightarrow>
     (case collect route_of routes of Inl e \<Rightarrow> Inl e | Inr routes \<Rightarrow>
      Inr \<lparr>rtr_name = n, rtr_routes = routes, rtr_subnets = (case subnets of Some ss \<Rightarrow> ss | None \<Rightarrow> [])\<rparr>))))"

definition convert_to_route_table_model :: "route_table_data list option \<Rightarrow> exn + route_table_request list" where
  "convert_to_route_table_model route_tables =
     (case field route_tables ''route_tables'' of Inl e \<Rightarrow> Inl e | Inr ts \<Rightarrow> collect route_table_of ts)"

record app_security_group_data =
  agd_app_name :: string
  agd_configurations :: "group_configuration_data list option"

definition convert_to_app_security_group_models :: "app_security_group_data list \<Rightarrow> app_security_group_model list" where
  "convert_to_app_security_group_models security_groups =
     map (\<lambda>g. \<lparr>asg_app_name = agd_app_name g,
       asg_security_group_configurations = parse_security_group_configurations (agd_configurations g)\<rparr>) security_groups"

section \<open>Names with namespaces\<close>

lemma gen2_last_part:
  assumes "CHR ''.'' \<notin> set key"
  shows "gen2_matches key x \<longleftrightarrow> key = last_part (CHR ''.'') x"
proof
  assume "gen2_matches key x"
  then consider "x = key" | p where "x = p @ CHR ''.'' # key"
    by (auto simp: gen2_matches_def py_endswith_def suffix_def)
  then show "key = last_part (CHR ''.'') x"
    using assms by cases (simp_all add: last_part_idle last_part_append)
next
  assume key: "key = last_part (CHR ''.'') x"
  show "gen2_matches key x"
  proof (cases "CHR ''.'' \<in> set x")
    case True
    then obtain p s where x: "x = p @ CHR ''.'' # s" "CHR ''.'' \<notin> set s"
      by (metis split_list_last)
    with key have "s = key" by (simp add: last_part_append last_part_idle)
    with x show ?thesis by (auto simp: gen2_matches_def py_endswith_def suffix_def)
  qed (use key in \<open>simp add: gen2_matches_def last_part_idle\<close>)
qed

lemma map_of_first_match:
  "find P (map fst d) = Some k \<Longrightarrow> P k \<and> (\<exists>v. find (\<lambda>(k, v). P k) d = Some (k, v) \<and> map_of d k = Some v)"
  by (induction d) (auto split: if_splits)

lemma find_no_match: "find P (map fst d) = None \<longleftrightarrow> find (\<lambda>(k, v). P k) d = None"
  by (induction d) auto

text \<open>
  C39: The two ways in which the parser looks up an attribute whatever its namespace is - the first
  name that is the key or ends with a dot and the key, and the first name whose last part is the
  key - give the same value, for every dictionary and every key without a dot.
\<close>

theorem attribute_lookups_agree:
  assumes "first_or_default_law first_or_default" "CHR ''.'' \<notin> set key" "key \<noteq> []"
  shows "app_attribute first_or_default d key = Return (get_attribute_value_by_name_ignoring_namespace d key)"
proof -
  have found: "first_or_default (map fst d) (gen2_matches key) = find (\<lambda>x. key = last_part (CHR ''.'') x) (map fst d)"
    using assms(1) gen2_last_part [OF assms(2)] unfolding first_or_default_law_def by (simp add: fun_eq_iff [of "gen2_matches key"] cong: find_cong)
  show ?thesis
  proof (cases "find (\<lambda>x. key = last_part (CHR ''.'') x) (map fst d)")
    case None
    then have "find (\<lambda>(k, v). key = last_part (CHR ''.'') k) d = None" by (simp only: find_no_match)
    with None found show ?thesis
      by (simp add: app_attribute_def get_attribute_value_by_name_ignoring_namespace_def)
  next
    case (Some k)
    then have "key = last_part (CHR ''.'') k" by (auto simp: find_Some_iff)
    with assms(3) have "k \<noteq> []" by (auto simp: last_part_def)
    with Some found map_of_first_match [OF Some] show ?thesis
      by (auto simp: app_attribute_def get_attribute_value_by_name_ignoring_namespace_def attr_def)
  qed
qed

theorem attribute_lookups_agree_witness:
  "app_attribute (\<lambda>xs P. find P xs) [(''Vendor.Password'', ''p''), (''Azure.App.User'', ''me''), (''User'', ''you'')] ''User'' =
     Return (get_attribute_value_by_name_ignoring_namespace
       [(''Vendor.Password'', ''p''), (''Azure.App.User'', ''me''), (''User'', ''you'')] ''User'')"
  by (rule attribute_lookups_agree) (simp_all add: first_or_default_law_def)

end
