(* ===== verification/Autoload.thy ===== *)
theory Autoload
  imports Clients PrepareInfra
begin

text \<open>
  \<^verbatim>\<open>domain/vm_management/operations/autoload_operation.py\<close> and \<^verbatim>\<open>domain/services/subscription.py\<close>: the
  attributes of the cloud provider are checked against Azure.
\<close>

section \<open>SubscriptionService\<close>

definition list_available_regions :: "env \<Rightarrow> string \<Rightarrow> resp prog" where
  "list_available_regions E subscription_id = retried E (call (Resource (ListLocations subscription_id)))"

section \<open>The checks\<close>

definition dquoted :: "string \<Rightarrow> string" where
  "dquoted s = CHR 0x22 # s @ [CHR 0x22]"

definition validate_region :: "env \<Rightarrow> string \<Rightarrow> string \<Rightarrow> unit prog" where
  "validate_region E subscription_id region =
     (if region = [] then Raise (AutoloadException ''Region attribute can not be empty'')
      else bnd (bnd (list_available_regions E subscription_id) (expect as_strs)) (\<lambda>available_regions.
        if region \<notin> set available_regions
        then Raise (AutoloadException (''Region '' @ dquoted region @ '' is not a valid Azure Geo-location''))
        else Return ()))"

fun is_authentication_error :: "exn \<Rightarrow> bool" where
  "is_authentication_error (AuthenticationError m) = True"
| "is_authentication_error e = False"

definition validate_api_credentials :: "azure_provider \<Rightarrow> clients_manager prog" where
  "validate_api_credentials cp = catch (singleton_call cp) (\<lambda>e.
     if is_authentication_error e
     then Raise (AutoloadException ''Failed to connect to Azure API, please check the log for more details'')
     else Raise e)"

fun is_cloud_error :: "exn \<Rightarrow> bool" where
  "is_cloud_error (CloudError r m t) = True"
| "is_cloud_error e = False"

text \<open>A resource group is given by its location.\<close>

definition validate_mgmt_resource_group :: "env \<Rightarrow> string \<Rightarrow> string \<Rightarrow> unit prog" where
  "validate_mgmt_resource_group E mgmt_group_name region =
     try_else (bnd (get_resource_group E mgmt_group_name) (expect as_str))
       (\<lambda>e. if is_cloud_error e
          then Raise (AutoloadException (''Failed to find Management group '' @ mgmt_group_name)) else Raise e)
       (\<lambda>location. if region \<noteq> location
          then Raise (AutoloadException (''Management group '' @ mgmt_group_name @ '' is not under the '' @ region @ '' region''))
          else Return ())"

definition validate_vnet :: "vnet list \<Rightarrow> string \<Rightarrow> string \<Rightarrow> exn + vnet" where
  "validate_vnet virtual_networks mgmt_group_name network_tag =
     (case get_virtual_network_by_tag virtual_networks NETWORK_TYPE_TAG_NAME network_tag of
        None \<Rightarrow> Inl (AutoloadException (''Failed to find Vnet with network type '' @ dquoted network_tag @
          '' tag under Management group '' @ mgmt_group_name))
      | Some v \<Rightarrow> Inr v)"

definition validate_vm_size :: "env \<Rightarrow> string \<Rightarrow> string \<Rightarrow> unit prog" where
  "validate_vm_size E region machine_size =
     bnd (bnd (list_virtual_machine_sizes E region) (expect as_strs)) (\<lambda>azure_vm_sizes.
     if machine_size \<notin> set azure_vm_sizes
     then Raise (AutoloadException (''VM Size '' @ machine_size @ '' is not valid'')) else Return ())"

definition azure_providers :: "string list" where
  "azure_providers = [''Microsoft.Authorization'', ''Microsoft.Storage'', ''Microsoft.Network'', ''Microsoft.Compute'']"

definition register_azure_providers :: "unit prog" where
  "register_azure_providers = for_each (\<lambda>provider. call (Resource (RegisterProvider provider))) azure_providers"

definition validate_cidr_format :: "env \<Rightarrow> string \<Rightarrow> exn + bool" where
  "validate_cidr_format E cidr = (case ip_network E cidr of
     Inl (AddrFormatError m) \<Rightarrow> Inr False
   | Inl e \<Rightarrow> Inl e
   | Inr _ \<Rightarrow> Inr (CHR ''/'' \<in> set cidr))"

definition validate_cidrs :: "env \<Rightarrow> string \<Rightarrow> string list \<Rightarrow> unit prog" where
  "validate_cidrs E attribute cidrs = for_each (\<lambda>cidr.
     bnd (raising (validate_cidr_format E cidr)) (\<lambda>valid.
     if \<not> valid then Raise (AutoloadException (''CIDR '' @ cidr @ '' under the '' @ dquoted attribute @
       '' attribute is not in the valid format''))
     else Return ())) cidrs"

text \<open>
  \<open>order\<close> is the order in which Python goes through the set. The method is not called by
  \<^verbatim>\<open>get_inventory\<close> any more.
\<close>

definition validate_networks_in_use ::
  "env \<Rightarrow> (string list \<Rightarrow> string list) \<Rightarrow> vnet \<Rightarrow> string list \<Rightarrow> unit prog"
where
  "validate_networks_in_use E order sandbox_vnet networks_in_use =
     thn (validate_cidrs E ''Networks In Use'' networks_in_use)
     (let cidrs = filter (\<lambda>c. c \<notin> set networks_in_use) (remdups (map sn_address_prefix (vn_subnets sandbox_vnet))) in
      if cidrs \<noteq> []
      then Raise (AutoloadException (''The following subnets '' @ dquoted (py_join '', '' (order cidrs)) @
        '' were found under the '' @ dquoted (vn_name sandbox_vnet) @ '' VNet in Azure and should be set in the '' @
        dquoted ''Network In Use'' @ '' field.''))
      else Return ())"

definition validate_additional_mgmt_networks :: "env \<Rightarrow> string list \<Rightarrow> unit prog" where
  "validate_additional_mgmt_networks E additional_mgmt_networks =
     validate_cidrs E ''Additional Mgmt Networks'' additional_mgmt_networks"

definition use_client :: "client_kind \<Rightarrow> clients_manager \<Rightarrow> unit prog" where
  "use_client kind m = thn (client_property kind m) (Return ())"

definition get_inventory :: "env \<Rightarrow> azure_provider \<Rightarrow> unit prog" where
  "get_inventory E cp =
     bnd (validate_api_credentials cp) (\<lambda>azure_clients.
     thn (use_client SubscriptionClient azure_clients)
     (thn (validate_region E (ap_azure_subscription_id cp) (cp_region cp))
     (thn (use_client ResourceClient azure_clients)
     (thn register_azure_providers
     (thn (use_client ResourceClient azure_clients)
     (thn (validate_mgmt_resource_group E (cp_management_group_name cp) (cp_region cp))
     (thn (use_client NetworkClient azure_clients)
     (bnd (bnd (get_virtual_networks E (cp_management_group_name cp)) (expect as_vnets)) (\<lambda>virtual_networks.
     thn (raising (validate_vnet virtual_networks (cp_management_group_name cp) SANDBOX_NETWORK_TAG_VALUE))
     (thn (raising (validate_vnet virtual_networks (cp_management_group_name cp) MGMT_NETWORK_TAG_VALUE))
     (thn (only_if (cp_vm_size cp \<noteq> []) (thn (use_client ComputeClient azure_clients)
       (validate_vm_size E (cp_region cp) (cp_vm_size cp))))
     (validate_additional_mgmt_networks E (cp_additional_mgmt_networks cp)))))))))))))"
section \<open>What the inventory has checked\<close>

lemma exec_expect_Ok: "exec (expect sel r) es (Ok x) \<Longrightarrow> sel r = Some x"
  by (auto simp: exec_simps split: option.splits)

lemma makes_answer:
  assumes "\<And>es r. exec p es (Ok r) \<Longrightarrow> (q, Inr r) \<in> set es"
    "\<And>r x. sel r = Some x \<Longrightarrow> yields (\<lambda>_. P (q, Inr r)) (f x)"
  shows "makes P (bnd (bnd p (expect sel)) f)"
  unfolding makes_def
proof (intro allI impI, erule exec_bnd_OkE, erule exec_bnd_OkE)
  fix es x es1 es2 y r es3 es4
  assume 1: "exec p es3 (Ok r)" and 2: "exec (expect sel r) es4 (Ok y)" and 3: "exec (f y) es2 (Ok x)"
    and es: "es = es1 @ es2" "es1 = es3 @ es4"
  from assms(1) [OF 1] yieldsD [OF assms(2) [OF exec_expect_Ok [OF 2]] 3] show "\<exists>ev \<in> set es. P ev"
    by (auto simp: es)
qed

lemma exec_retried_call_Ok: "retry_law E \<Longrightarrow> exec (retried E (call q)) es (Ok r) \<Longrightarrow> (q, Inr r) \<in> set es"
  by (erule exec_retriedE, assumption) (auto simp: exec_simps)

lemma yields_first: "yields (\<lambda>_. b) p \<Longrightarrow> yields (\<lambda>_. b) (bnd p f)"
  by (rule yields_bnd [where R = "\<lambda>_. b"]) (auto simp: yields_def)

lemma yields_then: "(\<And>x. yields Q (f x)) \<Longrightarrow> yields Q (bnd p f)"
  by (rule yields_bnd [OF yields_any])

fun region_listed :: "azure_provider \<Rightarrow> event \<Rightarrow> bool" where
  "region_listed cp (Resource (ListLocations subscription), Inr (RStrs regions)) \<longleftrightarrow>
     subscription = ap_azure_subscription_id cp \<and> cp_region cp \<in> set regions"
| "region_listed cp ev \<longleftrightarrow> False"

fun group_found :: "azure_provider \<Rightarrow> event \<Rightarrow> bool" where
  "group_found cp (Resource (GetResourceGroup g), Inr (RStr location)) \<longleftrightarrow>
     g = cp_management_group_name cp \<and> location = cp_region cp"
| "group_found cp ev \<longleftrightarrow> False"

text \<open>The networks that were listed have those that the preparation of a sandbox looks for.\<close>

fun networks_found :: "azure_provider \<Rightarrow> event \<Rightarrow> bool" where
  "networks_found cp (Network (ListVnets g), Inr (RVnets vnets)) \<longleftrightarrow> g = cp_management_group_name cp \<and>
     (\<exists>v. validate_management_vnet
       (get_virtual_network_by_tag vnets NETWORK_TYPE_TAG_NAME MGMT_NETWORK_TAG_VALUE) = Inr v) \<and>
     (\<exists>v. validate_sandbox_vnet
       (get_virtual_network_by_tag vnets NETWORK_TYPE_TAG_NAME SANDBOX_NETWORK_TAG_VALUE) = Inr v)"
| "networks_found cp ev \<longleftrightarrow> False"

fun size_listed :: "azure_provider \<Rightarrow> event \<Rightarrow> bool" where
  "size_listed cp (Compute (ListVmSizes region), Inr (RStrs sizes)) \<longleftrightarrow>
     region = cp_region cp \<and> cp_vm_size cp \<in> set sizes"
| "size_listed cp ev \<longleftrightarrow> False"

fun provider_registered :: "string \<Rightarrow> event \<Rightarrow> bool" where
  "provider_registered p (Resource (RegisterProvider p'), Inr v) \<longleftrightarrow> p' = p"
| "provider_registered p ev \<longleftrightarrow> False"

lemma makes_validate_region:
  "retry_law E \<Longrightarrow> makes (region_listed cp) (validate_region E (ap_azure_subscription_id cp) (cp_region cp))"
  unfolding validate_region_def list_available_regions_def
  by (auto simp: makes_simps yields_simps intro!: makes_answer dest: exec_retried_call_Ok elim!: as_strs.elims)

lemma makes_validate_vm_size:
  "retry_law E \<Longrightarrow> makes (size_listed cp) (validate_vm_size E (cp_region cp) (cp_vm_size cp))"
  unfolding validate_vm_size_def list_virtual_machine_sizes_def
  by (auto simp: makes_simps yields_simps intro!: makes_answer dest: exec_retried_call_Ok elim!: as_strs.elims)

lemma makes_for_each: "x \<in> set xs \<Longrightarrow> makes P (f x) \<Longrightarrow> makes P (for_each f xs)"
  by (induction xs) (auto intro: makes_first makes_then)

lemma makes_register: "p \<in> set azure_providers \<Longrightarrow> makes (provider_registered p) register_azure_providers"
  unfolding register_azure_providers_def
  by (rule makes_for_each) (auto simp: makes_def exec_simps)

lemma exec_get_virtual_networks_Ok:
  assumes "retry_law E" "exec (get_virtual_networks E g) es (Ok r)"
  shows "(Network (ListVnets g), Inr r) \<in> set es"
proof (rule exec_retriedE [OF assms(1) assms(2) [unfolded get_virtual_networks_def]])
  fix es0 es1
  assume es: "es = es0 @ es1"
    and "exec (bnd (call (Network (ListVnets g))) (\<lambda>r. bnd (expect as_vnets r) (\<lambda>vs. Return (RVnets vs)))) es1 (Ok r)"
  from this(2) obtain v es2 es3 where "exec (call (Network (ListVnets g))) es2 (Ok v)" "es1 = es2 @ es3"
      "exec (bnd (expect as_vnets v) (\<lambda>vs. Return (RVnets vs))) es3 (Ok r)" by (rule exec_bnd_OkE)
  then show ?thesis
    by (cases v) (auto simp: es exec_simps expect_def bnd.simps elim!: exec_bnd_OkE)
qed

lemma makes_mgmt_group:
  assumes "retry_law E"
  shows "makes (group_found cp) (validate_mgmt_resource_group E (cp_management_group_name cp) (cp_region cp))"
  unfolding makes_def
proof (intro allI impI)
  fix es x
  assume "exec (validate_mgmt_resource_group E (cp_management_group_name cp) (cp_region cp)) es (Ok x)"
  then obtain location es1 es2 where
      1: "exec (bnd (get_resource_group E (cp_management_group_name cp)) (expect as_str)) es1 (Ok location)"
      and "es = es1 @ es2" "location = cp_region cp"
    unfolding validate_mgmt_resource_group_def by (auto simp: exec_try_else exec_simps split: if_splits)
  then have "(Resource (GetResourceGroup (cp_management_group_name cp)), Inr (RStr (cp_region cp))) \<in> set es"
    by (auto simp: get_resource_group_def elim!: as_str.elims exec_bnd_OkE dest!: exec_retried_call_Ok [OF assms] exec_expect_Ok)
  then show "\<exists>ev \<in> set es. group_found cp ev" by (rule bexI [rotated]) simp
qed

lemma validate_vnet_found:
  "yields (\<lambda>_. get_virtual_network_by_tag vs NETWORK_TYPE_TAG_NAME tag \<noteq> None) (raising (validate_vnet vs g tag))"
  by (auto simp: raising_def validate_vnet_def yields_simps split: option.splits)

lemma yields_for_each: "(\<And>x. x \<in> set xs \<Longrightarrow> yields (\<lambda>_. R x) (f x)) \<Longrightarrow> yields (\<lambda>_. \<forall>x \<in> set xs. R x) (for_each f xs)"
proof (induction xs)
  case (Cons x xs)
  then show ?case
    by (auto intro!: yields_bnd [where R = "\<lambda>_. R x"] intro: yields_bnd)
qed (simp add: yields_simps)

lemma yields_additional_networks:
  "yields (\<lambda>_. \<forall>c \<in> set cidrs. validate_cidr_format E c = Inr True) (validate_additional_mgmt_networks E cidrs)"
  unfolding validate_additional_mgmt_networks_def validate_cidrs_def
  by (rule yields_for_each, rule yields_bnd [OF yields_raising]) (auto simp: yields_simps)


lemma inventory_region: "retry_law E \<Longrightarrow> makes (region_listed cp) (get_inventory E cp)"
  unfolding get_inventory_def
  by (rule makes_then, rule makes_then, rule makes_first, rule makes_validate_region)

lemma inventory_providers: "p \<in> set azure_providers \<Longrightarrow> makes (provider_registered p) (get_inventory E cp)"
  unfolding get_inventory_def
  by (rule makes_then, rule makes_then, rule makes_then, rule makes_then, rule makes_first, rule makes_register)

lemma inventory_group: "retry_law E \<Longrightarrow> makes (group_found cp) (get_inventory E cp)"
  unfolding get_inventory_def
  by (rule makes_then, rule makes_then, rule makes_then, rule makes_then, rule makes_then, rule makes_then,
      rule makes_first, rule makes_mgmt_group)

lemma yields_networks_found:
  "yields (\<lambda>_. networks_found cp (Network (ListVnets (cp_management_group_name cp)), Inr (RVnets vs)))
     (thn (raising (validate_vnet vs (cp_management_group_name cp) SANDBOX_NETWORK_TAG_VALUE))
     (thn (raising (validate_vnet vs (cp_management_group_name cp) MGMT_NETWORK_TAG_VALUE)) rest))"
  by (rule yields_bnd [OF validate_vnet_found], rule yields_bnd [OF validate_vnet_found])
    (auto simp: yields_def validate_management_vnet_def validate_sandbox_vnet_def)

lemma inventory_networks: "retry_law E \<Longrightarrow> makes (networks_found cp) (get_inventory E cp)"
  unfolding get_inventory_def
  by (rule makes_then, rule makes_then, rule makes_then, rule makes_then, rule makes_then, rule makes_then,
      rule makes_then, rule makes_then, rule makes_answer, erule (1) exec_get_virtual_networks_Ok)
    (auto elim!: as_vnets.elims intro: yields_networks_found simp del: networks_found.simps)

lemma makes_size_part:
  assumes "retry_law E" "cp_vm_size cp \<noteq> []"
  shows "makes (size_listed cp) (only_if (cp_vm_size cp \<noteq> []) (thn (use_client ComputeClient m)
    (validate_vm_size E (cp_region cp) (cp_vm_size cp))))"
  using makes_then [OF makes_validate_vm_size [OF assms(1)]] assms(2) by (simp add: only_if_def)

lemma inventory_size: "retry_law E \<Longrightarrow> cp_vm_size cp \<noteq> [] \<Longrightarrow> makes (size_listed cp) (get_inventory E cp)"
  unfolding get_inventory_def
  by (rule makes_then, rule makes_then, rule makes_then, rule makes_then,
      rule makes_then, rule makes_then, rule makes_then, rule makes_then, rule makes_then, rule makes_then,
      rule makes_then, rule makes_first, rule makes_size_part)

lemma inventory_additional_networks:
  "yields (\<lambda>_. \<forall>c \<in> set (cp_additional_mgmt_networks cp). validate_cidr_format E c = Inr True) (get_inventory E cp)"
  unfolding get_inventory_def
  by (rule yields_then, rule yields_then, rule yields_then, rule yields_then, rule yields_then, rule yields_then,
      rule yields_then, rule yields_then, rule yields_then, rule yields_then, rule yields_then, rule yields_then,
      rule yields_additional_networks)

text \<open>
  C12: When the inventory of a cloud provider returns, Azure has listed its region, its management
  group in that region, its machine size if it has one, and networks among which the preparation of
  a sandbox will find the management and the sandbox network, the four resource providers were
  registered, and its additional networks are in CIDR notation.
\<close>

theorem inventory_checked:
  assumes "retry_law E" "exec (get_inventory E cp) es (Ok u)"
  shows "(\<exists>ev \<in> set es. region_listed cp ev) \<and> (\<exists>ev \<in> set es. group_found cp ev) \<and>
    (cp_vm_size cp \<noteq> [] \<longrightarrow> (\<exists>ev \<in> set es. size_listed cp ev)) \<and> (\<exists>ev \<in> set es. networks_found cp ev) \<and>
    (\<forall>p \<in> set azure_providers. \<exists>ev \<in> set es. provider_registered p ev) \<and>
    (\<forall>c \<in> set (cp_additional_mgmt_networks cp). validate_cidr_format E c = Inr True)"
  using makesD [OF inventory_region [OF assms(1)] assms(2)] makesD [OF inventory_group [OF assms(1)] assms(2)]
    makesD [OF inventory_size [OF assms(1)] assms(2)] makesD [OF inventory_networks [OF assms(1)] assms(2)]
    makesD [OF inventory_providers assms(2)] yieldsD [OF inventory_additional_networks assms(2)]
  by blast
section \<open>A subscription that passes\<close>

fun sample_resource :: "resource_request \<Rightarrow> answer" where
  "sample_resource (ListLocations s) = Inr (RStrs [''eastus'', ''westus''])"
| "sample_resource (GetResourceGroup g) = Inr (RStr ''westus'')"
| "sample_resource (RegisterProvider p) = Inr RNone"
| "sample_resource q = Inr (RPoller 0)"

definition sample_subscription :: "request \<Rightarrow> answer" where
  "sample_subscription q = (case q of
     Resource r \<Rightarrow> sample_resource r
   | Compute (ListVmSizes l) \<Rightarrow> Inr (RStrs [''A1'', ''A2''])
   | Memory (FindClient m k) \<Rightarrow> Inr (RInt 1)
   | r \<Rightarrow> sample_azure r)"

definition sample_azure_provider :: azure_provider where
  "sample_azure_provider = cloud_provider.extend (sample_provider [''10.9.0.0/24''])
     \<lparr>ap_azure_application_id = ''app'', ap_azure_application_key = ''key'', ap_azure_subscription_id = ''sub'',
      ap_azure_tenant = ''tenant'', ap_networks_in_use = []\<rparr>"

lemma sample_azure_provider_fields:
  "cp_region sample_azure_provider = ''westus''" "cp_vm_size sample_azure_provider = ''A1''"
  "cp_management_group_name sample_azure_provider = ''mgmt''"
  "cp_additional_mgmt_networks sample_azure_provider = [''10.9.0.0/24'']"
  "ap_azure_subscription_id sample_azure_provider = ''sub''"
  by (simp_all add: sample_azure_provider_def sample_provider_def cloud_provider.defs)

lemma sample_subscription_answers:
  "sample_subscription (Resource r) = sample_resource r"
  "sample_subscription (Compute (ListVmSizes l)) = Inr (RStrs [''A1'', ''A2''])"
  "sample_subscription (Memory (FindClient m k)) = Inr (RInt 1)"
  "sample_subscription (Memory FindInstance) = Inr RNone"
  "sample_subscription (Memory (PutInstance m)) = Inr RNone"
  "sample_subscription (Runtime (Authenticate a b t)) = Inr RNone"
  "sample_subscription (Network (ListVnets g)) = Inr (RVnets sample_vnets)"
  by (simp_all add: sample_subscription_def)

lemma outcome_singleton_call:
  "outcome_of sample_subscription (singleton_call cp) = Ok (credentials_of_provider cp)"
  by (simp add: singleton_call_def new_clients_manager_def Let_def sample_subscription_answers result_simps
    cong: result_congs)

lemma outcome_client_property:
  "outcome_of sample_subscription (client_property kind m) = Ok (Some 1)"
  by (simp add: client_property_def find_client_def sample_subscription_answers result_simps cong: result_congs)

lemma sample_networks_found:
  "\<exists>v. validate_vnet sample_vnets g SANDBOX_NETWORK_TAG_VALUE = Inr v"
  "\<exists>v. validate_vnet sample_vnets g MGMT_NETWORK_TAG_VALUE = Inr v"
  "validate_cidr_format sample_env ''10.9.0.0/24'' = Inr True"
proof -
  have "\<exists>v. get_virtual_network_by_tag sample_vnets NETWORK_TYPE_TAG_NAME SANDBOX_NETWORK_TAG_VALUE = Some v"
    by (rule exI [of _ "sample_vnets ! 1"]) code_simp
  then show "\<exists>v. validate_vnet sample_vnets g SANDBOX_NETWORK_TAG_VALUE = Inr v" by (auto simp: validate_vnet_def)
  have "\<exists>v. get_virtual_network_by_tag sample_vnets NETWORK_TYPE_TAG_NAME MGMT_NETWORK_TAG_VALUE = Some v"
    by (rule exI [of _ "sample_vnets ! 0"]) code_simp
  then show "\<exists>v. validate_vnet sample_vnets g MGMT_NETWORK_TAG_VALUE = Inr v" by (auto simp: validate_vnet_def)
  show "validate_cidr_format sample_env ''10.9.0.0/24'' = Inr True" by code_simp
qed

lemma outcome_inventory: "outcome_of sample_subscription (get_inventory sample_env sample_azure_provider) = Ok ()"
proof -
  obtain v v' where v: "validate_vnet sample_vnets ''mgmt'' SANDBOX_NETWORK_TAG_VALUE = Inr v"
      "validate_vnet sample_vnets ''mgmt'' MGMT_NETWORK_TAG_VALUE = Inr v'"
    using sample_networks_found by blast
  show ?thesis
    by (simp add: get_inventory_def validate_api_credentials_def use_client_def validate_region_def
      list_available_regions_def register_azure_providers_def azure_providers_def validate_mgmt_resource_group_def
      get_resource_group_def get_virtual_networks_def validate_vm_size_def list_virtual_machine_sizes_def
      validate_additional_mgmt_networks_def validate_cidrs_def raising_def v sample_networks_found(3)
      sample_azure_provider_fields outcome_singleton_call outcome_client_property sample_subscription_answers
      result_simps cong: result_congs)
qed

theorem inventory_checked_witness:
  "\<exists>es. exec (get_inventory sample_env sample_azure_provider) es (Ok ()) \<and>
    (\<exists>ev \<in> set es. region_listed sample_azure_provider ev) \<and>
    (\<exists>ev \<in> set es. size_listed sample_azure_provider ev) \<and>
    (\<exists>ev \<in> set es. networks_found sample_azure_provider ev)"
proof -
  have run: "exec (get_inventory sample_env sample_azure_provider)
      (run_of sample_subscription (get_inventory sample_env sample_azure_provider)) (Ok ())"
    by (rule exec_run_of [OF outcome_inventory])
  have size: "cp_vm_size sample_azure_provider \<noteq> []" by (simp add: sample_azure_provider_fields)
  note checked = inventory_checked [OF sample_env_law run]
  show ?thesis
    by (rule exI, rule conjI [OF run], rule conjI [OF conjunct1 [OF checked]],
      rule conjI [OF mp [OF conjunct1 [OF conjunct2 [OF conjunct2 [OF checked]]] size]],
      rule conjunct1 [OF conjunct2 [OF conjunct2 [OF conjunct2 [OF checked]]]])
qed

end
