(* ===== verification/Shell.thy ===== *)
theory Shell
  imports ModelParser Autoload DeleteVm
begin

text \<open>
  \<^verbatim>\<open>azure_shell.py\<close> and \<^verbatim>\<open>drivers/azure_shell/driver.py\<close>: the commands of the driver. Each makes the
  model of the cloud provider and the clients, and runs one operation. The contexts for logging, for
  the error handling and for the CloudShell session are not part of the repository: they hand
  exceptions on. Requests are given in their decoded form.
\<close>

section \<open>Commands and their contexts\<close>

record command_context =
  cc_resource :: dict  \<comment> \<open>the attributes of the resource\<close>
  cc_reservation :: reservation
  cc_remote_reservation :: reservation
  cc_remote_endpoints :: "remote_endpoint list option"

datatype request_action = DeployApp deploy_action | ConnectSubnet connect_subnet | AnotherAction string

text \<open>The fields after the success flag are texts.\<close>

datatype action_result =
    DeployAppResult string deploy_app_result
  | ConnectToSubnetActionResult string bool string string string

fun is_deploy_app :: "request_action \<Rightarrow> bool" where
  "is_deploy_app (DeployApp a) = True"
| "is_deploy_app a = False"

fun connect_subnet_of :: "request_action \<Rightarrow> connect_subnet option" where
  "connect_subnet_of (ConnectSubnet a) = Some a"
| "connect_subnet_of a = None"

definition network_actions_of :: "request_action list \<Rightarrow> connect_subnet list" where
  "network_actions_of actions = List.map_filter connect_subnet_of actions"

text \<open>
  \<^verbatim>\<open>single\<close> of \<^verbatim>\<open>cloudshell.cp.core.utils\<close> is a parameter: it gives the only element the predicate
  holds of and raises an exception when there is none or another one.
\<close>

type_synonym single_function = "request_action list \<Rightarrow> (request_action \<Rightarrow> bool) \<Rightarrow> exn + request_action"
type_synonym first_function = "string list \<Rightarrow> (string \<Rightarrow> bool) \<Rightarrow> string option"

definition single_law :: "single_function \<Rightarrow> bool" where
  "single_law single \<longleftrightarrow> (\<forall>xs P. case filter P xs of
     [x] \<Rightarrow> single xs P = Inr x | _ \<Rightarrow> (\<exists>e. single xs P = Inl e))"

definition the_deploy_action :: "single_function \<Rightarrow> request_action list \<Rightarrow> deploy_action prog" where
  "the_deploy_action single actions = bnd (raising (single actions is_deploy_app)) (\<lambda>a.
     case a of DeployApp d \<Rightarrow> Return d | _ \<Rightarrow> Raise (AttributeError ''actionParams''))"

definition provider_of :: "command_context \<Rightarrow> azure_provider prog" where
  "provider_of cc = convert_to_cloud_provider_resource_model (cc_resource cc)"

abbreviation operation_provider :: "azure_provider \<Rightarrow> cloud_provider" where
  "operation_provider cp \<equiv> cloud_provider.truncate cp"

section \<open>The sandbox\<close>

definition get_inventory_command :: "env \<Rightarrow> command_context \<Rightarrow> unit prog" where
  "get_inventory_command E cc = bnd (provider_of cc) (get_inventory E)"

definition prepare_connectivity_command ::
  "env \<Rightarrow> bool list \<Rightarrow> command_context \<Rightarrow> prepare_action list \<Rightarrow> prepare_result list prog"
where
  "prepare_connectivity_command E sched cc actions =
     bnd (provider_of cc) (\<lambda>cp.
     bnd (singleton_call cp) (\<lambda>azure_clients.
     thn (use_client StorageClient azure_clients)
     (thn (use_client ResourceClient azure_clients)
     (thn (use_client NetworkClient azure_clients)
     (prepare_connectivity E sched (cc_reservation cc) (operation_provider cp) actions)))))"

text \<open>The request is given by the actions of its \<^verbatim>\<open>driverRequest\<close>; \<open>None\<close> when it has none.\<close>

definition cleanup_connectivity_command ::
  "env \<Rightarrow> command_context \<Rightarrow> cleanup_action list option \<Rightarrow> cleanup_result list prog"
where
  "cleanup_connectivity_command E cc request =
     bnd (provider_of cc) (\<lambda>cp.
     bnd (singleton_call cp) (\<lambda>azure_clients.
     (let resource_group_name = rs_reservation_id (cc_reservation cc) in
     thn (use_client NetworkClient azure_clients)
     (thn (use_client ResourceClient azure_clients)
     (case request of
        None \<Rightarrow> Raise (none_attribute ''actions'')
      | Some actions \<Rightarrow>
          bnd (cleanup_connectivity E (operation_provider cp) resource_group_name actions) (\<lambda>result.
          Return [result]))))))"

text \<open>\<open>request\<close> is the text of the request, \<open>decoded\<close> what it decodes to.\<close>

definition create_route_tables ::
  "env \<Rightarrow> command_context \<Rightarrow> string \<Rightarrow> route_table_data list option \<Rightarrow> unit prog"
where
  "create_route_tables E cc request decoded =
     (let reservation_id = rs_reservation_id (cc_reservation cc);
          write = (\<lambda>text. call (Session (WriteMessageToReservationOutput reservation_id text))) in
      bnd (raising (convert_to_route_table_model decoded)) (\<lambda>route_table_request_models.
      bnd (provider_of cc) (\<lambda>cp.
      bnd (singleton_call cp) (\<lambda>azure_clients.
      for_each (\<lambda>model.
        thn (write request)
        (thn (for_each (\<lambda>rt. write (route_name rt)) (rtr_routes model))
        (thn (use_client NetworkClient azure_clients)
        (thn (create_sandbox_route_table E model (operation_provider cp) reservation_id) (Return ())))))
        route_table_request_models))))"

definition get_available_private_ip_command ::
  "env \<Rightarrow> command_context \<Rightarrow> string \<Rightarrow> string option \<Rightarrow> string prog"
where
  "get_available_private_ip_command E cc subnet_cidr owner =
     bnd (provider_of cc) (\<lambda>cp.
     bnd (singleton_call cp) (\<lambda>azure_clients.
     thn (use_client NetworkClient azure_clients)
     (get_available_private_ip E (operation_provider cp) (rs_reservation_id (cc_reservation cc)) subnet_cidr owner)))"

definition set_app_security_groups_command ::
  "env \<Rightarrow> ((nic \<times> string) list \<Rightarrow> (nic \<times> string) list) \<Rightarrow> command_context \<Rightarrow> app_security_group_data list \<Rightarrow>
     app_security_group_result list prog"
where
  "set_app_security_groups_command E items cc request =
     (let models = convert_to_app_security_group_models request;
          group_name = rs_reservation_id (cc_reservation cc) in
      bnd (provider_of cc) (\<lambda>cp.
      bnd (singleton_call cp) (\<lambda>azure_clients.
      thn (use_client ComputeClient azure_clients)
      (thn (use_client NetworkClient azure_clients)
      (set_apps_security_groups E items group_name models)))))"

section \<open>Deployments\<close>

text \<open>What both commands answer: the result of the deployment and one for each connection.\<close>

definition deployment_answer :: "deploy_action \<Rightarrow> connect_subnet list \<Rightarrow> deploy_app_result \<Rightarrow> action_result list" where
  "deployment_answer action network_actions results =
     DeployAppResult (da_action_id action) results #
     map (\<lambda>a. ConnectToSubnetActionResult (cs_action_id a) True [] [] []) network_actions"

definition deploy_azure_vm ::
  "env \<Rightarrow> single_function \<Rightarrow> first_function \<Rightarrow> command_context \<Rightarrow> request_action list \<Rightarrow> action_result list prog"
where
  "deploy_azure_vm E single first_or_default cc actions =
     bnd (the_deploy_action single actions) (\<lambda>action.
     (let network_actions = network_actions_of actions in
     bnd (convert_to_deploy_azure_vm_resource_model first_or_default action network_actions) (\<lambda>dm.
     bnd (provider_of cc) (\<lambda>cp.
     bnd (singleton_call cp) (\<lambda>azure_clients.
     thn (use_client NetworkClient azure_clients)
     (thn (use_client ComputeClient azure_clients)
     (thn (use_client StorageClient azure_clients)
     (bnd (deploy_from_marketplace E dm (operation_provider cp) (cc_reservation cc) (map cs_is_public network_actions))
       (\<lambda>results. Return (deployment_answer action network_actions results))))))))))"

definition deploy_vm_from_custom_image ::
  "env \<Rightarrow> single_function \<Rightarrow> first_function \<Rightarrow> command_context \<Rightarrow> request_action list \<Rightarrow> action_result list prog"
where
  "deploy_vm_from_custom_image E single first_or_default cc actions =
     bnd (the_deploy_action single actions) (\<lambda>action.
     (let network_actions = network_actions_of actions in
     bnd (convert_to_deploy_azure_vm_from_custom_image_resource_model first_or_default action network_actions) (\<lambda>dm.
     bnd (provider_of cc) (\<lambda>cp.
     bnd (singleton_call cp) (\<lambda>azure_clients.
     thn (use_client NetworkClient azure_clients)
     (thn (use_client ComputeClient azure_clients)
     (thn (use_client StorageClient azure_clients)
     (bnd (deploy_from_custom_image E dm (operation_provider cp) (cc_reservation cc) (map cs_is_public network_actions))
       (\<lambda>results. Return (deployment_answer action network_actions results))))))))))"

text \<open>\<^verbatim>\<open>AzureShellDriver.Deploy\<close> with its dictionary of deployments.\<close>

definition deployments ::
  "string \<Rightarrow> (env \<Rightarrow> single_function \<Rightarrow> first_function \<Rightarrow> command_context \<Rightarrow> request_action list \<Rightarrow> action_result list prog) option"
where
  "deployments = [''Azure VM From Marketplace'' \<mapsto> deploy_azure_vm,
     ''Azure VM From Custom Image'' \<mapsto> deploy_vm_from_custom_image]"

definition Deploy ::
  "env \<Rightarrow> single_function \<Rightarrow> first_function \<Rightarrow> command_context \<Rightarrow> request_action list \<Rightarrow> action_result list prog"
where
  "Deploy E single first_or_default cc actions =
     bnd (the_deploy_action single actions) (\<lambda>action.
     case deployments (da_deployment_path action) of
       Some deploy_method \<Rightarrow> deploy_method E single first_or_default cc actions
     | None \<Rightarrow> Raise (PyException ''Could not find the deployment''))"

section \<open>Deployed machines\<close>

fun is_not_found :: "exn \<Rightarrow> bool" where
  "is_not_found (CloudError reason m t) \<longleftrightarrow> reason = ''Not Found''"
| "is_not_found e \<longleftrightarrow> False"

definition delete_azure_vm :: "env \<Rightarrow> command_context \<Rightarrow> unit prog" where
  "delete_azure_vm E cc =
     (let resource_group_name = rs_reservation_id (cc_remote_reservation cc) in
      bnd (provider_of cc) (\<lambda>cp.
      bnd (singleton_call cp) (\<lambda>azure_clients.
      bnd (raising (first_endpoint (cc_remote_endpoints cc))) (\<lambda>endpoint.
      catch
        (thn (use_client ComputeClient azure_clients)
        (thn (use_client NetworkClient azure_clients)
        (thn (use_client StorageClient azure_clients)
        (DeleteVm.delete E resource_group_name (re_fullname endpoint)))))
        (\<lambda>e. if is_not_found e then Return () else Raise e)))))"

definition power_on_vm :: "env \<Rightarrow> command_context \<Rightarrow> unit prog" where
  "power_on_vm E cc =
     (let group_name = rs_reservation_id (cc_remote_reservation cc) in
      bnd (raising (first_endpoint (cc_remote_endpoints cc))) (\<lambda>endpoint.
      bnd (provider_of cc) (\<lambda>cp.
      bnd (singleton_call cp) (\<lambda>azure_clients.
      thn (use_client ComputeClient azure_clients)
      (power_on E group_name (re_fullname endpoint) (re_name endpoint) (re_custom_params endpoint))))))"

definition power_off_vm :: "env \<Rightarrow> command_context \<Rightarrow> unit prog" where
  "power_off_vm E cc =
     (let group_name = rs_reservation_id (cc_remote_reservation cc) in
      bnd (raising (first_endpoint (cc_remote_endpoints cc))) (\<lambda>endpoint.
      bnd (provider_of cc) (\<lambda>cp.
      bnd (singleton_call cp) (\<lambda>azure_clients.
      thn (use_client ComputeClient azure_clients)
      (power_off E group_name (re_name endpoint))))))"

definition refresh_ip_command :: "env \<Rightarrow> command_context \<Rightarrow> unit prog" where
  "refresh_ip_command E cc =
     bnd (raising (first_endpoint (cc_remote_endpoints cc))) (\<lambda>endpoint.
     (let group_name = rs_reservation_id (cc_remote_reservation cc) in
     bnd (get_private_ip_from_connected_resource_details (cc_remote_endpoints cc)) (\<lambda>private_ip.
     bnd (get_public_ip_tuple_attribute_from_connected_resource_details (cc_remote_endpoints cc)) (\<lambda>public_ip_attr.
     bnd (get_connected_resource_fullname (cc_remote_endpoints cc)) (\<lambda>resource_fullname.
     bnd (provider_of cc) (\<lambda>cp.
     bnd (singleton_call cp) (\<lambda>azure_clients.
     thn (use_client ComputeClient azure_clients)
     (thn (use_client NetworkClient azure_clients)
     (refresh_ip E group_name (re_name endpoint) private_ip public_ip_attr resource_fullname)))))))))"

definition get_access_key_command :: "env \<Rightarrow> command_context \<Rightarrow> string prog" where
  "get_access_key_command E cc =
     bnd (provider_of cc) (\<lambda>cp.
     bnd (singleton_call cp) (\<lambda>azure_clients.
     thn (use_client StorageClient azure_clients)
     (get_access_key E (rs_reservation_id (cc_remote_reservation cc)))))"

definition get_vm_details_command ::
  "env \<Rightarrow> command_context \<Rightarrow> details_request list \<Rightarrow> vm_details_data list prog"
where
  "get_vm_details_command E cc requests =
     bnd (provider_of cc) (\<lambda>cp.
     bnd (singleton_call cp) (\<lambda>azure_clients.
     thn (use_client ComputeClient azure_clients)
     (thn (use_client NetworkClient azure_clients)
     (get_vm_details E (rs_reservation_id (cc_reservation cc)) requests))))"

section \<open>The ports of a machine\<close>

definition get_vm_network_security_group_name :: "string \<Rightarrow> vm \<Rightarrow> string prog" where
  "get_vm_network_security_group_name resource_group_name machine =
     bnd (first (vm_network_interfaces machine)) (\<lambda>r.
     bnd (bnd (call (Network (GetNic resource_group_name (last_part (CHR ''/'') (nr_id r))))) (expect as_nic)) (\<lambda>first_nic.
     Return (last_part (CHR ''/'') (nic_network_security_group_id first_nic))))"

definition get_vm_nsg :: "env \<Rightarrow> clients_manager \<Rightarrow> string \<Rightarrow> string \<Rightarrow> nsg prog" where
  "get_vm_nsg E azure_clients resource_group_name name =
     bnd (bnd (get_vm E resource_group_name name) (expect as_vm)) (\<lambda>machine.
     bnd (get_vm_network_security_group_name resource_group_name machine) (\<lambda>nsg_of_machine.
     thn (use_client NetworkClient azure_clients)
     (bnd (call (Network (GetNsg resource_group_name nsg_of_machine))) (expect as_nsg))))"

text \<open>\<open>show_protocol\<close> is how the constants of the SDK for the protocols are printed.\<close>

definition rule_display :: "(protocol \<Rightarrow> string) \<Rightarrow> security_rule \<Rightarrow> string" where
  "rule_display show_protocol rule =
     (let port_or_ports = (if \<exists>x \<in> {'','', ''-'', ''*''}. py_in x (sr_destination_port_range rule) then ''s'' else []) in
      ''Port'' @ port_or_ports @ '': '' @ sr_destination_port_range rule @ '', Protocol: '' @
      show_protocol (sr_protocol rule) @ '', Destination: '' @ sr_destination_address_prefix rule)"

definition update_security_rules_display_strings :: "(protocol \<Rightarrow> string) \<Rightarrow> nsg \<Rightarrow> string list" where
  "update_security_rules_display_strings show_protocol vm_nsg =
     map (rule_display show_protocol) (filter (\<lambda>rule. py_startswith (sr_name rule) ''rule_'') (nsg_security_rules vm_nsg))"

definition get_application_ports :: "env \<Rightarrow> (protocol \<Rightarrow> string) \<Rightarrow> command_context \<Rightarrow> string prog" where
  "get_application_ports E show_protocol cc =
     bnd (provider_of cc) (\<lambda>cp.
     bnd (singleton_call cp) (\<lambda>azure_clients.
     thn (use_client ComputeClient azure_clients)
     (thn (use_client NetworkClient azure_clients)
     (bnd (raising (first_endpoint (cc_remote_endpoints cc))) (\<lambda>endpoint.
     bnd (get_allow_all_storage_traffic_from_connected_resource_details (cc_remote_endpoints cc)) (\<lambda>allow_sandbox_traffic.
     bnd (get_vm_nsg E azure_clients (rs_reservation_id (cc_remote_reservation cc)) (re_fullname endpoint)) (\<lambda>vm_nsg.
     Return (py_strip (py_join [CHR 0x0A]
       ([''App Name: '' @ re_fullname endpoint,
         ''Allow Sandbox Traffic: '' @ (case allow_sandbox_traffic of None \<Rightarrow> ''None'' | Some t \<Rightarrow> t)] @
        update_security_rules_display_strings show_protocol vm_nsg))))))))))"
section \<open>What deployments answer\<close>

text \<open>A run that returns ends with events that \<open>R\<close> holds of, and so does the result.\<close>

definition ends_in :: "(event list \<Rightarrow> 'a \<Rightarrow> bool) \<Rightarrow> 'a prog \<Rightarrow> bool" where
  "ends_in R p \<longleftrightarrow> (\<forall>es x. exec p es (Ok x) \<longrightarrow> (\<exists>es1 es2. es = es1 @ es2 \<and> R es2 x))"

lemma ends_in_then: "(\<And>x. ends_in R (f x)) \<Longrightarrow> ends_in R (bnd p f)"
  unfolding ends_in_def
proof (intro allI impI, erule exec_bnd_OkE)
  fix es y es1 x es2
  assume "\<And>x. \<forall>es y. exec (f x) es (Ok y) \<longrightarrow> (\<exists>es1 es2. es = es1 @ es2 \<and> R es2 y)" "exec (f x) es2 (Ok y)"
    and es: "es = es1 @ es2"
  then obtain es3 es4 where "es2 = es3 @ es4" "R es4 y" by blast
  then show "\<exists>es1 es2. es = es1 @ es2 \<and> R es2 y" by (intro exI [of _ "es1 @ es3"] exI [of _ es4]) (simp add: es)
qed

lemma ends_in_last: "(\<And>es r. exec p es (Ok r) \<Longrightarrow> R es (g r)) \<Longrightarrow> ends_in R (bnd p (\<lambda>r. Return (g r)))"
  unfolding ends_in_def by (fastforce simp: exec_bnd exec_simps)

text \<open>The answer to a deployment of \<open>action\<close>, from the run of the operation.\<close>

definition answers_deployment :: "env \<Rightarrow> command_context \<Rightarrow> connect_subnet list \<Rightarrow> deploy_action \<Rightarrow> event list \<Rightarrow> action_result list \<Rightarrow> bool" where
  "answers_deployment E cc connections action es results \<longleftrightarrow>
     (\<exists>act dm cp result. act \<in> {create_vm_custom_image_action, create_vm_marketplace_action} \<and>
       exec (deploy_vm_generic E act dm cp (cc_reservation cc) (map cs_is_public connections)) es (Ok result) \<and>
       results = DeployAppResult (da_action_id action) result #
         map (\<lambda>a. ConnectToSubnetActionResult (cs_action_id a) True [] [] []) connections)"

lemma single_deploy_action:
  assumes "single_law single"
  obtains (one) a where "filter is_deploy_app actions = [DeployApp a]" "the_deploy_action single actions = Return a"
  | (other) e where "\<And>a. filter is_deploy_app actions \<noteq> [DeployApp a]" "the_deploy_action single actions = Raise e"
proof -
  have law: "case filter is_deploy_app actions of
     [x] \<Rightarrow> single actions is_deploy_app = Inr x | _ \<Rightarrow> (\<exists>e. single actions is_deploy_app = Inl e)"
    using assms by (simp add: single_law_def)
  show thesis
  proof (cases "\<exists>x. filter is_deploy_app actions = [x]")
    case True
    then obtain x where x: "filter is_deploy_app actions = [x]" by blast
    then have "x \<in> set (filter is_deploy_app actions)" by simp
    then have "is_deploy_app x" by simp
    then obtain a where "x = DeployApp a" by (cases x) auto
    with law x one show thesis by (simp add: the_deploy_action_def raising_def)
  next
    case False
    with law have "\<exists>e. single actions is_deploy_app = Inl e" by (auto split: list.splits)
    with other False show thesis by (auto simp: the_deploy_action_def raising_def)
  qed
qed

lemma deployment_run_answers:
  "exec (deploy_from_marketplace E dm cp (cc_reservation cc) (map cs_is_public connections)) es (Ok result) \<Longrightarrow>
   answers_deployment E cc connections action es (deployment_answer action connections result)"
  "exec (deploy_from_custom_image E dm cp (cc_reservation cc) (map cs_is_public connections)) es (Ok result) \<Longrightarrow>
   answers_deployment E cc connections action es (deployment_answer action connections result)"
  unfolding answers_deployment_def deployment_answer_def deploy_from_marketplace_def deploy_from_custom_image_def
  by blast+

lemma deploy_commands_answer:
  assumes "the_deploy_action single actions = Return a"
  shows "ends_in (answers_deployment E cc (network_actions_of actions) a) (deploy_azure_vm E single fod cc actions)"
    "ends_in (answers_deployment E cc (network_actions_of actions) a) (deploy_vm_from_custom_image E single fod cc actions)"
  unfolding deploy_azure_vm_def deploy_vm_from_custom_image_def assms bnd.simps Let_def
  by (rule ends_in_then, rule ends_in_then, rule ends_in_then, rule ends_in_then, rule ends_in_then, rule ends_in_then,
      rule ends_in_last, erule deployment_run_answers)+


text \<open>
  A request without exactly one action to deploy an app, or with an unknown deployment path, is
  turned down with an exception before anything is called.
\<close>

lemma unknown_deployment_refused:
  assumes "single_law single"
    "\<And>a. filter is_deploy_app actions = [DeployApp a] \<Longrightarrow>
       da_deployment_path a \<notin> {''Azure VM From Marketplace'', ''Azure VM From Custom Image''}"
    "exec (Deploy E single fod cc actions) es out"
  shows "es = [] \<and> (\<exists>e. out = Err e)"
proof (rule single_deploy_action [OF assms(1), of actions])
  fix a
  assume a: "filter is_deploy_app actions = [DeployApp a]" "the_deploy_action single actions = Return a"
  have "deployments (da_deployment_path a) = None" using assms(2) [OF a(1)] by (simp add: deployments_def)
  then show ?thesis using assms(3) by (simp add: Deploy_def a(2) exec_simps)
next
  fix e
  assume "the_deploy_action single actions = Raise e"
  then show ?thesis using assms(3) by (simp add: Deploy_def exec_simps)
qed
section \<open>Commands that only read\<close>

text \<open>
  Reading machines, network cards, addresses, security groups and the storage of a resource group.
  The CloudShell session, the runtime and the memory of the driver are not part of Azure.
\<close>

fun network_group :: "network_request \<Rightarrow> string option" where
  "network_group (GetNic g n) = Some g"
| "network_group (GetPublicIp g n) = Some g"
| "network_group (GetNsg g n) = Some g"
| "network_group q = None"

fun storage_reads :: "string \<Rightarrow> storage_request \<Rightarrow> bool" where
  "storage_reads g (ListStorageAccounts grp) \<longleftrightarrow> grp = g"
| "storage_reads g (ListStorageKeys grp n) \<longleftrightarrow> grp = g"
| "storage_reads g (NewFileService n k) \<longleftrightarrow> True"
| "storage_reads g (GetFile s h d f) \<longleftrightarrow> True"
| "storage_reads g q \<longleftrightarrow> False"

fun reads_group :: "string \<Rightarrow> request \<Rightarrow> bool" where
  "reads_group g (Network q) \<longleftrightarrow> network_group q = Some g"
| "reads_group g (Compute q) \<longleftrightarrow> (\<exists>n. q = GetVm g n)"
| "reads_group g (Resource q) \<longleftrightarrow> False"
| "reads_group g (Storage q) \<longleftrightarrow> storage_reads g q"
| "reads_group g (Poller q) \<longleftrightarrow> False"
| "reads_group g (Session q) \<longleftrightarrow> True"
| "reads_group g (Runtime q) \<longleftrightarrow> True"
| "reads_group g (Memory q) \<longleftrightarrow> True"

lemma emits_attr [emits_intros]: "emits P (attr d k)"
  unfolding attr_def by (auto intro!: emits_intros split: option.split)

lemma emits_provider_of [emits_intros]:
  "(\<And>q v. P (Session q, v)) \<Longrightarrow> emits P (provider_of cc)"
  unfolding provider_of_def convert_to_cloud_provider_resource_model_def by (intro emits_intros)

lemma emits_clients [emits_intros]:
  assumes "\<And>q v. P (Memory q, v)" "\<And>q v. P (Runtime q, v)"
  shows "emits P (singleton_call cp)" "emits P (use_client kind m)"
  unfolding singleton_call_def new_clients_manager_def use_client_def client_property_def find_client_def Let_def
  by (auto intro!: emits_intros assms split: option.split)

lemma emits_endpoints [emits_intros]:
  "emits P (get_private_ip_from_connected_resource_details eps)"
  "emits P (get_public_ip_tuple_attribute_from_connected_resource_details eps)"
  "emits P (get_connected_resource_fullname eps)"
  "emits P (get_allow_all_storage_traffic_from_connected_resource_details eps)"
  unfolding get_private_ip_from_connected_resource_details_def get_connected_resource_fullname_def
    get_public_ip_tuple_attribute_from_connected_resource_details_def
    get_allow_all_storage_traffic_from_connected_resource_details_def
  by (auto intro!: emits_intros)

lemma reads_storage:
  assumes "retry_law E"
  shows "emits (\<lambda>ev. reads_group g (fst ev)) (get_storage_account_key E g s)"
    "emits (\<lambda>ev. reads_group g (fst ev)) (get_file E g s sh d f)"
    "emits (\<lambda>ev. reads_group g (fst ev)) (get_sandbox_storage_account_name E g)"
proof -
  show key: "emits (\<lambda>ev. reads_group g (fst ev)) (get_storage_account_key E g s)" for s
    by (rule emits_get_storage_account_key [OF assms]) simp_all
  have "emits (\<lambda>ev. reads_group g (fst ev)) (get_file_service E g s)"
    unfolding get_file_service_def by (auto intro!: emits_intros key)
  then show "emits (\<lambda>ev. reads_group g (fst ev)) (get_file E g s sh d f)"
    unfolding get_file_def by (auto intro!: emits_intros retried_intros assms)
  show "emits (\<lambda>ev. reads_group g (fst ev)) (get_sandbox_storage_account_name E g)"
    unfolding get_sandbox_storage_account_name_def get_storage_per_resource_group_def
    by (auto intro!: emits_intros retried_intros assms split: sum.split)
qed

lemma reads_access_key:
  "retry_law E \<Longrightarrow> emits (\<lambda>ev. reads_group g (fst ev)) (get_access_key E g)"
  unfolding get_access_key_def get_key_pair_def read_key_file_def Let_def
  by (auto intro!: emits_intros reads_storage)

lemma reads_vm_details:
  "retry_law E \<Longrightarrow> emits (\<lambda>ev. reads_group g (fst ev)) (get_vm_details E g rs)"
proof (induction rs)
  case (Cons r rs)
  then show ?case
    by (auto simp: get_one_vm_details_def Let_def intro!: emits_intros emits_get_vm emits_vm_details_create)
qed (simp add: emits_intros)

lemma reads_addresses:
  "retry_law E \<Longrightarrow> emits (\<lambda>ev. reads_group g (fst ev)) (refresh_ip E g n priv pub full)"
  unfolding refresh_ip_def addresses_on_azure_def primary_nic_ref_def get_active_vm_def
  by (auto intro!: emits_intros emits_get_vm split: option.split)

lemma queries_read:
  assumes "retry_law E"
  shows "emits (\<lambda>ev. reads_group (rs_reservation_id (cc_remote_reservation cc)) (fst ev)) (refresh_ip_command E cc)"
    "emits (\<lambda>ev. reads_group (rs_reservation_id (cc_remote_reservation cc)) (fst ev)) (get_access_key_command E cc)"
    "emits (\<lambda>ev. reads_group (rs_reservation_id (cc_reservation cc)) (fst ev)) (get_vm_details_command E cc requests)"
    "emits (\<lambda>ev. reads_group (rs_reservation_id (cc_remote_reservation cc)) (fst ev)) (get_application_ports E text_of cc)"
  unfolding get_application_ports_def get_vm_nsg_def get_vm_network_security_group_name_def get_access_key_command_def
    refresh_ip_command_def get_vm_details_command_def Let_def
  by (auto intro!: emits_intros emits_get_vm reads_access_key reads_addresses reads_vm_details assms)

text \<open>
  C37: Asking for the ports, the details and the access key of machines and refreshing their addresses
  changes nothing on Azure, and reads the resource group of the reservation of the command only.
\<close>

theorem queries_only_read:
  assumes "retry_law E"
  shows "emits (\<lambda>ev. reads_group (rs_reservation_id (cc_remote_reservation cc)) (fst ev)) (get_application_ports E text_of cc) \<and>
    emits (\<lambda>ev. reads_group (rs_reservation_id (cc_remote_reservation cc)) (fst ev)) (get_access_key_command E cc) \<and>
    emits (\<lambda>ev. reads_group (rs_reservation_id (cc_remote_reservation cc)) (fst ev)) (refresh_ip_command E cc) \<and>
    emits (\<lambda>ev. reads_group (rs_reservation_id (cc_reservation cc)) (fst ev)) (get_vm_details_command E cc requests)"
  by (intro conjI queries_read assms)

section \<open>A deployment that is answered\<close>

text \<open>A run that returns \<open>x\<close> exists.\<close>

definition returns :: "'a prog \<Rightarrow> 'a \<Rightarrow> bool" where
  "returns p x \<longleftrightarrow> (\<exists>es. exec p es (Ok x))"

lemma returns_bnd: "returns p x \<Longrightarrow> returns (f x) y \<Longrightarrow> returns (bnd p f) y"
  unfolding returns_def by (blast intro: exec_bnd_OkI)

lemma returns_outcome: "outcome_of f p = Ok x \<Longrightarrow> returns p x"
  unfolding returns_def by (blast intro: exec_run_of)

definition sample_attributes :: dict where
  "sample_attributes = [(''Azure Application ID'', ''app''), (''Azure Subscription ID'', ''sub''),
     (''Azure Tenant ID'', ''tenant''), (''VM Size'', ''A1''), (''Region'', ''West US''),
     (''Management Group Name'', ''mgmt''), (''Private IP Allocation Method'', ''Azure Allocation''),
     (''Networks In Use'', []), (''Additional Mgmt Networks'', ''10.9.0.0/16''), (''Azure Application Key'', ''key'')]"

definition sample_context :: command_context where
  "sample_context = \<lparr>cc_resource = sample_attributes, cc_reservation = sample_reservation,
     cc_remote_reservation = sample_reservation, cc_remote_endpoints = None\<rparr>"

definition sample_action :: deploy_action where
  "sample_action = \<lparr>da_action_id = ''a1'', da_deployment_path = ''Azure VM From Marketplace'',
     da_attributes = [(''Add Public IP'', ''False''), (''Autoload'', ''True''), (''Inbound Ports'', ''80''), (''VM Size'', ''A1''),
       (''Disk Size'', ''100''), (''Public IP Type'', ''Dynamic''), (''Extension Script file'', []),
       (''Extension Script Configurations'', []), (''Extension Script Timeout'', ''600''), (''Disk Type'', ''SSD''),
       (''Allow all Sandbox Traffic'', ''False''), (''Image Offer'', ''o''), (''Image Publisher'', ''p''), (''Image SKU'', ''s''),
       (''Image Version'', ''latest'')],
     da_app_name = ''app'', da_app_attributes = [(''Namespace.User'', ''me''), (''Password'', ''pass'')]\<rparr>"

text \<open>The services sign in and hand out clients, and passwords are not encrypted.\<close>

definition signed_in :: "request \<Rightarrow> answer" where
  "signed_in q = (case q of
     Session (DecryptPassword p) \<Rightarrow> Inr (RStr p)
   | Memory (FindClient m k) \<Rightarrow> Inr (RInt 1)
   | r \<Rightarrow> Inr RNone)"

definition single_action :: single_function where
  "single_action xs P = (case filter P xs of [x] \<Rightarrow> Inr x | _ \<Rightarrow> Inl (PyException ''not a single element''))"

lemma single_law_single_action: "single_law single_action"
  by (auto simp: single_law_def single_action_def split: list.split)

lemma sample_command_model:
  "outcome_of signed_in (convert_to_deploy_azure_vm_resource_model (\<lambda>xs P. find P xs) sample_action []) = Ok (sample_app ''100'')"
  by code_simp

lemma sample_command_provider:
  "\<exists>cp. outcome_of signed_in (provider_of sample_context) = Ok cp \<and> operation_provider cp = sample_provider [''10.9.0.0/16'']"
  by (rule exI [of _ "cloud_provider.extend (sample_provider [''10.9.0.0/16'']) \<lparr>ap_azure_application_id = ''app'',
    ap_azure_application_key = ''key'', ap_azure_subscription_id = ''sub'', ap_azure_tenant = ''tenant'', ap_networks_in_use = []\<rparr>"])
    code_simp


lemma signed_in_answers:
  "signed_in (Memory (FindClient m k)) = Inr (RInt 1)" "signed_in (Memory FindInstance) = Inr RNone"
  "signed_in (Memory (PutInstance m)) = Inr RNone" "signed_in (Runtime (Authenticate a b t)) = Inr RNone"
  by (simp_all add: signed_in_def)

lemma signed_in_outcomes:
  "outcome_of signed_in (singleton_call cp) = Ok (credentials_of_provider cp)"
  "outcome_of signed_in (use_client kind m) = Ok ()"
  by (simp_all add: singleton_call_def new_clients_manager_def use_client_def client_property_def find_client_def Let_def
    signed_in_answers result_simps cong: result_congs)

lemma no_connections: "deploy_vm_generic E act dm cp rs [] = deploy_vm_generic E act dm cp rs [True]"
  by (simp add: deploy_vm_generic_def prepare_deploy_data_def validate_deployment_model_def all_private_def)

lemma sample_deployment_answered:
  "\<exists>result. returns (Deploy sample_env single_action (\<lambda>xs P. find P xs) sample_context [DeployApp sample_action])
     [DeployAppResult ''a1'' result]"
proof -
  obtain result where result: "outcome_of sample_azure (sample_deployment ''100'') = Ok result"
    by (rule sample_deployment_returns)
  obtain cp where cp: "outcome_of signed_in (provider_of sample_context) = Ok cp"
      "operation_provider cp = sample_provider [''10.9.0.0/16'']"
    using sample_command_provider by blast
  have single: "the_deploy_action single_action [DeployApp sample_action] = Return sample_action"
    by (simp add: the_deploy_action_def single_action_def raising_def)
  have deploys: "deployments (da_deployment_path sample_action) = Some deploy_azure_vm"
    by (simp add: deployments_def sample_action_def)
  have deployed: "returns (deploy_from_marketplace sample_env (sample_app ''100'') (operation_provider cp)
      (cc_reservation sample_context) []) result"
    using returns_outcome [OF result]
    by (simp add: sample_deployment_def deploy_from_marketplace_def no_connections cp(2) sample_context_def)
  have "returns (deploy_azure_vm sample_env single_action (\<lambda>xs P. find P xs) sample_context [DeployApp sample_action])
     (deployment_answer sample_action [] result)"
    unfolding deploy_azure_vm_def single bnd.simps Let_def
    by (simp add: network_actions_of_def map_filter_simps)
      (rule returns_bnd [OF returns_outcome [OF sample_command_model]], rule returns_bnd [OF returns_outcome [OF cp(1)]],
        rule returns_bnd [OF returns_outcome [OF signed_in_outcomes(1)]],
        rule returns_bnd [OF returns_outcome [OF signed_in_outcomes(2)]],
        rule returns_bnd [OF returns_outcome [OF signed_in_outcomes(2)]],
        rule returns_bnd [OF returns_outcome [OF signed_in_outcomes(2)]],
        rule returns_bnd [OF deployed], simp add: returns_def exec_simps)
  then show ?thesis
    unfolding Deploy_def single bnd.simps deploys option.case
    by (auto simp: deployment_answer_def sample_action_def)
qed


definition unknown_action :: deploy_action where
  "unknown_action = sample_action\<lparr>da_deployment_path := ''Elsewhere''\<rparr>"

lemma unknown_deployment_refused_witness:
  "\<exists>es out. exec (Deploy sample_env single_action (\<lambda>xs P. find P xs) sample_context [DeployApp unknown_action]) es out \<and>
     es = [] \<and> (\<exists>e. out = Err e)"
proof -
  obtain es out where run: "exec (Deploy sample_env single_action (\<lambda>xs P. find P xs) sample_context
      [DeployApp unknown_action]) es out"
    using exec_total by blast
  have unknown: "da_deployment_path a \<notin> {''Azure VM From Marketplace'', ''Azure VM From Custom Image''}"
    if "filter is_deploy_app [DeployApp unknown_action] = [DeployApp a]" for a
    using that by (auto simp: unknown_action_def)
  show ?thesis
    by (rule exI, rule exI, rule conjI [OF run], rule unknown_deployment_refused [OF single_law_single_action unknown run])
qed

theorem queries_only_read_witness:
  "emits (\<lambda>ev. reads_group ''r-1'' (fst ev)) (get_application_ports sample_env protocol_text sample_context) \<and>
   emits (\<lambda>ev. reads_group ''r-1'' (fst ev)) (get_access_key_command sample_env sample_context) \<and>
   emits (\<lambda>ev. reads_group ''r-1'' (fst ev)) (refresh_ip_command sample_env sample_context) \<and>
   emits (\<lambda>ev. reads_group ''r-1'' (fst ev)) (get_vm_details_command sample_env sample_context [])"
  using queries_only_read [OF sample_env_law, of sample_context protocol_text "[]"]
  by (simp add: sample_context_def sample_reservation_def)

end
