(* ===== verification/Driver.thy ===== *)
theory Driver
  imports Shell
begin

text \<open>
  \<^verbatim>\<open>drivers/azure_shell/driver.py\<close>: the commands of the driver as one datatype, with what each of them
  runs; and what they can change on Azure: nothing outside the sandbox of the command but subnets of the
  network the sandboxes share.
\<close>

section \<open>The commands\<close>

text \<open>Requests are given in their decoded form. The arguments that are not used are left out.\<close>

datatype driver_command =
    Initialize
  | Cleanup
  | DeployRequest "request_action list"
  | CreateRouteTables string "route_table_data list option"
  | PowerOn
  | PowerOff
  | PowerCycle
  | RemoteRefreshIp
  | DeleteInstance
  | PrepareSandboxInfra "prepare_action list"
  | CleanupSandboxInfra "cleanup_action list option"
  | GetApplicationPorts
  | GetInventory
  | GetAccessKey
  | GetVmDetails "details_request list"
  | SetAppSecurityGroups "app_security_group_data list"
  | GetAvailablePrivateIP string "string option"

datatype driver_answer =
    NoAnswer
  | ActionResults "action_result list"
  | PrepareResults "prepare_result list"
  | CleanupResults "cleanup_result list"
  | TextAnswer string
  | VmDetailsAnswer "vm_details_data list"
  | AppSecurityGroupResults "app_security_group_result list"

text \<open>
  What the commands use that is not part of the repository: the functions \<^verbatim>\<open>single\<close> and
  \<^verbatim>\<open>first_or_default\<close>, the schedule of the thread that makes the keys, the order of dictionary items, and
  how the constants for protocols are printed.
\<close>

record surroundings =
  su_env :: env
  su_single :: single_function
  su_first_or_default :: first_function
  su_schedule :: "bool list"
  su_items :: "(nic \<times> string) list \<Rightarrow> (nic \<times> string) list"
  su_show_protocol :: "protocol \<Rightarrow> string"

definition answering :: "('a \<Rightarrow> driver_answer) \<Rightarrow> 'a prog \<Rightarrow> driver_answer prog" where
  "answering f p = bnd p (\<lambda>x. Return (f x))"

fun run_command :: "surroundings \<Rightarrow> command_context \<Rightarrow> driver_command \<Rightarrow> driver_answer prog" where
  "run_command S cc Initialize = Return NoAnswer"
| "run_command S cc Cleanup = Return NoAnswer"
| "run_command S cc (DeployRequest actions) =
     answering ActionResults (Deploy (su_env S) (su_single S) (su_first_or_default S) cc actions)"
| "run_command S cc (CreateRouteTables request decoded) =
     answering (\<lambda>_. NoAnswer) (create_route_tables (su_env S) cc request decoded)"
| "run_command S cc PowerOn = answering (\<lambda>_. NoAnswer) (power_on_vm (su_env S) cc)"
| "run_command S cc PowerOff = answering (\<lambda>_. NoAnswer) (power_off_vm (su_env S) cc)"
| "run_command S cc PowerCycle = Return NoAnswer"
| "run_command S cc RemoteRefreshIp = answering (\<lambda>_. NoAnswer) (refresh_ip_command (su_env S) cc)"
| "run_command S cc DeleteInstance = answering (\<lambda>_. NoAnswer) (delete_azure_vm (su_env S) cc)"
| "run_command S cc (PrepareSandboxInfra actions) =
     answering PrepareResults (prepare_connectivity_command (su_env S) (su_schedule S) cc actions)"
| "run_command S cc (CleanupSandboxInfra actions) =
     answering CleanupResults (cleanup_connectivity_command (su_env S) cc actions)"
| "run_command S cc GetApplicationPorts =
     answering TextAnswer (get_application_ports (su_env S) (su_show_protocol S) cc)"
| "run_command S cc GetInventory = answering (\<lambda>_. NoAnswer) (get_inventory_command (su_env S) cc)"
| "run_command S cc GetAccessKey = answering TextAnswer (get_access_key_command (su_env S) cc)"
| "run_command S cc (GetVmDetails requests) =
     answering VmDetailsAnswer (get_vm_details_command (su_env S) cc requests)"
| "run_command S cc (SetAppSecurityGroups request) =
     answering AppSecurityGroupResults (set_app_security_groups_command (su_env S) (su_items S) cc request)"
| "run_command S cc (GetAvailablePrivateIP subnet_cidr owner) =
     answering TextAnswer (get_available_private_ip_command (su_env S) cc subnet_cidr owner)"

section \<open>What a call changes\<close>

text \<open>The resource group that a call changes, if it changes one.\<close>

fun changed_group :: "request \<Rightarrow> string option" where
  "changed_group (Network (PutNsg g n r t)) = Some g"
| "changed_group (Network (DeleteNsg g n)) = Some g"
| "changed_group (Network (PutRule g n k r)) = Some g"
| "changed_group (Network (DeleteRule g n k)) = Some g"
| "changed_group (Network (PutNic g n p)) = Some g"
| "changed_group (Network (DeleteNic g n)) = Some g"
| "changed_group (Network (PutPublicIp g n r a t)) = Some g"
| "changed_group (Network (DeletePublicIp g n)) = Some g"
| "changed_group (Network (PutVnet g n r t c sn sc nsg)) = Some g"
| "changed_group (Network (PutSubnet g n s p)) = Some g"
| "changed_group (Network (DeleteSubnet g n s)) = Some g"
| "changed_group (Network (PutRouteTable g n r rs)) = Some g"
| "changed_group (Network q) = None"
| "changed_group (Compute (PutVm g n p)) = Some g"
| "changed_group (Compute (DeleteVm g n)) = Some g"
| "changed_group (Compute (StartVm g n)) = Some g"
| "changed_group (Compute (DeallocateVm g n)) = Some g"
| "changed_group (Compute (DeleteDisk g n)) = Some g"
| "changed_group (Compute (PutExtension g n e p)) = Some g"
| "changed_group (Compute q) = None"
| "changed_group (Resource (PutResourceGroup g r t)) = Some g"
| "changed_group (Resource (DeleteResourceGroup g)) = Some g"
| "changed_group (Resource q) = None"
| "changed_group (Storage (CreateStorageAccount g n r t)) = Some g"
| "changed_group q = None"

text \<open>Only groups of \<open>G\<close> change, and of those of \<open>M\<close> only the subnets.\<close>

definition within :: "string set \<Rightarrow> string set \<Rightarrow> event \<Rightarrow> bool" where
  "within G M ev \<longleftrightarrow> (\<forall>g. changed_group (fst ev) = Some g \<longrightarrow> g \<in> G \<or> g \<in> M \<and> is_subnet_change (fst ev))"

lemma within_same [simp]: "changed_group q = None \<Longrightarrow> within G M (q, v)"
  by (simp add: within_def)

lemma within_group [simp]: "changed_group q = Some g \<Longrightarrow> g \<in> G \<Longrightarrow> within G M (q, v)"
  by (simp add: within_def)

lemma within_subnet [simp]: "changed_group q = Some g \<Longrightarrow> is_subnet_change q \<Longrightarrow> g \<in> M \<Longrightarrow> within G M (q, v)"
  by (simp add: within_def)

lemma within_mono: "within G M ev \<Longrightarrow> G \<subseteq> G' \<Longrightarrow> M \<subseteq> M' \<Longrightarrow> within G' M' ev"
  by (auto simp: within_def)

lemma within_reads: "reads_group h (fst ev) \<Longrightarrow> within G M ev"
  by (cases "fst ev"; cases ev; elim reads_group.elims; auto simp: within_def elim!: network_group.elims storage_reads.elims)

section \<open>Deployments stay in their group\<close>

lemma within_credentials:
  assumes "retry_law E"
  shows "emits (within G M) (prepare_credentials E t u p g s)"
proof -
  have account: "emits (within G M) (get_storage_account_key E g s)" for g s
    by (rule emits_get_storage_account_key [OF assms]) auto
  have service: "emits (within G M) (get_file_service E g s)" for g s
    unfolding get_file_service_def by (auto intro!: emits_intros account)
  show ?thesis
    unfolding prepare_credentials_def prepare_linux_credentials_def prepare_windows_credentials_def
      get_ssh_key_def get_key_pair_def read_key_file_def get_file_def Let_def
    by (auto intro!: emits_intros retried_intros service assms)
qed

lemma within_vm_actions:
  assumes "retry_law E" "dd_group_name d \<in> G"
  shows "emits (within G M) (create_vm_custom_image_action E dm cp d)"
    "emits (within G M) (create_vm_marketplace_action E dm cp d)"
  unfolding create_vm_custom_image_action_def create_vm_marketplace_action_def credentials_of_def
    create_vm_from_custom_image_def create_vm_from_marketplace_def
  by (auto intro!: emits_intros emits_create_vm assms(1) simp: assms(2)
      split: deployment_image.split image_data.split option.split sum.split)

lemma within_script:
  assumes "retry_law E" "dd_group_name d \<in> G"
  shows "emits (within G M) (create_vm_custom_script_extension E cp dm d)"
  unfolding create_vm_custom_script_extension_def create_script_extension_def Let_def
  by (auto intro!: emits_intros retried_intros assms(1) simp: assms(2))

lemma within_common_objects:
  assumes "retry_law E" "dd_group_name data \<in> G"
  shows "emits (within G M) (prepare_common_objects E cp dm data)"
  unfolding prepare_common_objects_def create_vm_network_security_group_def get_management_vnet_cidr_def Let_def
  by (auto intro!: emits_intros emits_get_sandbox_virtual_network emits_get_virtual_networks
      emits_create_network_security_group emits_create_network_security_group_rules assms(1) simp: assms(2)
      split: option.split)

lemma within_nics:
  assumes "retry_law E" "dd_group_name data \<in> G"
  shows "emits (within G M) (create_requested_nics E cp dm nsg n rules l data inrs)"
  using assms(2)
proof (induction inrs arbitrary: data)
  case (Cons a inrs)
  obtain i nr where a: "a = (i, nr)" by (cases a)
  have nic: "emits (within G M) (create_requested_nic E cp dm data nsg nr)"
    unfolding create_requested_nic_def Let_def
    by (auto intro!: emits_intros emits_create_network_for_vm assms(1) simp: Cons.prems split: option.split)
  have rules: "emits (within G M) (create_network_security_group_rules E (dd_group_name data) n rds ip l st src)" for rds ip st src
    by (intro emits_create_network_security_group_rules assms(1)) (simp_all add: Cons.prems)
  have rest: "emits (within G M) (create_requested_nics E cp dm nsg n rules l (nic_created i k ip data) inrs)" for k ip
    by (rule Cons.IH) (simp add: nic_created_def Cons.prems)
  have same: "dd_group_name (nic_created i k ip data) = dd_group_name data" for k ip
    by (simp add: nic_created_def)
  show ?case
    unfolding a create_requested_nics.simps Let_def
    by (intro emits_bnd emits_attempt nic) (auto intro!: emits_intros rules rest simp: same split: sum.split)
qed (simp add: emits_intros)

lemma within_deployment:
  assumes "retry_law E" "act \<in> {create_vm_custom_image_action, create_vm_marketplace_action}"
    "dd_group_name data \<in> G"
  shows "emits (within G M) (deploy_steps E act dm cp data)"
proof -
  have nics: "emits (within G M) (create_requested_nics E cp dm nsg n rules l (data\<lparr>dd_nics := []\<rparr>) inrs)" for nsg n rules l inrs
    by (rule within_nics [OF assms(1)]) (simp add: assms(3))
  have common: "emits (within G M) (create_vm_common_objects E cp dm data)"
    unfolding create_vm_common_objects_def prepare_vm_credentials_def
    by (auto intro!: emits_intros within_common_objects nics within_credentials assms split: sum.split prod.split)
  have same: "dd_group_name d \<in> G" if "same_deployment data d" for d
    using that assms(3) by (simp add: same_deployment_def)
  have rest: "emits (within G M) (act E dm cp d)" "emits (within G M) (create_vm_custom_script_extension E cp dm d)"
    if "same_deployment data d" for d
    using assms(2) within_vm_actions [OF assms(1) same [OF that]] within_script [OF assms(1) same [OF that]] by auto
  show ?thesis
    unfolding deploy_steps_def
    by (rule emits_bnd_yields [OF common yields_create_vm_common_objects])
      (auto intro!: emits_intros rest split: sum.split)
qed

lemma within_prepare_deploy_data:
  assumes "retry_law E"
  shows "emits (within G M) (prepare_deploy_data E rs dm cp nas)"
proof -
  have account: "emits (within G M) (get_sandbox_storage_account_name E g)" for g
    by (rule emits_mono [OF reads_storage(3) [OF assms] within_reads])
  have image: "emits (within G M) (get_image_data_model E region d)" for region d
    by (cases d) (auto simp: get_virtual_machine_image_def intro!: emits_intros retried_intros assms)
  show ?thesis
    unfolding prepare_deploy_data_def get_nic_requests_def generate_short_unique_string_def prepare_computer_name_def Let_def
    by (auto intro!: emits_intros image account emits_get_sandbox_virtual_network assms split: option.split)
qed

lemma yields_deployment_group:
  "yields (\<lambda>d. dd_group_name d = rs_reservation_id rs) (prepare_deploy_data E rs dm cp nas)"
  unfolding prepare_deploy_data_def
  by (auto intro!: yields_bnd [OF yields_any] simp: yields_simps split: option.split)

lemma within_rollback:
  assumes "retry_law E" "dd_group_name data \<in> G"
  shows "emits (within G M) (rollback_deployment E cp data)"
  unfolding rollback_deployment_def rollback_deployed_resources_def interface_name_def
  by (auto intro!: emits_intros emits_delete_vm emits_delete_nic emits_delete_ip emits_delete_nsg_artifacts assms(1)
      simp: assms(2) split: option.split)

lemma within_deploy_result:
  assumes "retry_law E"
  shows "emits (within G M) (deploy_result E dm data m)"
  unfolding deploy_result_def get_public_ip_address_def get_public_ip_def credentials_of_def Let_def
  by (auto intro!: emits_intros retried_intros emits_vm_details_create assms split: option.split)

lemma within_deploy_vm_generic:
  assumes "retry_law E" "act \<in> {create_vm_custom_image_action, create_vm_marketplace_action}" "rs_reservation_id rs \<in> G"
  shows "emits (within G M) (deploy_vm_generic E act dm cp rs nas)"
proof -
  have after: "emits (within G M) (after_steps E dm cp rs x)" if "case x of (d, m, r) \<Rightarrow> same_deployment data d"
      "dd_group_name data \<in> G" for x and data :: deploy_data
  proof (cases x)
    case (fields d m r)
    with that have d: "dd_group_name d \<in> G" by (auto simp: same_deployment_def)
    show ?thesis
      unfolding fields
      by (cases r) (auto intro!: emits_intros within_rollback within_deploy_result assms(1) d split: exn.split)
  qed
  show ?thesis
    unfolding deploy_vm_generic_def
  proof (rule emits_bnd_yields [OF within_prepare_deploy_data [OF assms(1)] yields_deployment_group])
    fix data :: deploy_data
    assume data: "dd_group_name data = rs_reservation_id rs"
    then have group: "dd_group_name data \<in> G" using assms(3) by simp
    have "emits (within G M) (bnd (deploy_steps E act dm cp data) (after_steps E dm cp rs))"
      by (rule emits_bnd_yields [OF within_deployment [OF assms(1,2) group] yields_deploy_steps after [OF _ group]])
    then show "emits (within G M) (thn check_if_cancelled (bnd (deploy_steps E act dm cp data) (after_steps E dm cp rs)))"
      by (auto intro!: emits_intros)
  qed
qed

section \<open>Sandboxes\<close>

lemma within_prepare_connectivity:
  assumes "retry_law E" "rs_reservation_id rs \<in> G" "cp_management_group_name cp \<in> M"
  shows "emits (within G M) (prepare_connectivity E sched rs cp actions)"
proof -
  have rules: "emits (within G M) (create_subnet_nsg_rules E (rs_reservation_id rs) mv sv c n nets sas)" for mv sv c n nets sas
    unfolding create_subnet_nsg_rules_def
    by (auto intro!: emits_intros emits_create_network_security_group_rules assms(1) simp: assms(2))
  have subnet: "emits (within G M) (create_sandbox_subnet E c cp nsg v sn)" for c nsg v sn
    unfolding create_sandbox_subnet_def cleanup_stale_data_def Let_def
    by (auto intro!: emits_intros emits_create_subnet emits_update_subnet emits_delete_subnet assms(1)
        simp: assms(3) split: list.split)
  have subnets: "emits (within G M) (create_sandbox_subnets E cp g nsg v sas)" for g nsg v sas
    by (induction sas arbitrary: v) (auto intro!: emits_intros subnet simp: Let_def)
  have network: "emits (within G M) (prepare_network E rs cp c tags sas)" for c tags sas
    unfolding prepare_network_def Let_def
    by (auto intro!: emits_intros emits_get_virtual_networks emits_create_network_security_group rules subnets assms(1)
        simp: assms(2))
  have storage: "emits (within G M) (create_storage_and_keypairs E n (rs_reservation_id rs) cp tags)" for n tags
  proof -
    have service: "emits (within G M) (get_file_service E g s)" for g s
      unfolding get_file_service_def by (auto intro!: emits_intros emits_get_storage_account_key assms(1))
    show ?thesis
      unfolding create_storage_and_keypairs_def create_key_pair_def generate_key_pair_def create_storage_account_def
        save_key_pair_def create_file_def
      by (auto intro!: emits_intros retried_intros service assms(1) simp: assms(2))
  qed
  show ?thesis
    unfolding prepare_connectivity_def prepare_storage_account_name_def Let_def
    by (auto intro!: emits_intros emits_resource_group network storage assms(1) simp: assms(2) split: option.split)
qed

lemma within_cleanup_connectivity:
  assumes "retry_law E" "g \<in> G" "cp_management_group_name cp \<in> M"
  shows "emits (within G M) (cleanup_connectivity E cp g actions)"
proof -
  have net: "emits (within G M) (get_sandbox_virtual_network E m)" for m
    by (intro emits_get_sandbox_virtual_network assms(1)) simp
  have "emits (within G M) (remove_nsg_and_routetable_from_subnets E g cp)"
      "emits (within G M) (delete_sandbox_subnets E g cp)"
    unfolding remove_nsg_and_routetable_from_subnets_def delete_sandbox_subnets_def detach_subnet_def delete_one_subnet_def
    by (auto intro!: emits_intros net emits_update_subnet emits_delete_subnet assms(1) simp: assms(3) split: sum.split)
  moreover have "emits (within G M) (delete_resource_group_command E g)"
    unfolding delete_resource_group_command_def
    by (intro emits_intros emits_resource_group assms(1)) (simp_all add: assms(2))
  ultimately show ?thesis
    unfolding cleanup_connectivity_def run_cleanup_command_def finish_cleanup_def
    by (auto intro!: emits_intros split: list.split)
qed

lemma within_route_table:
  assumes "retry_law E" "g \<in> G" "cp_management_group_name cp \<in> M"
  shows "emits (within G M) (create_sandbox_route_table E model cp g)"
  unfolding create_sandbox_route_table_def create_route_table_def add_route_table_to_subnets_def
  by (auto intro!: emits_intros retried_intros emits_get_sandbox_virtual_network assms(1) simp: assms(2,3) split: option.split)

section \<open>Deployed machines\<close>

lemma within_delete:
  assumes "retry_law E" "g \<in> G"
  shows "emits (within G M) (DeleteVm.delete E g name)"
proof -
  have service: "emits (within G M) (get_blob_service E g s)" for s
    unfolding get_blob_service_def by (auto intro!: emits_intros emits_get_storage_account_key assms(1))
  have disk: "emits (within G M) (delete_vm_disk E g m)" for m
    unfolding delete_vm_disk_def delete_vhd_disk_def delete_managed_disk_command_def delete_blob_def
    by (auto intro!: emits_intros retried_intros service emits_delete_managed_disk assms(1) simp: assms(2)
        split: option.split sum.split)
  have commands: "emits (within G M) p" if "is_plan E g name commands ips" "p \<in> set commands" for commands ips p
    using that
    by (auto simp: is_plan_def delete_steps assms(2)
        intro!: emits_intros disk emits_delete_vm emits_delete_nics emits_delete_ips assms(1))
  have plan: "emits (within G M) (plan_delete E g name)"
    unfolding plan_delete_def Let_def
    by (auto intro!: emits_intros emits_get_vm assms(1) split: sum.split)
  show ?thesis
    unfolding DeleteVm.delete_def
    by (rule emits_bnd_yields [OF plan yields_plan_delete])
      (auto simp: run_delete_command_def assms(2) intro!: emits_intros emits_delete_nsg_artifacts assms(1) intro: commands)
qed

lemma custom_only_within: "custom_only g ns q \<Longrightarrow> changed_group q = Some h \<Longrightarrow> h = g"
  by (cases "(g, ns, q)" rule: custom_only.cases) auto

lemma within_app_groups:
  assumes "retry_law E" "g \<in> G"
  shows "emits (within G M) (set_apps_security_groups E items g models)"
proof -
  have "emits (within G M) (set_app_security_groups E items g model)" for model
    by (rule emits_mono [OF emits_set_app_security_groups [OF assms(1), where g = g and ns = "{asg_app_name model}"]])
      (auto simp: within_def assms(2) dest: custom_only_within)
  then show ?thesis
    unfolding set_apps_security_groups_def by (auto intro!: emits_intros)
qed

section \<open>Commands stay in their sandbox\<close>

definition management_groups :: "command_context \<Rightarrow> string set" where
  "management_groups cc = set_option (map_of (cc_resource cc) ''Management Group Name'')"

lemma yields_provider_of:
  "yields (\<lambda>cp. cp_management_group_name (operation_provider cp) \<in> management_groups cc) (provider_of cc)"
proof -
  have read: "yields (\<lambda>v. map_of d k = Some v) (attr d k)" for d k
    unfolding attr_def by (auto simp: yields_simps split: option.split)
  show ?thesis
    unfolding provider_of_def convert_to_cloud_provider_resource_model_def
    by (rule yields_bnd [OF yields_any], rule yields_bnd [OF yields_any], rule yields_bnd [OF yields_any],
        rule yields_bnd [OF yields_any], rule yields_bnd [OF yields_any], rule yields_bnd [OF read])
      (auto intro!: yields_bnd [OF yields_any] simp: yields_simps management_groups_def cloud_provider.defs)
qed

text \<open>The groups of the reservation that a command may change, and those of which it may change subnets.\<close>

fun own_groups :: "command_context \<Rightarrow> driver_command \<Rightarrow> string set" where
  "own_groups cc (DeployRequest actions) = {rs_reservation_id (cc_reservation cc)}"
| "own_groups cc (CreateRouteTables request decoded) = {rs_reservation_id (cc_reservation cc)}"
| "own_groups cc (PrepareSandboxInfra actions) = {rs_reservation_id (cc_reservation cc)}"
| "own_groups cc (CleanupSandboxInfra actions) = {rs_reservation_id (cc_reservation cc)}"
| "own_groups cc (SetAppSecurityGroups request) = {rs_reservation_id (cc_reservation cc)}"
| "own_groups cc PowerOn = {rs_reservation_id (cc_remote_reservation cc)}"
| "own_groups cc PowerOff = {rs_reservation_id (cc_remote_reservation cc)}"
| "own_groups cc DeleteInstance = {rs_reservation_id (cc_remote_reservation cc)}"
| "own_groups cc command = {}"

fun subnet_groups :: "command_context \<Rightarrow> driver_command \<Rightarrow> string set" where
  "subnet_groups cc (CreateRouteTables request decoded) = management_groups cc"
| "subnet_groups cc (PrepareSandboxInfra actions) = management_groups cc"
| "subnet_groups cc (CleanupSandboxInfra actions) = management_groups cc"
| "subnet_groups cc command = {}"

lemma emits_with_provider:
  assumes "\<And>cp. cp_management_group_name (operation_provider cp) \<in> management_groups cc \<Longrightarrow> emits (within G M) (f cp)"
  shows "emits (within G M) (bnd (provider_of cc) f)"
  by (rule emits_bnd_yields [OF emits_provider_of yields_provider_of assms]) simp

lemma within_deploy:
  assumes "retry_law E" "rs_reservation_id (cc_reservation cc) \<in> G"
  shows "emits (within G M) (Deploy E single fod cc actions)"
proof -
  have models: "emits (within G M) (convert_to_deploy_azure_vm_resource_model fod a nas)"
      "emits (within G M) (convert_to_deploy_azure_vm_from_custom_image_resource_model fod a nas)" for a nas
    unfolding convert_to_deploy_azure_vm_resource_model_def convert_to_deploy_azure_vm_from_custom_image_resource_model_def
      set_base_deploy_azure_vm_model_params_def decrypt_def app_attribute_def Let_def
    by (auto intro!: emits_intros split: option.split list.split)
  have deploys: "emits (within G M) (deploy_azure_vm E single fod cc actions)"
      "emits (within G M) (deploy_vm_from_custom_image E single fod cc actions)"
    unfolding deploy_azure_vm_def deploy_vm_from_custom_image_def deploy_from_marketplace_def deploy_from_custom_image_def
      the_deploy_action_def Let_def
    by (auto intro!: emits_intros models within_deploy_vm_generic assms split: request_action.split)
  then show ?thesis
    unfolding Deploy_def the_deploy_action_def deployments_def
    by (auto intro!: emits_intros split: request_action.split option.split)
qed

lemma within_inventory:
  assumes "retry_law E"
  shows "emits (within G M) (get_inventory E cp)"
  unfolding get_inventory_def validate_api_credentials_def validate_region_def list_available_regions_def
    register_azure_providers_def validate_mgmt_resource_group_def get_resource_group_def validate_vm_size_def
    list_virtual_machine_sizes_def validate_additional_mgmt_networks_def validate_cidrs_def
  by (auto intro!: emits_intros emits_get_virtual_networks retried_intros assms)

lemma within_sandbox_commands:
  assumes "retry_law E" "rs_reservation_id (cc_reservation cc) \<in> G" "management_groups cc \<subseteq> M"
  shows "emits (within G M) (create_route_tables E cc request decoded)"
    "emits (within G M) (prepare_connectivity_command E sched cc prepare_actions)"
    "emits (within G M) (cleanup_connectivity_command E cc cleanup_actions)"
  unfolding create_route_tables_def prepare_connectivity_command_def cleanup_connectivity_command_def Let_def
  using assms(3)
  by (auto intro!: emits_intros emits_with_provider within_route_table within_prepare_connectivity
      within_cleanup_connectivity assms(1,2) split: option.split)

lemma within_app_groups_command:
  assumes "retry_law E" "rs_reservation_id (cc_reservation cc) \<in> G"
  shows "emits (within G M) (set_app_security_groups_command E items cc groups)"
  unfolding set_app_security_groups_command_def Let_def
  by (auto intro!: emits_intros within_app_groups assms)

lemma within_machine_commands:
  assumes "retry_law E" "rs_reservation_id (cc_remote_reservation cc) \<in> G"
  shows "emits (within G M) (power_on_vm E cc)" "emits (within G M) (power_off_vm E cc)"
    "emits (within G M) (delete_azure_vm E cc)"
  unfolding power_on_vm_def power_on_def start_vm_def power_off_vm_def power_off_def stop_vm_def delete_azure_vm_def Let_def
  by (auto intro!: emits_intros retried_intros within_delete assms(1) simp: assms(2))

lemma within_queries:
  assumes "retry_law E"
  shows "emits (within G M) (refresh_ip_command E cc)" "emits (within G M) (get_access_key_command E cc)"
    "emits (within G M) (get_vm_details_command E cc requests)" "emits (within G M) (get_application_ports E shown cc)"
    "emits (within G M) (get_inventory_command E cc)" "emits (within G M) (get_available_private_ip_command E cc c owner)"
proof -
  show "emits (within G M) (refresh_ip_command E cc)" "emits (within G M) (get_access_key_command E cc)"
    "emits (within G M) (get_vm_details_command E cc requests)" "emits (within G M) (get_application_ports E shown cc)"
    by (rule queries_read [OF assms, THEN emits_mono], erule within_reads)+
  show "emits (within G M) (get_inventory_command E cc)"
    unfolding get_inventory_command_def by (auto intro!: emits_intros within_inventory assms)
  show "emits (within G M) (get_available_private_ip_command E cc c owner)"
    unfolding get_available_private_ip_command_def get_available_private_ip_def validate_subnet_exists_def
    by (auto intro!: emits_intros emits_get_sandbox_virtual_network assms split: option.split)
qed

lemma within_command:
  assumes "retry_law (su_env S)"
  shows "emits (within (own_groups cc command) (subnet_groups cc command)) (run_command S cc command)"
  by (cases command)
    (auto simp: answering_def intro!: emits_intros within_sandbox_commands within_app_groups_command
      within_machine_commands within_queries within_deploy assms)


section \<open>Commands come to an end\<close>

lemma halts_clients [halts_intros]: "halts (provider_of cc)" "halts (singleton_call cp)" "halts (use_client kind m)"
  unfolding provider_of_def convert_to_cloud_provider_resource_model_def attr_def singleton_call_def new_clients_manager_def
    use_client_def client_property_def find_client_def Let_def
  by (auto intro!: halts_intros split: option.split)

lemma halts_endpoints [halts_intros]:
  "halts (get_private_ip_from_connected_resource_details eps)"
  "halts (get_public_ip_tuple_attribute_from_connected_resource_details eps)"
  "halts (get_connected_resource_fullname eps)"
  "halts (get_allow_all_storage_traffic_from_connected_resource_details eps)"
  unfolding get_private_ip_from_connected_resource_details_def get_connected_resource_fullname_def
    get_public_ip_tuple_attribute_from_connected_resource_details_def attr_def
    get_allow_all_storage_traffic_from_connected_resource_details_def
  by (auto intro!: halts_intros split: option.split)

lemma halts_sandbox_commands:
  assumes "retry_law E"
  shows "halts (create_route_tables E cc request decoded)" "halts (prepare_connectivity_command E sched cc actions)"
    "halts (cleanup_connectivity_command E cc cleanup_actions)" "halts (set_app_security_groups_command E items cc groups)"
    "halts (get_available_private_ip_command E cc c owner)" "halts (get_inventory_command E cc)"
proof -
  have table: "halts (create_sandbox_route_table E model cp g)" for model cp g
    unfolding create_sandbox_route_table_def create_route_table_def add_route_table_to_subnets_def
    by (auto intro!: halts_intros retried_intros assms split: option.split)
  show "halts (create_route_tables E cc request decoded)"
    unfolding create_route_tables_def Let_def by (auto intro!: halts_intros table)
  have network: "halts (prepare_network E rs cp c tags sas)" for rs cp c tags sas
    unfolding prepare_network_def Let_def by (auto intro!: halts_intros assms)
  have "halts (prepare_connectivity E sched rs cp actions)" for rs cp
    unfolding prepare_connectivity_def prepare_storage_account_name_def Let_def
    by (auto intro!: halts_intros network assms split: option.split)
  then show "halts (prepare_connectivity_command E sched cc actions)"
    unfolding prepare_connectivity_command_def by (auto intro!: halts_intros)
  show "halts (cleanup_connectivity_command E cc cleanup_actions)"
    unfolding cleanup_connectivity_command_def Let_def by (auto intro!: halts_intros assms split: option.split)
  show "halts (set_app_security_groups_command E items cc groups)"
    unfolding set_app_security_groups_command_def set_apps_security_groups_def Let_def
    by (auto intro!: halts_intros halts_set_app_security_groups assms)
  show "halts (get_available_private_ip_command E cc c owner)"
    unfolding get_available_private_ip_command_def get_available_private_ip_def validate_subnet_exists_def
      get_next_available_ip_from_cs_pool_def
    by (auto intro!: halts_intros assms split: option.split sum.split)
  show "halts (get_inventory_command E cc)"
    unfolding get_inventory_command_def get_inventory_def validate_api_credentials_def validate_region_def
      list_available_regions_def register_azure_providers_def validate_mgmt_resource_group_def get_resource_group_def
      validate_vm_size_def list_virtual_machine_sizes_def validate_additional_mgmt_networks_def validate_cidrs_def
    by (auto intro!: halts_intros retried_intros assms)
qed

lemma halts_machine_commands:
  assumes "retry_law E"
  shows "halts (power_on_vm E cc)" "halts (power_off_vm E cc)" "halts (delete_azure_vm E cc)" "halts (refresh_ip_command E cc)"
    "halts (get_access_key_command E cc)" "halts (get_application_ports E shown cc)" "halts (get_vm_details_command E cc requests)"
proof -
  show "halts (power_on_vm E cc)" "halts (power_off_vm E cc)"
    unfolding power_on_vm_def power_on_def start_vm_def power_off_vm_def power_off_def stop_vm_def Let_def
    by (auto intro!: halts_intros retried_intros assms)
  show "halts (delete_azure_vm E cc)"
    unfolding delete_azure_vm_def Let_def by (auto intro!: halts_intros halts_delete assms)
  show "halts (refresh_ip_command E cc)"
    unfolding refresh_ip_command_def refresh_ip_def addresses_on_azure_def primary_nic_ref_def get_active_vm_def Let_def
    by (auto intro!: halts_intros assms split: option.split)
  show "halts (get_access_key_command E cc)"
    unfolding get_access_key_command_def by (auto intro!: halts_intros assms)
  show "halts (get_application_ports E shown cc)"
    unfolding get_application_ports_def get_vm_nsg_def get_vm_network_security_group_name_def Let_def
    by (auto intro!: halts_intros assms)
  have "halts (get_vm_details E g requests)" for g
    by (induction requests) (auto intro!: halts_intros assms)
  then show "halts (get_vm_details_command E cc requests)"
    unfolding get_vm_details_command_def by (auto intro!: halts_intros)
qed

text \<open>
  C4: Every command of the driver but a deployment, which polls the machine without a bound, comes to an
  end: when each call it makes is answered (the acquisition of a lock and the end of a task of Azure are such
  calls), whatever the answers are, it returns or raises an exception. No retry goes on without a bound,
  also where the decorators are nested, and every loop ends.
\<close>

theorem commands_end:
  assumes "retry_law (su_env S)" "exec (run_command S cc command) es out" "\<And>actions. command \<noteq> DeployRequest actions"
  shows "out \<noteq> Hang"
proof -
  have "halts (run_command S cc command)"
    using assms(3) by (cases command)
      (auto simp: answering_def intro!: halts_intros halts_sandbox_commands halts_machine_commands assms(1))
  with assms(2) show ?thesis by (auto dest: haltsD)
qed

section \<open>A concrete command\<close>

fun cleaning :: "request \<Rightarrow> answer" where
  "cleaning (Network (ListVnets g)) = Inr (RVnets sample_vnets)"
| "cleaning (Network q) = Inr (RPoller 0)"
| "cleaning (Resource q) = Inr (RPoller 1)"
| "cleaning (Memory (DictHas d k)) = Inr (RBool False)"
| "cleaning q = signed_in q"

definition sample_surroundings :: surroundings where
  "sample_surroundings = \<lparr>su_env = sample_env, su_single = single_action, su_first_or_default = (\<lambda>xs P. find P xs),
     su_schedule = [], su_items = rev, su_show_protocol = protocol_text\<rparr>"

definition sample_cleanup_command :: driver_command where
  "sample_cleanup_command = CleanupSandboxInfra (Some [\<lparr>ca_type = ''cleanupNetwork'', ca_action_id = ''a1''\<rparr>])"

lemma sample_cleanup_command_changes:
  "list_ex (\<lambda>ev. changed_group (fst ev) = Some ''mgmt'')
     (run_of cleaning (run_command sample_surroundings sample_context sample_cleanup_command))"
  by code_simp


theorem commands_end_witness:
  "outcome_of cleaning (run_command sample_surroundings sample_context sample_cleanup_command) \<noteq> Hang"
proof (rule commands_end [OF _ exec_run_of [OF refl]])
  show "retry_law (su_env sample_surroundings)" by (simp add: sample_surroundings_def sample_env_law)
qed (simp add: sample_cleanup_command_def)

end
