(* ===== verification/Exclusion.thy ===== *)
theory Exclusion
  imports Threads AppOperations PrepareInfra DeleteVm
begin

text \<open>
  What the lock discipline of the methods gives when commands run at the same time: for each lock, at
  most one thread at a time is where the guarded calls are made.
\<close>

section \<open>One thread at a time\<close>

text \<open>A thread in the middle of a program that keeps the lock; \<open>held\<close> says whether it has it.\<close>

definition thread_ok :: "lock \<Rightarrow> (request \<Rightarrow> bool) \<Rightarrow> 'a prog \<Rightarrow> bool \<Rightarrow> bool" where
  "thread_ok l G p held \<longleftrightarrow> wp (guarded l G) p (\<lambda>_ h. \<not> h) (\<lambda>_ h. \<not> h) (\<lambda>_. False) held"

lemma thread_ok_start: "keeps_lock l G p \<Longrightarrow> thread_ok l G p False"
  by (simp add: thread_ok_def keeps_lock_def)

lemma thread_ok_call:
  assumes "thread_ok l G (Call q f) held"
  shows "thread_ok l G (f v) (if q = Memory (Acquire l) then True else if q = Memory (Release l) then False else held)"
    "q = Memory (Release l) \<Longrightarrow> held" "G q \<Longrightarrow> q \<noteq> Memory (Acquire l) \<Longrightarrow> held"
  using assms by (auto simp: thread_ok_def guarded_def split: if_splits dest: spec [of _ v])

lemma thread_ok_end: "thread_ok l G p held \<Longrightarrow> asks p = None \<Longrightarrow> \<not> held"
  by (cases p) (auto simp: thread_ok_def)

text \<open>\<open>w\<close> is the thread that has the lock.\<close>

definition owned_by :: "lock \<Rightarrow> (request \<Rightarrow> bool) \<Rightarrow> memory \<Rightarrow> 'a prog list \<Rightarrow> nat option \<Rightarrow> bool" where
  "owned_by l G s ps w \<longleftrightarrow> (l \<in> mem_held s \<longleftrightarrow> w \<noteq> None) \<and> (\<forall>i. w = Some i \<longrightarrow> i < length ps) \<and>
     (\<forall>i < length ps. thread_ok l G (ps ! i) (w = Some i))"

lemma mem_held_step:
  assumes "mem_step s m = Some (s', v)"
  shows "l \<in> mem_held s' \<longleftrightarrow> m = Acquire l \<or> m \<noteq> Release l \<and> l \<in> mem_held s" "m = Acquire l \<Longrightarrow> l \<notin> mem_held s"
  using assms by (cases m; auto simp: put_entry_def update_copied_def split: if_splits)+

lemma owned_step:
  assumes "owned_by l G s ps w" "thread_step (s, ps) (s', ps')"
  shows "\<exists>w. owned_by l G s' ps' w"
proof (rule thread_stepE [OF assms(2)])
  fix i m f s1 v
  assume step: "i < length ps" "ps ! i = Call (Memory m) f" "mem_step s m = Some (s1, v)"
    and to: "(s', ps') = (s1, ps[i := f v])"
  define w' where "w' = (if m = Acquire l then Some i else if m = Release l then None else w)"
  have here: "thread_ok l G (Call (Memory m) f) (w = Some i)"
    using assms(1) step by (auto simp: owned_by_def)
  have "owned_by l G s1 (ps[i := f v]) w'"
    using assms(1) thread_ok_call(1) [OF here, of v] thread_ok_call(2,3) [OF here] mem_held_step [OF step(3), of l] step(1)
    by (auto simp: owned_by_def w'_def nth_list_update split: if_splits)
  with to show ?thesis by blast
next
  fix i q f v
  assume step: "i < length ps" "ps ! i = Call q f" "\<And>m. q \<noteq> Memory m"
    and to: "(s', ps') = (s, ps[i := f v])"
  have here: "thread_ok l G (Call q f) (w = Some i)"
    using assms(1) step by (auto simp: owned_by_def)
  have "owned_by l G s (ps[i := f v]) w"
    using assms(1) thread_ok_call(1) [OF here, of v] step(1,3)
    by (auto simp: owned_by_def nth_list_update)
  with to show ?thesis by blast
qed
lemma owned_reachable:
  assumes "\<forall>p \<in> set ps. keeps_lock l G p" "l \<notin> mem_held s" "reachable (s, ps) (s', ps')"
  shows "\<exists>w. owned_by l G s' ps' w"
proof -
  have "\<exists>w. owned_by l G (fst d) (snd d) w" if "reachable (s, ps) d" for d
  proof (rule reachable_invariant [OF that])
    show "\<exists>w. owned_by l G (fst (s, ps)) (snd (s, ps)) w"
      using assms(1,2) by (intro exI [of _ None]) (auto simp: owned_by_def thread_ok_start)
    show "\<exists>w. owned_by l G (fst d') (snd d') w"
      if "\<exists>w. owned_by l G (fst d) (snd d) w" "thread_step d d'" for d d' :: "memory \<times> 'a prog list"
      using that owned_step [of l G "fst d" "snd d" _ "fst d'" "snd d'"] by auto
  qed
  from this [OF assms(3)] show ?thesis by simp
qed

text \<open>
  Somebody has the lock exactly if it is taken; who is about to make a guarded call has it, and who
  has come to an end does not.
\<close>

definition exclusive :: "lock \<Rightarrow> (request \<Rightarrow> bool) \<Rightarrow> memory \<Rightarrow> 'a prog list \<Rightarrow> bool" where
  "exclusive l G s ps \<longleftrightarrow> (\<exists>w. (l \<in> mem_held s \<longleftrightarrow> w \<noteq> None) \<and> (\<forall>i. w = Some i \<longrightarrow> i < length ps \<and> asks (ps ! i) \<noteq> None) \<and>
     (\<forall>i < length ps. \<forall>q. asks (ps ! i) = Some q \<longrightarrow> G q \<longrightarrow> w = Some i))"

lemma owned_exclusive:
  assumes "owned_by l G s ps w" "\<not> G (Memory (Acquire l))"
  shows "exclusive l G s ps"
proof -
  have "w = Some i" if "i < length ps" "asks (ps ! i) = Some q" "G q" for i q
  proof -
    from that(2) obtain f where "ps ! i = Call q f" by (cases "ps ! i") auto
    with that(1) assms(1) have "thread_ok l G (Call q f) (w = Some i)" by (auto simp: owned_by_def)
    then show ?thesis by (rule thread_ok_call(3)) (use that(3) assms(2) in auto)
  qed
  moreover have "i < length ps \<and> asks (ps ! i) \<noteq> None" if "w = Some i" for i
  proof -
    from assms(1) that have "i < length ps" "thread_ok l G (ps ! i) True" by (auto simp: owned_by_def)
    with thread_ok_end show ?thesis by blast
  qed
  ultimately show ?thesis
    using assms(1) unfolding exclusive_def owned_by_def by (intro exI [of _ w]) blast
qed

lemma exclusion:
  assumes "\<And>p. p \<in> set ps \<Longrightarrow> keeps_lock l G p" "\<not> G (Memory (Acquire l))" "reachable (empty_memory, ps) (s, ps')"
  shows "exclusive l G s ps'"
  using owned_reachable [of ps l G empty_memory s ps'] assms owned_exclusive
  by (auto simp: empty_memory_def)

lemma keeps_lock_weaken:
  assumes "keeps_lock l G p" "\<And>q. G' q \<Longrightarrow> G q"
  shows "keeps_lock l G' p"
proof -
  have "wp (guarded l G) p N X D h \<Longrightarrow> wp (guarded l G') p N X D h" for N X D h
  proof (induction p arbitrary: h)
    case (Call q f)
    have "guarded l G' h (q, v) = guarded l G h (q, v)" if "guarded l G h (q, v) \<noteq> None" for v
      using that assms(2) [of q] by (auto simp: guarded_def split: if_splits)
    with Call show ?case by (fastforce split: option.splits)
  qed auto
  with assms(1) show ?thesis by (simp add: keeps_lock_def)
qed

text \<open>
  Commands that make the guarded calls with the lock: what any number of threads that run them may rely
  on.
\<close>

locale locked_commands =
  fixes lk :: lock
    and guarded_call :: "request \<Rightarrow> bool"
    and command :: "env \<Rightarrow> 'a prog \<Rightarrow> bool"
  assumes not_acquire: "\<not> guarded_call (Memory (Acquire lk))"
    and keeps: "retry_law E \<Longrightarrow> command E p \<Longrightarrow> keeps_lock lk guarded_call p"
begin

lemma one_at_a_time:
  assumes "retry_law E" "\<And>p. p \<in> set ps \<Longrightarrow> command E p" "reachable (empty_memory, ps) (s, ps')"
  shows "exclusive lk guarded_call s ps'"
  by (rule exclusion [OF keeps [OF assms(1) assms(2)] not_acquire assms(3)])

lemma never_two:
  assumes "retry_law E" "\<And>p. p \<in> set ps \<Longrightarrow> command E p" "reachable (empty_memory, ps) (s, ps')"
    and "i < length ps'" "asks (ps' ! i) = Some q" "guarded_call q"
    and "j < length ps'" "asks (ps' ! j) = Some q'" "guarded_call q'"
  shows "i = j"
proof -
  from one_at_a_time [OF assms(1-3)]
  obtain w where "\<forall>i < length ps'. \<forall>q. asks (ps' ! i) = Some q \<longrightarrow> guarded_call q \<longrightarrow> w = Some i"
    unfolding exclusive_def by blast
  with assms(4-9) have "w = Some i" "w = Some j" by blast+
  then show ?thesis by simp
qed

lemma given_back:
  assumes "retry_law E" "\<And>p. p \<in> set ps \<Longrightarrow> command E p" "reachable (empty_memory, ps) (s, ps')"
    and "\<And>p. p \<in> set ps' \<Longrightarrow> asks p = None"
  shows "lk \<notin> mem_held s"
proof
  assume "lk \<in> mem_held s"
  with one_at_a_time [OF assms(1-3)] obtain i where "i < length ps'" "asks (ps' ! i) \<noteq> None"
    unfolding exclusive_def by auto
  with assms(4) show False by simp
qed

end

section \<open>Sandboxes are set up and taken down one subnet change at a time\<close>

lemma keeps_lock_route_table:
  assumes "retry_law E"
  shows "keeps_lock SubnetLocker is_subnet_change (create_sandbox_route_table E request cp sandbox_id)"
proof -
  have vnet: "keeps_lock SubnetLocker is_subnet_change (get_sandbox_virtual_network E m)" for m
    by (intro keeps_lock_free emits_get_sandbox_virtual_network halts_network assms) (simp add: lock_free_def)
  have table: "keeps_lock SubnetLocker is_subnet_change (create_route_table r routes n g)" for r routes n g
    unfolding create_route_table_def
    by (intro keeps_lock_free emits_intros halts_intros) (simp_all add: lock_free_def)
  have add: "emits (lock_untouched SubnetLocker) (add_route_table_to_subnets g n subnets m v)"
      "halts (add_route_table_to_subnets g n subnets m v)" for g n subnets m v
    unfolding add_route_table_to_subnets_def
    by (auto intro!: emits_intros halts_intros simp: lock_untouched_def split: option.split)
  show ?thesis
    unfolding create_sandbox_route_table_def retried_on_retryable_def retryable_error_max_attempts_def no_result_def
    by (rule keeps_lock_retry_lib [OF assms]) (auto intro!: lock_intros vnet table add split: option.split)
qed

text \<open>The commands that work on the subnets of the shared network; their results do not matter here.\<close>

definition subnet_command :: "env \<Rightarrow> unit prog \<Rightarrow> bool" where
  "subnet_command E p \<longleftrightarrow>
     (\<exists>sched rs cp actions. p = thn (prepare_connectivity E sched rs cp actions) (Return ())) \<or>
     (\<exists>cp g actions. p = thn (cleanup_connectivity E cp g actions) (Return ())) \<or>
     (\<exists>request cp g. p = thn (create_sandbox_route_table E request cp g) (Return ()))"

interpretation subnet_commands: locked_commands SubnetLocker is_subnet_change subnet_command
proof
  fix E p
  assume "retry_law E" "subnet_command E p"
  then show "keeps_lock SubnetLocker is_subnet_change p"
    unfolding subnet_command_def
    by (auto intro!: lock_intros keeps_lock_cleanup keeps_lock_route_table
        keeps_lock_weaken [OF keeps_lock_prepare_connectivity] simp: is_network_change_def)
qed simp

text \<open>
  C7: When any number of commands prepare sandboxes, clean sandboxes up and add route tables at the
  same time, in every interleaving and whatever Azure answers, only the thread that has the lock of
  the subnets is about to change a subnet - so never two threads - and a thread that has come to an
  end has given it back.
\<close>

theorem subnets_change_one_at_a_time:
  assumes "retry_law E" "\<And>p. p \<in> set ps \<Longrightarrow> subnet_command E p" "reachable (empty_memory, ps) (s, ps')"
  shows "exclusive SubnetLocker is_subnet_change s ps'"
  by (rule subnet_commands.one_at_a_time [OF assms])

definition rule_command :: "env \<Rightarrow> lock \<Rightarrow> resp prog \<Rightarrow> bool" where
  "rule_command E lk p \<longleftrightarrow> (\<exists>g n rds dest start src.
     p \<in> {create_network_security_group_rules E g n rds dest lk start src,
       create_isolated_network_security_group_rules E g n lk,
       delete_custom_security_rules_from_nsg E g n lk, delete_security_rules E g n lk})"

interpretation rule_commands: locked_commands lk is_rule_change "\<lambda>E. rule_command E lk" for lk
proof
  fix E p
  assume "retry_law E" "rule_command E lk p"
  then show "keeps_lock lk is_rule_change p"
    unfolding rule_command_def using keeps_lock_rule_methods by blast
qed simp

text \<open>
  C8: When any number of threads create and delete rules of the security groups that share a lock, in
  every interleaving, only the thread that has the lock is about to change a rule.
\<close>

theorem rules_change_one_at_a_time:
  assumes "retry_law E" "\<And>p. p \<in> set ps \<Longrightarrow> rule_command E lk p" "reachable (empty_memory, ps) (s, ps')"
  shows "exclusive lk is_rule_change s ps'"
  by (rule rule_commands.one_at_a_time [OF assms])

section \<open>Concrete interleavings\<close>

text \<open>The memory answers itself, and \<open>v\<close> is the answer from outside.\<close>

definition answered :: "memory \<Rightarrow> request \<Rightarrow> answer \<Rightarrow> (memory \<times> answer) option" where
  "answered s q v = (case q of Memory m \<Rightarrow> mem_step s m | _ \<Rightarrow> Some (s, v))"

lemma answered_step:
  assumes "i < length ps" "ps ! i = Call q f" "answered s q v = Some (s', v')"
  shows "thread_step (s, ps) (s', ps[i := f v'])"
proof (cases "\<exists>m. q = Memory m")
  case True
  with assms show ?thesis by (auto simp: answered_def intro: memory_call)
next
  case False
  with assms(3) have "s' = s" "v' = v" by (auto simp: answered_def split: request.splits)
  with assms(1,2) False show ?thesis by (auto intro: outside_call)
qed

text \<open>The thread of the number makes its next call, which is answered so if it leaves the process.\<close>

fun run_script :: "(nat \<times> answer) list \<Rightarrow> memory \<times> 'a prog list \<Rightarrow> (memory \<times> 'a prog list) option" where
  "run_script [] c = Some c"
| "run_script ((i, v) # script) (s, ps) =
     (if i < length ps then
        (case ps ! i of
           Call q f \<Rightarrow> (case answered s q v of
             Some (s', v') \<Rightarrow> run_script script (s', ps[i := f v']) | None \<Rightarrow> None)
         | _ \<Rightarrow> None)
      else None)"

lemma run_script_reachable: "run_script script c = Some d \<Longrightarrow> reachable c d"
proof (induction script c rule: run_script.induct)
  case (2 i v script s ps)
  from 2(2) obtain q f s' v' where i: "i < length ps" "ps ! i = Call q f" "answered s q v = Some (s', v')"
      and run: "run_script script (s', ps[i := f v']) = Some d"
    by (auto split: if_splits prog.splits option.splits)
  have "reachable (s', ps[i := f v']) d" using 2(1) [OF i(1,2,3) refl run] .
  moreover have "reachable (s, ps) (s', ps[i := f v'])"
    by (rule step [OF start answered_step [OF i]])
  ultimately show ?case by (rule reachable_trans)
qed (simp add: start)

text \<open>A cleanup has the lock and is about to change a subnet while another one waits for it.\<close>

definition sample_cleanups :: "unit prog list" where
  "sample_cleanups = replicate 2 (thn (cleanup_connectivity sample_env (sample_provider []) ''r-1''
     [\<lparr>ca_type = ''cleanupNetwork'', ca_action_id = ''a''\<rparr>]) (Return ()))"

definition sample_cleanup_script :: "(nat \<times> answer) list" where
  "sample_cleanup_script = [(0, Inr (RVnets sample_vnets)), (1, Inr (RVnets sample_vnets)), (1, Inr RNone)]"

definition sample_rule_threads :: "resp prog list" where
  "sample_rule_threads = replicate 2 (delete_custom_security_rules_from_nsg sample_env ''rg'' ''NSG_a'' SubnetLocker)"

lemma sample_cleanups_run:
  "case run_script sample_cleanup_script (empty_memory, sample_cleanups) of None \<Rightarrow> False
   | Some (s, ps) \<Rightarrow> SubnetLocker \<in> mem_held s \<and> asks (ps ! 0) = Some (Memory (Acquire SubnetLocker)) \<and>
       (case asks (ps ! 1) of None \<Rightarrow> False | Some q \<Rightarrow> is_subnet_change q)"
  by code_simp


theorem subnets_change_one_at_a_time_witness:
  "\<exists>s ps q. reachable (empty_memory, sample_cleanups) (s, ps) \<and> asks (ps ! 0) = Some (Memory (Acquire SubnetLocker)) \<and>
     asks (ps ! 1) = Some q \<and> is_subnet_change q \<and> exclusive SubnetLocker is_subnet_change s ps"
proof -
  obtain s ps q where run: "run_script sample_cleanup_script (empty_memory, sample_cleanups) = Some (s, ps)"
      "asks (ps ! 0) = Some (Memory (Acquire SubnetLocker))" "asks (ps ! 1) = Some q" "is_subnet_change q"
    using sample_cleanups_run by (auto split: option.splits)
  have reached: "reachable (empty_memory, sample_cleanups) (s, ps)" using run(1) by (rule run_script_reachable)
  have commands: "subnet_command sample_env p" if "p \<in> set sample_cleanups" for p
    using that unfolding sample_cleanups_def subnet_command_def by auto
  show ?thesis
    using reached run(2-4) subnets_change_one_at_a_time [OF sample_env_law commands reached] by blast
qed

definition sample_custom_rule :: security_rule where
  "sample_custom_rule = \<lparr>sr_name = ''custom_rule_0'', sr_access = AccessAllow, sr_direction = ''Inbound'',
     sr_source_address_prefix = InternetHop, sr_source_port_range = ''*'', sr_destination_address_prefix = ''*'',
     sr_destination_port_range = ''80'', sr_priority = 1000, sr_protocol = AnyProtocol\<rparr>"

lemma sample_rule_threads_run:
  "case run_script [(0, Inr (RRules [sample_custom_rule])), (1, Inr (RRules [sample_custom_rule])), (0, Inr RNone)]
     (empty_memory, sample_rule_threads) of None \<Rightarrow> False
   | Some (s, ps) \<Rightarrow> asks (ps ! 1) = Some (Memory (Acquire SubnetLocker)) \<and>
       (case asks (ps ! 0) of None \<Rightarrow> False | Some q \<Rightarrow> is_rule_change q)"
  by code_simp

theorem rules_change_one_at_a_time_witness:
  "\<exists>s ps q. reachable (empty_memory, sample_rule_threads) (s, ps) \<and> asks (ps ! 1) = Some (Memory (Acquire SubnetLocker)) \<and>
     asks (ps ! 0) = Some q \<and> is_rule_change q \<and> exclusive SubnetLocker is_rule_change s ps"
proof -
  obtain s ps q where run: "run_script [(0, Inr (RRules [sample_custom_rule])), (1, Inr (RRules [sample_custom_rule])),
        (0, Inr RNone)] (empty_memory, sample_rule_threads) = Some (s, ps)"
      "asks (ps ! 1) = Some (Memory (Acquire SubnetLocker))" "asks (ps ! 0) = Some q" "is_rule_change q"
    using sample_rule_threads_run by (auto split: option.splits)
  have reached: "reachable (empty_memory, sample_rule_threads) (s, ps)" using run(1) by (rule run_script_reachable)
  have commands: "rule_command sample_env SubnetLocker p" if "p \<in> set sample_rule_threads" for p
    using that unfolding sample_rule_threads_def rule_command_def by auto
  show ?thesis
    using reached run(2-4) rules_change_one_at_a_time [OF sample_env_law commands reached] by blast
qed

end
