(* ===== verification/GroupState.thy ===== *)
theory GroupState
  imports AppOperations
begin

text \<open>
  What the calls of the methods do to the rules of a security group on Azure: an abstract group is a
  table of rules by name, and the methods of \<^verbatim>\<open>domain/services/security_group.py\<close> and
  \<^verbatim>\<open>set_app_security_groups.py\<close> are shown to implement operations on tables.
\<close>

section \<open>The rules of a group\<close>

type_synonym rule_table = "string \<rightharpoonup> security_rule"

text \<open>Putting a rule replaces the rule of its name; \<open>None\<close> is for deleting.\<close>

datatype rule_change = SetRule string "security_rule option"

primrec apply_change :: "rule_change \<Rightarrow> rule_table \<Rightarrow> rule_table" where
  "apply_change (SetRule m v) t = t(m := v)"

fun change_of :: "string \<Rightarrow> string \<Rightarrow> request \<Rightarrow> rule_change option" where
  "change_of g n (Network (PutRule g' n' m r)) = (if g' = g \<and> n' = n then Some (SetRule m (Some r)) else None)"
| "change_of g n (Network (DeleteRule g' n' m)) = (if g' = g \<and> n' = n then Some (SetRule m None) else None)"
| "change_of g n q = None"

definition table_of :: "security_rule list \<Rightarrow> rule_table" where
  "table_of rs = map_of (map (\<lambda>r. (sr_name r, r)) rs)"

fun listed :: "string \<Rightarrow> string \<Rightarrow> event \<Rightarrow> rule_table option" where
  "listed g n (Network (ListRules g' n'), Inr (RRules rs)) = (if g' = g \<and> n' = n then Some (table_of rs) else None)"
| "listed g n ev = None"

fun finishes :: "nat \<Rightarrow> event \<Rightarrow> bool" where
  "finishes i (Poller (PollResult j), Inr v) \<longleftrightarrow> j = i"
| "finishes i (Poller (PollWait j), Inr v) \<longleftrightarrow> j = i"
| "finishes i ev \<longleftrightarrow> False"

text \<open>
  The tables that are possible after a run that nobody else interferes with. Azure lists the rules that
  the group has. A change that was asked for may have happened whatever was answered, as a whole and
  before the next call for the group; it has happened when its poller has finished without an exception.
\<close>

type_synonym knowledge = "rule_table set \<times> (nat \<times> rule_change) option"

definition group_step :: "string \<Rightarrow> string \<Rightarrow> knowledge \<Rightarrow> event \<Rightarrow> knowledge" where
  "group_step g n K ev = (case change_of g n (fst ev) of
     Some c \<Rightarrow> (fst K \<union> apply_change c ` fst K, case snd ev of Inr (RPoller i) \<Rightarrow> Some (i, c) | _ \<Rightarrow> None)
   | None \<Rightarrow> (case listed g n ev of
       Some t \<Rightarrow> (fst K \<inter> {t}, None)
     | None \<Rightarrow> (case snd K of
         Some (i, c) \<Rightarrow> if finishes i ev then (apply_change c ` fst K, None) else K
       | None \<Rightarrow> K)))"

definition possible_tables :: "string \<Rightarrow> string \<Rightarrow> rule_table \<Rightarrow> event list \<Rightarrow> rule_table set" where
  "possible_tables g n t es = fst (foldl (group_step g n) ({t}, None) es)"

section \<open>What is certain\<close>

definition group_monitor :: "string \<Rightarrow> string \<Rightarrow> knowledge monitor" where
  "group_monitor g n K ev = Some (group_step g n K ev)"

lemma track_group: "track (group_monitor g n) K es = Some (foldl (group_step g n) K es)"
  by (induction es arbitrary: K) (simp_all add: group_monitor_def)

lemma allowed_group [wp_simps]: "allowed (group_monitor g n) K ev Q \<longleftrightarrow> Q (group_step g n K ev)"
  by (simp add: allowed_def group_monitor_def)

text \<open>Every possible table satisfies \<open>A\<close>, whether or not the change that is waited for has happened.\<close>

definition certain :: "(rule_table \<Rightarrow> bool) \<Rightarrow> knowledge \<Rightarrow> bool" where
  "certain A K \<longleftrightarrow> (\<forall>t \<in> fst K. A t \<and> (\<forall>i c. snd K = Some (i, c) \<longrightarrow> A (apply_change c t)))"

lemma certain_mono: "certain A K \<Longrightarrow> (\<And>t. A t \<Longrightarrow> B t) \<Longrightarrow> certain B K"
  by (auto simp: certain_def)

lemma certain_start: "A t \<Longrightarrow> certain A ({t}, None)"
  by (simp add: certain_def)

lemma apply_change_twice [simp]: "apply_change c (apply_change c t) = apply_change c t"
  by (cases c) simp

text \<open>A change that was asked for.\<close>

definition or_changed :: "rule_change \<Rightarrow> (rule_table \<Rightarrow> bool) \<Rightarrow> rule_table \<Rightarrow> bool" where
  "or_changed c A t \<longleftrightarrow> A t \<or> (\<exists>t0. A t0 \<and> t = apply_change c t0)"

definition changed :: "rule_change \<Rightarrow> (rule_table \<Rightarrow> bool) \<Rightarrow> rule_table \<Rightarrow> bool" where
  "changed c A t \<longleftrightarrow> (\<exists>t0. A t0 \<and> t = apply_change c t0)"

lemma or_changed_idem: "or_changed c (or_changed c A) = or_changed c A" "changed c (or_changed c A) = changed c A"
proof -
  show "or_changed c (or_changed c A) = or_changed c A"
    unfolding or_changed_def by (rule ext) (metis apply_change_twice)
  show "changed c (or_changed c A) = changed c A"
    unfolding or_changed_def changed_def by (rule ext) (metis apply_change_twice)
qed

lemma certain_change:
  assumes "certain A K" "change_of g n (fst ev) = Some c"
  shows "certain (or_changed c A) (group_step g n K ev)"
proof -
  have "d = c" if "(case snd ev of Inr (RPoller i) \<Rightarrow> Some (i, c) | _ \<Rightarrow> None) = Some (i, d)" for i d
    using that by (auto split: sum.splits resp.splits)
  with assms show ?thesis by (auto simp: certain_def group_step_def or_changed_def)
qed

lemma certain_other:
  assumes "certain A K" "change_of g n (fst ev) = None"
  shows "certain A (group_step g n K ev)"
  using assms by (auto simp: certain_def group_step_def split: option.splits)

lemma certain_listing:
  assumes "certain A K"
  shows "certain (\<lambda>t. A t \<and> t = table_of rs) (group_step g n K (Network (ListRules g n), Inr (RRules rs)))"
  using assms by (auto simp: certain_def group_step_def)

lemma certain_finished:
  assumes "certain A K" "finishes i ev" "change_of g n q = Some c"
  shows "certain (changed c A) (group_step g n (group_step g n K (q, Inr (RPoller i))) ev)"
proof -
  have "change_of g n (fst ev) = None" "listed g n ev = None"
    using assms(2) by (cases "(i, ev)" rule: finishes.cases; simp)+
  then show ?thesis using assms by (auto simp: certain_def group_step_def changed_def)
qed

text \<open>Programs that ask for no change but some.\<close>

lemma wp_certain:
  assumes "emits (\<lambda>ev. \<forall>c. change_of g n (fst ev) = Some c \<longrightarrow> (\<forall>t. A t \<longrightarrow> A (apply_change c t))) p" "certain A K"
  shows "wp (group_monitor g n) p (\<lambda>_. certain A) (\<lambda>_. certain A) (certain A) K"
  unfolding wp_iff
proof (intro allI impI)
  fix es out
  assume "exec p es out"
  with assms(1) have "list_all (\<lambda>ev. \<forall>c. change_of g n (fst ev) = Some c \<longrightarrow> (\<forall>t. A t \<longrightarrow> A (apply_change c t))) es"
    by (rule emitsD)
  then have "certain A (foldl (group_step g n) K es)"
    using assms(2)
  proof (induction es arbitrary: K)
    case (Cons ev es)
    have "certain A (group_step g n K ev)"
    proof (cases "change_of g n (fst ev)")
      case None
      with Cons.prems(2) show ?thesis by (rule certain_other)
    next
      case (Some c)
      from certain_change [OF Cons.prems(2) Some] show ?thesis
        by (rule certain_mono) (use Cons.prems(1) Some in \<open>auto simp: or_changed_def\<close>)
    qed
    with Cons show ?case by simp
  qed simp
  then show "\<exists>K'. track (group_monitor g n) K es = Some K' \<and> post (\<lambda>_. certain A) (\<lambda>_. certain A) (certain A) out K'"
    by (cases out) (simp_all add: track_group)
qed

lemma wp_unaffected:
  assumes "emits (\<lambda>ev. change_of g n (fst ev) = None) p" "certain A K"
  shows "wp (group_monitor g n) p (\<lambda>_. certain A) (\<lambda>_. certain A) (certain A) K"
  using assms(2) by (rule wp_certain [rotated]) (rule emits_mono [OF assms(1)], simp)

lemma certain_possible:
  assumes "wp (group_monitor g n) p (\<lambda>x. certain (N x)) (\<lambda>e. certain (X e)) D ({t}, None)" "exec p es out"
  shows "(\<And>x. out = Ok x \<Longrightarrow> t' \<in> possible_tables g n t es \<Longrightarrow> N x t')"
    "(\<And>e. out = Err e \<Longrightarrow> t' \<in> possible_tables g n t es \<Longrightarrow> X e t')"
  using wpD [OF assms] by (auto simp: track_group possible_tables_def certain_def)

section \<open>One change\<close>

lemma wp_polled_change:
  assumes "change_of g n q = Some c" "certain A K"
  shows "wp (group_monitor g n) (poll_result (call q)) (\<lambda>_. certain (changed c A)) (\<lambda>_. certain (or_changed c A)) D K"
    "wp (group_monitor g n) (poll_wait (call q)) (\<lambda>_. certain (changed c A)) (\<lambda>_. certain (or_changed c A)) D K"
proof -
  note asked = certain_change [OF assms(2), where ev = "(q, v)" for v, unfolded fst_conv, OF assms(1)]
  have failed: "certain (or_changed c A) (group_step g n (group_step g n K (q, v)) (Poller pq, Inl e))" for v pq e
    by (rule certain_other [OF asked]) simp
  have result: "certain (changed c A) (group_step g n (group_step g n K (q, Inr (RPoller i))) (Poller (PollResult i), Inr v))"
    and wait: "certain (changed c A) (group_step g n (group_step g n K (q, Inr (RPoller i))) (Poller (PollWait i), Inr v))" for i v
    by (rule certain_finished [OF assms(2) _ assms(1)], simp)+
  have poller: "as_poller r = Some i \<Longrightarrow> r = RPoller i" for r i by (cases r) auto
  show "wp (group_monitor g n) (poll_result (call q)) (\<lambda>_. certain (changed c A)) (\<lambda>_. certain (or_changed c A)) D K"
    using asked failed result by (auto simp: wp_simps dest!: poller split: option.split)
  show "wp (group_monitor g n) (poll_wait (call q)) (\<lambda>_. certain (changed c A)) (\<lambda>_. certain (or_changed c A)) D K"
    using asked failed wait by (auto simp: wp_simps dest!: poller split: option.split)
qed

section \<open>Rules that are put\<close>

abbreviation put_change :: "security_rule \<Rightarrow> rule_change" where
  "put_change rule \<equiv> SetRule (sr_name rule) (Some rule)"

definition put_rules :: "security_rule list \<Rightarrow> rule_table \<Rightarrow> rule_table" where
  "put_rules rules t = foldl (\<lambda>t r. t(sr_name r \<mapsto> r)) t rules"

lemma put_rules_simps [simp]:
  "put_rules [] t = t" "put_rules (r # rs) t = put_rules rs (t(sr_name r \<mapsto> r))"
  by (simp_all add: put_rules_def)

lemma put_rules_other: "m \<notin> sr_name ` set rules \<Longrightarrow> put_rules rules t m = t m"
  by (induction rules arbitrary: t) auto

lemma put_rules_dom: "m \<in> sr_name ` set rules \<Longrightarrow> put_rules rules t m \<noteq> None"
proof (induction rules arbitrary: t)
  case (Cons r rules)
  then show ?case
    by (cases "m \<in> sr_name ` set rules") (auto simp: put_rules_other)
qed simp

lemma put_rules_last:
  "m \<in> sr_name ` set rules \<Longrightarrow> \<exists>rule \<in> set rules. sr_name rule = m \<and> put_rules rules t m = Some rule"
proof (induction rules arbitrary: t)
  case (Cons r rules)
  show ?case
  proof (cases "m \<in> sr_name ` set rules")
    case True
    with Cons.IH show ?thesis by fastforce
  next
    case False
    with Cons.prems show ?thesis by (auto simp: put_rules_other)
  qed
qed simp

lemma wp_put_rule:
  assumes "retry_law E" "prepare_security_group_rule rd dest p (AccessText ''Allow'') src = Inr rule" "certain A K"
  shows "wp (group_monitor g n) (create_network_security_group_rule E g n rd dest p src)
    (\<lambda>_. certain (changed (put_change rule) A)) (\<lambda>_. certain (or_changed (put_change rule) A)) (\<lambda>_. True) K"
  unfolding create_network_security_group_rule_def assms(2) sum.case
proof (rule wp_retried [OF assms(1), where I = "certain (or_changed (put_change rule) A)"])
  show "certain (or_changed (put_change rule) A) K"
    using assms(3) by (rule certain_mono) (simp add: or_changed_def)
  fix K assume K: "certain (or_changed (put_change rule) A) K"
  have "change_of g n (Network (PutRule g n (sr_name rule) rule)) = Some (put_change rule)" by simp
  from wp_polled_change(1) [OF this K, unfolded or_changed_idem]
  show "wp (group_monitor g n) (poll_result (call (Network (PutRule g n (sr_name rule) rule))))
      (\<lambda>_. certain (changed (put_change rule) A))
      (\<lambda>e K. certain (or_changed (put_change rule) A) K \<and> (retry_if_connection_error e \<longrightarrow> certain (or_changed (put_change rule) A) K))
      (\<lambda>_. True) K"
    by (rule wp_mono) simp_all
qed

lemma wp_rule_not_put:
  assumes "retry_law E" "prepare_security_group_rule rd dest p (AccessText ''Allow'') src = Inl e" "X e K"
  shows "wp mon (create_network_security_group_rule E g n rd dest p src) N X (\<lambda>_. True) K"
  unfolding create_network_security_group_rule_def assms(2) sum.case
  by (rule wp_retried [OF assms(1), where I = "\<lambda>K'. K' = K"]) (simp_all add: wp_simps assms(3))

lemma changed_outside:
  assumes "or_changed c A t" "c = put_change rule" "sr_name rule \<in> M"
  shows "\<exists>t0. A t0 \<and> (\<forall>m. m \<notin> M \<longrightarrow> t m = t0 m)"
proof -
  from assms(1,2) consider "A t" | t0 where "A t0" "t = t0(sr_name rule \<mapsto> rule)" by (auto simp: or_changed_def)
  then show ?thesis by cases (use assms(3) in \<open>auto intro: exI [of _ t] exI\<close>)
qed

text \<open>What the loop over the rules has put.\<close>

definition all_put :: "string \<Rightarrow> address \<Rightarrow> inbound_rule list \<Rightarrow> (rule_table \<Rightarrow> bool) \<Rightarrow> knowledge \<Rightarrow> bool" where
  "all_put dest src rds A K \<longleftrightarrow> (\<exists>rules. rules_for dest src rds (map sr_priority rules) rules \<and> length rules = length rds \<and>
     certain (\<lambda>t. \<exists>t0. A t0 \<and> t = put_rules rules t0) K)"

lemma all_put_Nil: "certain A K \<Longrightarrow> all_put dest src [] A K"
  by (auto simp: all_put_def rules_for_def elim: certain_mono)

lemma all_put_Cons:
  assumes "all_put dest src rds (changed (put_change rule) A) K"
    "prepare_security_group_rule rd dest p (AccessText ''Allow'') src = Inr rule"
  shows "all_put dest src (rd # rds) A K"
proof -
  from assms(1) obtain rules where rules: "rules_for dest src rds (map sr_priority rules) rules" "length rules = length rds"
    "certain (\<lambda>t. \<exists>t0. changed (put_change rule) A t0 \<and> t = put_rules rules t0) K" unfolding all_put_def by blast
  from rules(3) have "certain (\<lambda>t. \<exists>t0. A t0 \<and> t = put_rules (rule # rules) t0) K"
    by (rule certain_mono) (auto simp: changed_def)
  with rules(1,2) assms(2) prepared_priority [OF assms(2)] show ?thesis
    unfolding all_put_def by (intro exI [of _ "rule # rules"]) (simp add: rules_for_def)
qed

text \<open>
  The loop over the rules: when it is through, the rules were put one after the other; when it was
  stopped, nothing but rules of these names has changed.
\<close>

lemma wp_create_rules_table:
  assumes "retry_law E" "certain A K"
    and "\<And>rd p rule. rd \<in> set rds \<Longrightarrow> prepare_security_group_rule rd dest p (AccessText ''Allow'') src = Inr rule \<Longrightarrow>
      sr_name rule \<in> M"
  shows "wp (group_monitor g n) (create_rules E g n dest src gen rds) (\<lambda>_. all_put dest src rds A)
    (\<lambda>_. certain (\<lambda>t. \<exists>t0. A t0 \<and> (\<forall>m. m \<notin> M \<longrightarrow> t m = t0 m))) (\<lambda>_. True) K"
  using assms(2,3)
proof (induction rds arbitrary: A gen K)
  case Nil
  then show ?case by (simp add: all_put_Nil)
next
  case (Cons rd rds)
  let ?X = "\<lambda>_. certain (\<lambda>t. \<exists>t0. A t0 \<and> (\<forall>m. m \<notin> M \<longrightarrow> t m = t0 m))"
  have here: "?X e K" for e :: exn using Cons.prems(1) by (auto elim: certain_mono)
  show ?case
  proof (cases "generator_next gen")
    case (Inr pg)
    then obtain p gen' where nxt: "generator_next gen = Inr (p, gen')" by (cases pg) auto
    show ?thesis
    proof (cases "prepare_security_group_rule rd dest p (AccessText ''Allow'') src")
      case (Inl e)
      show ?thesis
        by (simp add: nxt wp_bnd) (rule wp_rule_not_put [where X = ?X, OF assms(1) Inl here])
    next
      case (Inr rule)
      have M: "sr_name rule \<in> M" using Cons.prems(2) [OF _ Inr] by simp
      have rest: "wp (group_monitor g n) (create_rules E g n dest src gen' rds) (\<lambda>_. all_put dest src (rd # rds) A) ?X
          (\<lambda>_. True) K1" if "certain (changed (put_change rule) A) K1" for K1
      proof (rule wp_mono [OF Cons.IH [OF that Cons.prems(2)]])
        fix e K2
        assume "certain (\<lambda>t. \<exists>t0. changed (put_change rule) A t0 \<and> (\<forall>m. m \<notin> M \<longrightarrow> t m = t0 m)) K2"
        then show "?X e K2" by (rule certain_mono) (use M in \<open>auto simp: changed_def\<close>)
      qed (simp_all add: all_put_Cons [OF _ Inr])
      have stopped: "?X e K1" if K1: "certain (or_changed (put_change rule) A) K1" for e :: exn and K1
        by (rule certain_mono [OF K1]) (rule changed_outside [OF _ refl M])
      show ?thesis
        by (simp add: nxt wp_bnd, rule wp_mono [OF wp_put_rule [OF assms(1) Inr Cons.prems(1)]])
          (use rest stopped in simp_all)
    qed
  qed (use here in simp)
qed

section \<open>Priorities stay distinct\<close>

definition distinct_priorities :: "rule_table \<Rightarrow> bool" where
  "distinct_priorities t \<longleftrightarrow>
     (\<forall>m m' r r'. t m = Some r \<longrightarrow> t m' = Some r' \<longrightarrow> sr_priority r = sr_priority r' \<longrightarrow> m = m')"

text \<open>The generator knows of every priority of the table from \<open>low\<close> on.\<close>

definition known_priorities :: "int \<Rightarrow> generator \<Rightarrow> rule_table \<Rightarrow> bool" where
  "known_priorities low gen t \<longleftrightarrow> distinct_priorities t \<and>
     (\<forall>m r. t m = Some r \<longrightarrow> low \<le> sr_priority r \<longrightarrow> sr_priority r \<in> generator_in_use gen)"

lemma known_priorities_step:
  assumes "known_priorities low gen t" "generator_valid gen" "low \<le> generator_low gen"
    "generator_next gen = Inr (p, gen')" "sr_priority rule = p"
  shows "known_priorities low gen' t" "known_priorities low gen' (t(sr_name rule \<mapsto> rule))"
proof -
  note new = priorities.nxt_in_use [OF assms(2,4)] priorities.nxt_fresh [OF assms(2,4)]
    priorities.nxt_above [OF assms(2,4)] priorities.gap_pos
  show "known_priorities low gen' t"
    using assms(1) new(1) by (auto simp: known_priorities_def)
  have fresh: "sr_priority r \<noteq> p" if "t m = Some r" for m r
    using that assms(1,3) new by (auto simp: known_priorities_def)
  with assms(1,5) new(1) show "known_priorities low gen' (t(sr_name rule \<mapsto> rule))"
    by (auto simp: known_priorities_def distinct_priorities_def split: if_splits dest: fresh)
qed

lemma wp_create_rules_priorities:
  assumes "retry_law E" "certain (known_priorities low gen) K" "generator_valid gen" "low \<le> generator_low gen"
  shows "wp (group_monitor g n) (create_rules E g n dest src gen rds)
    (\<lambda>_. certain distinct_priorities) (\<lambda>_. certain distinct_priorities) (\<lambda>_. True) K"
  using assms(2-4)
proof (induction rds arbitrary: gen K)
  case Nil
  then show ?case by (auto simp: known_priorities_def elim: certain_mono)
next
  case (Cons rd rds)
  have here: "certain distinct_priorities K"
    using Cons.prems(1) by (rule certain_mono) (simp add: known_priorities_def)
  obtain p gen' where nxt: "generator_next gen = Inr (p, gen')" and valid: "generator_valid gen'"
      and low: "generator_low gen + RULE_PRIORITY_INCREASE_STEP \<le> p" "generator_low gen' = p"
    using generator_next_spec [OF Cons.prems(2)] by metis
  have low': "low \<le> generator_low gen'"
    using low Cons.prems(3) priorities.gap_pos by simp
  show ?case
  proof (cases "prepare_security_group_rule rd dest p (AccessText ''Allow'') src")
    case (Inl e)
    show ?thesis
      by (simp add: nxt wp_bnd)
        (rule wp_rule_not_put [where X = "\<lambda>_. certain distinct_priorities", OF assms(1) Inl here])
  next
    case (Inr rule)
    note step = known_priorities_step [OF _ Cons.prems(2,3) nxt prepared_priority [OF Inr]]
    have known: "certain (known_priorities low gen') K1"
      if "certain (or_changed (put_change rule) (known_priorities low gen)) K1" for K1
      using that by (rule certain_mono) (auto simp: or_changed_def intro: step)
    have "wp (group_monitor g n) (create_rules E g n dest src gen' rds)
        (\<lambda>_. certain distinct_priorities) (\<lambda>_. certain distinct_priorities) (\<lambda>_. True) K1"
      if "certain (changed (put_change rule) (known_priorities low gen)) K1" for K1
      by (rule Cons.IH [OF known valid low'])
        (rule certain_mono [OF that], auto simp: changed_def or_changed_def)
    moreover have "certain distinct_priorities K1"
      if "certain (or_changed (put_change rule) (known_priorities low gen)) K1" for K1
      using known [OF that] by (rule certain_mono) (simp add: known_priorities_def)
    ultimately show ?thesis
      by (simp add: nxt wp_bnd, intro wp_mono [OF wp_put_rule [OF assms(1) Inr Cons.prems(1)]]) simp_all
  qed
qed

section \<open>The methods on tables\<close>

lemma certain_conj: "certain (\<lambda>t. A t \<and> B t) K \<longleftrightarrow> certain A K \<and> certain B K"
  by (auto simp: certain_def)

lemma table_of_mem: "table_of rs m = Some r \<Longrightarrow> r \<in> set rs \<and> sr_name r = m"
  unfolding table_of_def by (drule map_of_SomeD) auto

text \<open>
  Rules are created: \<open>A\<close> may be anything about the rules of other names. When the method returns, the
  rules were put, with distinct priorities; when it fails, nothing else has changed and the priorities
  are distinct as before.
\<close>

definition created :: "string \<Rightarrow> address \<Rightarrow> inbound_rule list \<Rightarrow> (rule_table \<Rightarrow> bool) \<Rightarrow> knowledge \<Rightarrow> bool" where
  "created dest src rds A K \<longleftrightarrow> all_put dest src rds A K \<and> certain distinct_priorities K"

text \<open>The loop, after the listing.\<close>

lemma wp_create_rules_listed:
  assumes "retry_law E" "certain (\<lambda>t. (A t \<and> distinct_priorities t) \<and> t = table_of existing) K"
    and names: "\<And>rd p rule. rd \<in> set rds \<Longrightarrow>
      prepare_security_group_rule rd dest p (AccessText ''Allow'') src = Inr rule \<Longrightarrow> sr_name rule \<in> M"
    and others: "\<And>t t0. A t0 \<Longrightarrow> (\<And>m. m \<notin> M \<Longrightarrow> t m = t0 m) \<Longrightarrow> A t"
  shows "wp (group_monitor g n)
    (create_rules E g n dest src (rule_priority_generator (map sr_priority existing) start) rds)
    (\<lambda>_. created dest src rds A) (\<lambda>_. certain (\<lambda>t. A t \<and> distinct_priorities t)) (\<lambda>_. True) K"
proof -
  let ?gen = "rule_priority_generator (map sr_priority existing) start"
  note start = rule_priority_generator_start [where existing = "map sr_priority existing" and start_from = start]
  have "certain (known_priorities (generator_low ?gen) ?gen) K"
    using assms(2) by (rule certain_mono) (auto simp: known_priorities_def start(2) dest!: table_of_mem intro!: start(3))
  from wp_create_rules_priorities [OF assms(1) this start(1) order_refl]
  have prio: "wp (group_monitor g n) (create_rules E g n dest src ?gen rds)
    (\<lambda>_. certain distinct_priorities) (\<lambda>_. certain distinct_priorities) (\<lambda>_. True) K" .
  have "certain A K" using assms(2) by (rule certain_mono) simp
  from wp_conj [OF prio wp_create_rules_table [OF assms(1) this names]] show ?thesis
  proof (rule wp_mono)
    fix e K3
    assume "certain distinct_priorities K3 \<and> certain (\<lambda>t. \<exists>t0. A t0 \<and> (\<forall>m. m \<notin> M \<longrightarrow> t m = t0 m)) K3"
    then show "certain (\<lambda>t. A t \<and> distinct_priorities t) K3"
      unfolding certain_conj [symmetric] by (rule certain_mono) (blast intro: others)
  qed (auto simp: created_def)
qed

lemma created_rules:
  assumes "created dest src rds A K"
  obtains rules where "rules_for dest src rds (map sr_priority rules) rules" "length rules = length rds"
    "certain (\<lambda>t. distinct_priorities t \<and> (\<exists>t0. A t0 \<and> t = put_rules rules t0)) K"
  using assms unfolding created_def all_put_def by (auto simp: certain_conj)

lemma created_quiet: "created dest src rds A K \<Longrightarrow> created dest src rds A (group_step g n K (Memory m, v))"
proof -
  have "certain B (group_step g n K (Memory m, v))" if "certain B K" for B
    using that by (rule certain_other) simp
  then show "created dest src rds A K \<Longrightarrow> created dest src rds A (group_step g n K (Memory m, v))"
    unfolding created_def all_put_def by blast
qed

lemma wp_create_network_security_group_rules:
  assumes "retry_law E" "certain (\<lambda>t. A t \<and> distinct_priorities t) K"
    and names: "\<And>rd p rule. rd \<in> set rds \<Longrightarrow>
      prepare_security_group_rule rd dest p (AccessText ''Allow'') src = Inr rule \<Longrightarrow> sr_name rule \<in> M"
    and others: "\<And>t t0. A t0 \<Longrightarrow> (\<And>m. m \<notin> M \<Longrightarrow> t m = t0 m) \<Longrightarrow> A t"
  shows "wp (group_monitor g n) (create_network_security_group_rules E g n rds dest lk start src)
    (\<lambda>_. created dest src rds A) (\<lambda>_. certain (\<lambda>t. A t \<and> distinct_priorities t)) (\<lambda>_. True) K"
  unfolding create_network_security_group_rules_def
proof (rule wp_retried [OF assms(1), where I = "certain (\<lambda>t. A t \<and> distinct_priorities t)"])
  fix K assume K: "certain (\<lambda>t. A t \<and> distinct_priorities t) K"
  let ?gen = "\<lambda>existing. rule_priority_generator (map sr_priority existing) start"
  let ?X = "\<lambda>_. certain (\<lambda>t. A t \<and> distinct_priorities t)"
  note quiet = certain_other [where ev = "(Memory m, v)" for m v, simplified]
  have listing: "?X e (group_step g n K1 (Network (ListRules g n), v))" if "?X e K1" for e :: exn and K1 v
    using that by (rule certain_other) simp
  have listed: "wp (group_monitor g n) (bnd (expect as_rules r) (\<lambda>existing. create_rules E g n dest src (?gen existing) rds))
      (\<lambda>_. created dest src rds A) ?X (\<lambda>_. True) (group_step g n K1 (Network (ListRules g n), Inr r))"
    if K1: "certain (\<lambda>t. A t \<and> distinct_priorities t) K1" for K1 r
  proof (cases "as_rules r")
    case None
    then show ?thesis using listing [OF K1] by (simp add: wp_simps)
  next
    case (Some existing)
    then have "r = RRules existing" by (cases r) auto
    with wp_create_rules_listed [OF assms(1) certain_listing [OF K1] names others] Some show ?thesis
      by (simp add: wp_simps)
  qed
  have inner: "wp (group_monitor g n) (bnd (call (Network (ListRules g n))) (\<lambda>r. bnd (expect as_rules r)
      (\<lambda>existing. create_rules E g n dest src (?gen existing) rds))) (\<lambda>_. created dest src rds A) ?X (\<lambda>_. True) K1"
    if K1: "certain (\<lambda>t. A t \<and> distinct_priorities t) K1" for K1
    using listed [OF K1] listing [OF K1] by (simp add: wp_bnd [of _ "call _"] wp_call allowed_group)
  show "wp (group_monitor g n) (no_result (with_lock lk (bnd (call (Network (ListRules g n)))
       (\<lambda>r. bnd (expect as_rules r) (\<lambda>existing. create_rules E g n dest src (?gen existing) rds)))))
     (\<lambda>_. created dest src rds A)
     (\<lambda>e K. ?X e K \<and> (retry_if_connection_error e \<longrightarrow> certain (\<lambda>t. A t \<and> distinct_priorities t) K)) (\<lambda>_. True) K"
    unfolding no_result_def wp_bnd [of _ "with_lock lk _"] wp_with_lock allowed_group wp.simps
  proof (intro allI wp_mono [OF inner [OF quiet [OF K]]])
  qed (use created_quiet quiet in simp_all)
qed (rule assms(2))

section \<open>Custom rules are removed\<close>

definition custom_name :: "string \<Rightarrow> bool" where
  "custom_name m \<longleftrightarrow> py_in ''custom_rule'' m"

definition without_custom :: "rule_table \<Rightarrow> rule_table" where
  "without_custom t = t |` {m. \<not> custom_name m}"

lemma without_custom_other: "\<not> custom_name m \<Longrightarrow> without_custom t m = t m"
  by (simp add: without_custom_def restrict_map_def)

lemma without_custom_eqI: "(\<And>m. \<not> custom_name m \<Longrightarrow> t m = t0 m) \<Longrightarrow> without_custom t = without_custom t0"
  by (auto simp: without_custom_def restrict_map_def)

lemma without_custom_twice [simp]: "without_custom (without_custom t) = without_custom t"
  by (simp add: without_custom_def)

lemma without_custom_delete: "custom_name m \<Longrightarrow> without_custom (t(m := v)) = without_custom t"
  by (rule without_custom_eqI) auto

lemma distinct_priorities_sub:
  "distinct_priorities t0 \<Longrightarrow> (\<And>m r. t m = Some r \<Longrightarrow> t0 m = Some r) \<Longrightarrow> distinct_priorities t"
  unfolding distinct_priorities_def by blast

lemma distinct_priorities_without_custom: "distinct_priorities t \<Longrightarrow> distinct_priorities (without_custom t)"
  by (erule distinct_priorities_sub) (auto simp: without_custom_def restrict_map_def split: if_splits)

text \<open>The custom rules that were listed and come before the rules still to be deleted are gone.\<close>

definition removed_until :: "rule_table \<Rightarrow> security_rule list \<Rightarrow> security_rule list \<Rightarrow> rule_table \<Rightarrow> bool" where
  "removed_until u rs done_rules t \<longleftrightarrow> without_custom t = u \<and> distinct_priorities t \<and>
     (\<forall>r \<in> set done_rules. t (sr_name r) = None) \<and> dom t \<subseteq> sr_name ` set rs"

lemma removed_until_step:
  assumes "removed_until u rs ys t" "is_custom_rule r"
  shows "removed_until u rs (ys @ [r]) (apply_change (SetRule (sr_name r) None) t)"
proof -
  let ?t = "t(sr_name r := None)"
  have sub: "t m = Some x" if "?t m = Some x" for m x
    using that by (cases "m = sr_name r") simp_all
  from assms(1) have t: "without_custom t = u" "distinct_priorities t" "\<forall>q \<in> set ys. t (sr_name q) = None"
      "dom t \<subseteq> sr_name ` set rs"
    by (simp_all add: removed_until_def)
  have "custom_name (sr_name r)" using assms(2) by (simp add: is_custom_rule_def custom_name_def)
  then have "without_custom ?t = u" using t(1) by (simp add: without_custom_delete)
  moreover have "distinct_priorities ?t" using t(2) sub by (rule distinct_priorities_sub)
  moreover have "\<forall>q \<in> set (ys @ [r]). ?t (sr_name q) = None" using t(3) by simp
  moreover have "dom ?t \<subseteq> sr_name ` set rs" using t(4) sub by blast
  ultimately show ?thesis by (simp add: removed_until_def)
qed

lemma removed_all:
  assumes "removed_until u rs (filter is_custom_rule rs) t"
  shows "t = u"
proof -
  have "t m = None" if "custom_name m" for m
  proof (rule ccontr)
    assume "t m \<noteq> None"
    then have "m \<in> dom t" by (simp add: domIff)
    then obtain r where r: "r \<in> set rs" "m = sr_name r" using assms by (auto simp only: removed_until_def)
    with that have "r \<in> set (filter is_custom_rule rs)" by (simp add: is_custom_rule_def custom_name_def)
    with assms have "t (sr_name r) = None" unfolding removed_until_def by blast
    with r \<open>t m \<noteq> None\<close> show False by simp
  qed
  then have "t m = without_custom t m" for m
    by (cases "custom_name m") (simp_all add: without_custom_other, simp add: without_custom_def)
  then show ?thesis using assms by (auto simp: removed_until_def)
qed

lemma wp_delete_custom_loop:
  assumes "certain (removed_until u rs []) K"
  shows "wp (group_monitor g n) (for_each (delete_rule g n) (filter is_custom_rule rs))
    (\<lambda>_. certain (\<lambda>t. t = u \<and> distinct_priorities t))
    (\<lambda>_. certain (\<lambda>t. without_custom t = u \<and> distinct_priorities t)) (\<lambda>_. True) K"
proof (rule wp_for_each_upto [where I = "\<lambda>ys. certain (removed_until u rs ys)", OF assms])
  fix ys r zs K2
  assume split: "filter is_custom_rule rs = ys @ r # zs" and K2: "certain (removed_until u rs ys) K2"
  have custom: "is_custom_rule r" using arg_cong [OF split, of set] by auto
  have "change_of g n (Network (DeleteRule g n (sr_name r))) = Some (SetRule (sr_name r) None)" by simp
  note polled = wp_polled_change(2) [OF this K2]
  have kept: "without_custom t = u \<and> distinct_priorities t" if "removed_until u rs zs t" for zs t
    using that by (simp add: removed_until_def)
  show "wp (group_monitor g n) (delete_rule g n r) (\<lambda>_. certain (removed_until u rs (ys @ [r])))
      (\<lambda>_. certain (\<lambda>t. without_custom t = u \<and> distinct_priorities t)) (\<lambda>_. True) K2"
    unfolding delete_rule_def wp_bnd [of _ "poll_wait _"] wp.simps
  proof (rule wp_mono [OF polled])
    fix K3 assume "certain (changed (SetRule (sr_name r) None) (removed_until u rs ys)) K3"
    then show "certain (removed_until u rs (ys @ [r])) K3"
      by (rule certain_mono) (auto simp only: changed_def intro: removed_until_step [OF _ custom])
  next
    fix e K3 assume "certain (or_changed (SetRule (sr_name r) None) (removed_until u rs ys)) K3"
    then show "certain (\<lambda>t. without_custom t = u \<and> distinct_priorities t) K3"
      by (rule certain_mono) (auto simp only: or_changed_def dest: kept removed_until_step [OF _ custom])
  qed simp
next
  fix K2 assume "certain (removed_until u rs (filter is_custom_rule rs)) K2"
  then show "certain (\<lambda>t. t = u \<and> distinct_priorities t) K2"
    by (rule certain_mono) (intro conjI removed_all, assumption, simp add: removed_until_def)
qed

lemma wp_delete_custom:
  assumes "retry_law E" "certain (\<lambda>t. without_custom t = u \<and> distinct_priorities t) K"
  shows "wp (group_monitor g n) (delete_custom_security_rules_from_nsg E g n lk)
    (\<lambda>_. certain (\<lambda>t. t = u \<and> distinct_priorities t))
    (\<lambda>_. certain (\<lambda>t. without_custom t = u \<and> distinct_priorities t)) (\<lambda>_. True) K"
  unfolding delete_custom_security_rules_from_nsg_def
proof (rule wp_retried [OF assms(1), where I = "certain (\<lambda>t. without_custom t = u \<and> distinct_priorities t)"])
  fix K assume K: "certain (\<lambda>t. without_custom t = u \<and> distinct_priorities t) K"
  let ?N = "\<lambda>_. certain (\<lambda>t. t = u \<and> distinct_priorities t)"
  let ?X = "\<lambda>_. certain (\<lambda>t. without_custom t = u \<and> distinct_priorities t)"
  note quiet = certain_other [where ev = "(Memory m, v)" for m v, simplified]
  have listing: "?X e (group_step g n K (Network (ListRules g n), v))" for e :: exn and v
    using K by (rule certain_other) simp
  have body: "wp (group_monitor g n) (bnd (expect as_rules r) (\<lambda>rs. with_lock lk
       (for_each (delete_rule g n) (filter is_custom_rule rs)))) ?N ?X (\<lambda>_. True)
     (group_step g n K (Network (ListRules g n), Inr r))" for r
  proof (cases "as_rules r")
    case None
    then show ?thesis using listing by (simp add: wp_simps)
  next
    case (Some rs)
    then have r: "r = RRules rs" by (cases r) auto
    have "certain (removed_until u rs []) (group_step g n K (Network (ListRules g n), Inr r))"
      unfolding r by (rule certain_mono [OF certain_listing [OF K]]) (auto simp: removed_until_def dest: table_of_mem)
    note acquired = quiet [OF this]
    show ?thesis
      unfolding wp_bnd wp_expect Some option.case wp_with_lock allowed_group
      by (intro allI, rule wp_mono [OF wp_delete_custom_loop [OF acquired]]) (simp_all add: quiet)
  qed
  show "wp (group_monitor g n) (no_result (bnd (call (Network (ListRules g n))) (\<lambda>r. bnd (expect as_rules r)
      (\<lambda>rs. with_lock lk (for_each (delete_rule g n) (filter is_custom_rule rs)))))) ?N
     (\<lambda>e K. ?X e K \<and> (retry_if_connection_error e \<longrightarrow> ?X e K)) (\<lambda>_. True) K"
    unfolding no_result_def wp_bnd [of _ "bnd (call _) _"] wp_bnd [of _ "call _"] wp_call allowed_group wp.simps
    using listing by (simp, intro allI wp_mono [OF body]) simp_all
qed (rule assms(2))

section \<open>The custom rules of an app are replaced\<close>

text \<open>
  A rule that the configurations ask for: the one of the port data at some place of a configuration, with
  the name of that place, for some address of the machine and with some priority.
\<close>

definition requested :: "string \<Rightarrow> security_group_configuration list \<Rightarrow> string \<Rightarrow> security_rule \<Rightarrow> bool" where
  "requested name configs m r \<longleftrightarrow> (\<exists>config \<in> set configs. \<exists>pds i dest p. sg_rules config = Some pds \<and> i < length pds \<and>
     m = custom_rule_name name dest i \<and>
     prepare_security_group_rule (APort ((pds ! i)\<lparr>pd_name := Some m\<rparr>)) dest p (AccessText ''Allow'') InternetHop = Inr r)"

text \<open>
  The table outside the names \<open>M\<close>: the rules that are not custom are those of \<open>u\<close>, the custom rules are
  requested, and every place of every configuration has its rule.
\<close>

definition replaced_but :: "string set \<Rightarrow> rule_table \<Rightarrow> string \<Rightarrow> security_group_configuration list \<Rightarrow> rule_table \<Rightarrow> bool" where
  "replaced_but M u name configs t \<longleftrightarrow> without_custom t = u \<and>
     (\<forall>m r. m \<notin> M \<longrightarrow> custom_name m \<longrightarrow> t m = Some r \<longrightarrow> requested name configs m r) \<and>
     (\<forall>config \<in> set configs. \<exists>pds dest. sg_rules config = Some pds \<and>
        (\<forall>i < length pds. custom_rule_name name dest i \<in> M \<or> t (custom_rule_name name dest i) \<noteq> None))"

abbreviation replaced :: "rule_table \<Rightarrow> string \<Rightarrow> security_group_configuration list \<Rightarrow> rule_table \<Rightarrow> bool" where
  "replaced \<equiv> replaced_but {}"

lemma custom_rule_name_custom: "custom_name (custom_rule_name name dest i)"
proof -
  have "custom_rule_name name dest i = [] @ ''custom_rule'' @ (''_'' @ nat_str i @ ''_for_'' @ name @ ''_to_'' @ dest)"
    by (simp add: custom_rule_name_def)
  then show ?thesis unfolding custom_name_def by (metis py_in_appendI)
qed

definition custom_names :: "string \<Rightarrow> string \<Rightarrow> port_data list \<Rightarrow> string set" where
  "custom_names name dest pds = custom_rule_name name dest ` {..< length pds}"

lemma length_name_custom_rules [simp]: "length (name_custom_rules name dest pds) = length pds"
  by (simp add: name_custom_rules_def)

lemma nth_name_custom_rules:
  "i < length pds \<Longrightarrow> name_custom_rules name dest pds ! i = (pds ! i)\<lparr>pd_name := Some (custom_rule_name name dest i)\<rparr>"
  by (simp add: name_custom_rules_def nth_enumerate_eq)

lemma named_rule:
  assumes "i < length pds"
    "prepare_security_group_rule (APort (name_custom_rules name dest pds ! i)) dest p acc src = Inr rule"
  shows "sr_name rule = custom_rule_name name dest i"
proof -
  have "name_custom_rules name dest pds ! i \<in> set (name_custom_rules name dest pds)" using assms(1) by simp
  then have "truthy (pd_name (name_custom_rules name dest pds ! i))" by (rule custom_rule_named)
  from port_rule_name [OF this assms(2)] show ?thesis by (simp add: nth_name_custom_rules [OF assms(1)])
qed

lemma rules_for_nth:
  assumes "rules_for dest src rds ps rules" "length ps = length rds" "i < length rds"
  shows "prepare_security_group_rule (rds ! i) dest (ps ! i) (AccessText ''Allow'') src = Inr (rules ! i)"
proof -
  have "map2 (\<lambda>rd p. prepare_security_group_rule rd dest p (AccessText ''Allow'') src) rds ps ! i = map Inr rules ! i"
    using assms(1) by (simp add: rules_for_def)
  moreover have "length rules = length rds"
    using arg_cong [OF assms(1) [unfolded rules_for_def], of length] assms(2) by simp
  ultimately show ?thesis using assms(2,3) by simp
qed

lemma replaced_others:
  assumes "replaced_but M u name configs t0" "\<And>m. m \<notin> M \<Longrightarrow> t m = t0 m" "\<And>m. m \<in> M \<Longrightarrow> custom_name m"
  shows "replaced_but M u name configs t"
proof -
  have "without_custom t = without_custom t0"
    by (rule without_custom_eqI) (use assms(2,3) in blast)
  then show ?thesis
    using assms(1,2) unfolding replaced_but_def by (metis (no_types, lifting))
qed

text \<open>The rules of one configuration, put on a table.\<close>

lemma custom_rules_put:
  assumes "rules_for dest InternetHop (map APort (name_custom_rules name dest pds)) (map sr_priority rules) rules"
    "length rules = length pds"
  shows "m \<notin> custom_names name dest pds \<Longrightarrow> put_rules rules t m = t m"
    "m \<in> custom_names name dest pds \<Longrightarrow> \<exists>i < length pds. m = custom_rule_name name dest i \<and>
       put_rules rules t m = Some (rules ! i) \<and>
       prepare_security_group_rule (APort ((pds ! i)\<lparr>pd_name := Some m\<rparr>)) dest (sr_priority (rules ! i))
         (AccessText ''Allow'') InternetHop = Inr (rules ! i)"
proof -
  have prep: "prepare_security_group_rule (APort (name_custom_rules name dest pds ! i)) dest (sr_priority (rules ! i))
      (AccessText ''Allow'') InternetHop = Inr (rules ! i)" if "i < length pds" for i
    using rules_for_nth [OF assms(1), of i] assms(2) that by simp
  note name = named_rule [OF _ prep]
  have set: "set rules = (!) rules ` {..< length pds}"
    using assms(2) by (auto simp: set_conv_nth)
  have names: "sr_name ` set rules = custom_names name dest pds"
    unfolding set image_image custom_names_def by (rule image_cong) (simp_all add: name)
  show "put_rules rules t m = t m" if "m \<notin> custom_names name dest pds"
    using that by (simp add: put_rules_other names)
  assume "m \<in> custom_names name dest pds"
  then obtain r where r: "r \<in> set rules" "sr_name r = m" "put_rules rules t m = Some r"
    using put_rules_last [of m rules t] names by auto
  then obtain i where i: "i < length pds" "r = rules ! i" using assms(2) by (auto simp: in_set_conv_nth)
  then have "m = custom_rule_name name dest i" using r(2) name by simp
  with prep [OF i(1)] r(3) i show "\<exists>i < length pds. m = custom_rule_name name dest i \<and> put_rules rules t m = Some (rules ! i) \<and>
      prepare_security_group_rule (APort ((pds ! i)\<lparr>pd_name := Some m\<rparr>)) dest (sr_priority (rules ! i))
        (AccessText ''Allow'') InternetHop = Inr (rules ! i)"
    by (intro exI [of _ i]) (simp add: nth_name_custom_rules [OF i(1)])
qed

text \<open>Every place of the configuration has its rule on the table, unless its name is in \<open>M\<close>.\<close>

definition has_rules :: "string set \<Rightarrow> string \<Rightarrow> rule_table \<Rightarrow> security_group_configuration \<Rightarrow> bool" where
  "has_rules M name t config \<longleftrightarrow> (\<exists>pds dest. sg_rules config = Some pds \<and>
     (\<forall>i < length pds. custom_rule_name name dest i \<in> M \<or> t (custom_rule_name name dest i) \<noteq> None))"

lemma has_rules_put:
  assumes "has_rules (custom_names name dest pds) name t0 config"
    "\<And>m. m \<in> custom_names name dest pds \<Longrightarrow> t m \<noteq> None" "\<And>m. m \<notin> custom_names name dest pds \<Longrightarrow> t m = t0 m"
  shows "has_rules {} name t config"
  using assms unfolding has_rules_def by (metis empty_iff)

lemma replaced_more:
  assumes "replaced_but (custom_names name dest pds) u name ys t0" "sg_rules config = Some pds"
    and rules: "rules_for dest InternetHop (map APort (name_custom_rules name dest pds)) (map sr_priority rules) rules"
      "length rules = length pds"
  shows "replaced u name (ys @ [config]) (put_rules rules t0)"
proof -
  let ?M = "custom_names name dest pds"
  note other = custom_rules_put(1) [OF rules, of _ t0] and inside = custom_rules_put(2) [OF rules, of _ t0]
  have custom: "custom_name m" if "m \<in> ?M" for m
    using that custom_rule_name_custom by (auto simp: custom_names_def)
  from assms(1) have before: "without_custom t0 = u"
      "\<And>m r. m \<notin> ?M \<Longrightarrow> custom_name m \<Longrightarrow> t0 m = Some r \<Longrightarrow> requested name ys m r"
      "\<And>c. c \<in> set ys \<Longrightarrow> has_rules ?M name t0 c"
    unfolding replaced_but_def has_rules_def by blast+
  have "without_custom (put_rules rules t0) = u"
    using before(1) without_custom_eqI [of "put_rules rules t0" t0] other custom by auto
  moreover have "requested name (ys @ [config]) m r" if "custom_name m" "put_rules rules t0 m = Some r" for m r
  proof (cases "m \<in> ?M")
    case True
    from inside [OF this] that(2) assms(2) show ?thesis unfolding requested_def by auto
  next
    case False
    with other that before(2) have "requested name ys m r" by simp
    then show ?thesis by (auto simp: requested_def)
  qed
  moreover have "has_rules {} name (put_rules rules t0) c" if "c \<in> set (ys @ [config])" for c
  proof -
    have put: "put_rules rules t0 m \<noteq> None" if "m \<in> ?M" for m using inside [OF that] by auto
    have "has_rules ?M name t0 config" using assms(2) unfolding has_rules_def custom_names_def by blast
    with that before(3) have "has_rules ?M name t0 c" by auto
    then show ?thesis using put other by (rule has_rules_put)
  qed
  ultimately show ?thesis unfolding replaced_but_def has_rules_def by simp
qed

lemma replaced_but_more: "replaced u name configs t \<Longrightarrow> replaced_but M u name configs t"
  unfolding replaced_but_def by (elim conjE, intro conjI) (blast, blast, blast)

lemma replaced_keeps: "replaced_but M u name configs t \<Longrightarrow> without_custom t = u"
  by (simp add: replaced_but_def)

lemma wp_bnd_unaffected:
  assumes "emits (\<lambda>ev. change_of g n (fst ev) = None) p" "certain A K"
    "\<And>x K. certain A K \<Longrightarrow> wp (group_monitor g n) (f x) N X (\<lambda>_. True) K" "\<And>e K. certain A K \<Longrightarrow> X e K"
  shows "wp (group_monitor g n) (bnd p f) N X (\<lambda>_. True) K"
  unfolding wp_bnd by (rule wp_mono [OF wp_unaffected [OF assms(1,2)]]) (use assms(3,4) in simp_all)

lemma wp_set_configuration:
  assumes "retry_law E" "certain (\<lambda>t. replaced u name ys t \<and> distinct_priorities t) K"
  shows "wp (group_monitor g (''NSG_'' @ name)) (set_configuration E g name lk cards config)
    (\<lambda>_. certain (\<lambda>t. replaced u name (ys @ [config]) t \<and> distinct_priorities t))
    (\<lambda>_. certain (\<lambda>t. without_custom t = u \<and> distinct_priorities t)) (\<lambda>_. True) K"
proof -
  let ?X = "\<lambda>_. certain (\<lambda>t. without_custom t = u \<and> distinct_priorities t)"
  have here: "?X e K" for e :: exn using assms(2) by (rule certain_mono) (auto dest: replaced_keeps)
  have created: "wp (group_monitor g n) (create_network_security_group_rules E g n
      (map APort (name_custom_rules name ip pds)) ip lk None InternetHop)
    (\<lambda>_. certain (\<lambda>t. replaced u name (ys @ [config]) t \<and> distinct_priorities t)) ?X (\<lambda>_. True) K"
    if "sg_rules config = Some pds" for ip pds n
  proof (rule wp_mono [OF wp_create_network_security_group_rules [OF assms(1),
        where A = "replaced_but (custom_names name ip pds) u name ys" and M = "custom_names name ip pds"]])
    show "certain (\<lambda>t. replaced_but (custom_names name ip pds) u name ys t \<and> distinct_priorities t) K"
      using assms(2) by (rule certain_mono) (auto dest: replaced_but_more)
    fix rd p rule
    assume "rd \<in> set (map APort (name_custom_rules name ip pds))"
      and prep: "prepare_security_group_rule rd ip p (AccessText ''Allow'') InternetHop = Inr rule"
    then obtain i where i: "i < length pds" "rd = APort (name_custom_rules name ip pds ! i)"
      by (auto simp: in_set_conv_nth)
    from named_rule [OF i(1)] prep i(1) show "sr_name rule \<in> custom_names name ip pds"
      unfolding i(2) by (auto simp: custom_names_def)
  next
    fix t t0 :: rule_table
    assume "replaced_but (custom_names name ip pds) u name ys t0" "\<And>m. m \<notin> custom_names name ip pds \<Longrightarrow> t m = t0 m"
    then show "replaced_but (custom_names name ip pds) u name ys t"
      by (rule replaced_others) (auto simp: custom_names_def custom_rule_name_custom)
  next
    fix K'
    assume "created ip InternetHop (map APort (name_custom_rules name ip pds)) (replaced_but (custom_names name ip pds) u name ys) K'"
    then obtain rules where
        rules: "rules_for ip InternetHop (map APort (name_custom_rules name ip pds)) (map sr_priority rules) rules"
        "length rules = length pds" and K': "certain (\<lambda>t. distinct_priorities t \<and>
          (\<exists>t0. replaced_but (custom_names name ip pds) u name ys t0 \<and> t = put_rules rules t0)) K'"
      by (auto elim: created_rules)
    from K' show "certain (\<lambda>t. replaced u name (ys @ [config]) t \<and> distinct_priorities t) K'"
      by (rule certain_mono) (auto intro: replaced_more [OF _ that rules])
  next
    fix e K'
    assume "certain (\<lambda>t. replaced_but (custom_names name ip pds) u name ys t \<and> distinct_priorities t) K'"
    then show "?X e K'" by (rule certain_mono) (auto dest: replaced_keeps)
  qed simp
  show ?thesis
    unfolding set_configuration_def wp_bnd wp_raising Let_def
    by (auto simp only: wp.simps wp_bnd wp_first here created split: sum.split option.split list.split)
qed

section \<open>The command\<close>

lemma wp_set_configurations:
  assumes "retry_law E" "certain (\<lambda>t. t = u \<and> distinct_priorities t) K" "without_custom u = u"
  shows "wp (group_monitor g (''NSG_'' @ name)) (for_each (set_configuration E g name lk cards) configs)
    (\<lambda>_. certain (\<lambda>t. replaced u name configs t \<and> distinct_priorities t))
    (\<lambda>_. certain (\<lambda>t. without_custom t = u \<and> distinct_priorities t)) (\<lambda>_. True) K"
proof (rule wp_for_each_upto [where I = "\<lambda>ys. certain (\<lambda>t. replaced u name ys t \<and> distinct_priorities t)"])
  have "u m = None" if "custom_name m" for m
    using that assms(3) by (metis (mono_tags) mem_Collect_eq restrict_map_def without_custom_def)
  then show "certain (\<lambda>t. replaced u name [] t \<and> distinct_priorities t) K"
    using assms(2,3) by (auto simp: replaced_but_def elim!: certain_mono)
qed (rule wp_set_configuration [OF assms(1)])

lemma wp_set_app_security_groups:
  assumes "retry_law E" "distinct_priorities t"
  shows "wp (group_monitor g (''NSG_'' @ asg_app_name model)) (set_app_security_groups E items g model)
    (\<lambda>_. certain (\<lambda>t'. distinct_priorities t' \<and> (\<exists>configs. asg_security_group_configurations model = Some configs \<and>
       replaced (without_custom t) (asg_app_name model) configs t')))
    (\<lambda>_. certain (\<lambda>t'. without_custom t' = without_custom t \<and> distinct_priorities t')) (\<lambda>_. True) ({t}, None)"
    (is "wp ?mon _ ?N ?X _ _")
proof -
  let ?n = "''NSG_'' @ asg_app_name model" and ?u = "without_custom t"
  have lock: "emits (\<lambda>ev. change_of g ?n (fst ev) = None) (get_resource_lock k)" for k
    by (intro emits_intros) simp
  have machine: "emits (\<lambda>ev. change_of g ?n (fst ev) = None) (bnd (get_vm E g (asg_app_name model)) (expect as_vm))"
    by (intro emits_intros emits_get_vm assms(1)) simp
  have cards: "emits (\<lambda>ev. change_of g ?n (fst ev) = None) (create_nic_to_subnet_name_map instnc g)" for instnc
    unfolding create_nic_to_subnet_name_map_def by (intro emits_intros) simp
  have keep: "?X e K" if "certain (\<lambda>t. t = ?u \<and> distinct_priorities t) K" for e :: exn and K
    using that by (rule certain_mono) auto
  have configs: "wp ?mon (case asg_security_group_configurations model of None \<Rightarrow> Raise not_iterable
      | Some configs \<Rightarrow> for_each (set_configuration E g (asg_app_name model) lk cards) configs) ?N ?X (\<lambda>_. True) K"
    if "certain (\<lambda>t. t = ?u \<and> distinct_priorities t) K" for lk cards K
  proof (cases "asg_security_group_configurations model")
    case None
    then show ?thesis using keep [OF that] by simp
  next
    case (Some configs)
    show ?thesis
      unfolding Some option.case
      by (rule wp_mono [OF wp_set_configurations [OF assms(1) that without_custom_twice]]) (auto elim!: certain_mono)
  qed
  have start: "certain (\<lambda>t. without_custom t = ?u \<and> distinct_priorities t) ({t}, None)"
    by (rule certain_start) (use assms(2) in simp)
  have removed: "wp ?mon (bnd (bnd (get_vm E g (asg_app_name model)) (expect as_vm)) (\<lambda>instnc.
      bnd (create_nic_to_subnet_name_map instnc g) (\<lambda>nic_to_subnet_name_map.
      case asg_security_group_configurations model of None \<Rightarrow> Raise not_iterable
      | Some configs \<Rightarrow> for_each (set_configuration E g (asg_app_name model) lk (items nic_to_subnet_name_map)) configs)))
      ?N ?X (\<lambda>_. True) K"
    if "certain (\<lambda>t. t = ?u \<and> distinct_priorities t) K" for lk K
    by (intro wp_bnd_unaffected [OF machine that] wp_bnd_unaffected [OF cards]) (assumption | erule configs keep)+
  show ?thesis
    unfolding set_app_security_groups_def Let_def
  proof (rule wp_bnd_unaffected [OF lock start])
    fix lk K
    assume K: "certain (\<lambda>t. without_custom t = ?u \<and> distinct_priorities t) K"
    show "wp ?mon (thn (delete_custom_security_rules_from_nsg E g ?n lk) (bnd (bnd (get_vm E g (asg_app_name model)) (expect as_vm)) (\<lambda>instnc.
      bnd (create_nic_to_subnet_name_map instnc g) (\<lambda>nic_to_subnet_name_map.
      case asg_security_group_configurations model of None \<Rightarrow> Raise not_iterable
      | Some configs \<Rightarrow> for_each (set_configuration E g (asg_app_name model) lk (items nic_to_subnet_name_map)) configs))))
      ?N ?X (\<lambda>_. True) K"
      unfolding wp_bnd [of _ "delete_custom_security_rules_from_nsg _ _ _ _"]
      by (rule wp_mono [OF wp_delete_custom [OF assms(1) K]]) (use removed in simp_all)
  qed (erule certain_mono, simp)
qed


text \<open>The names the rules for the given data can get, whatever their priorities.\<close>

definition rule_names :: "string \<Rightarrow> address \<Rightarrow> inbound_rule list \<Rightarrow> string set" where
  "rule_names dest src rds = {sr_name rule | rule rd p. rd \<in> set rds \<and>
     prepare_security_group_rule rd dest p (AccessText ''Allow'') src = Inr rule}"

lemma rules_for_names:
  assumes "rules_for dest src rds (map sr_priority rules) rules" "length rules = length rds"
  shows "sr_name ` set rules \<subseteq> rule_names dest src rds"
proof
  fix m assume "m \<in> sr_name ` set rules"
  then obtain i where i: "i < length rds" "m = sr_name (rules ! i)" using assms(2) by (auto simp: in_set_conv_nth)
  have "prepare_security_group_rule (rds ! i) dest (map sr_priority rules ! i) (AccessText ''Allow'') src = Inr (rules ! i)"
    by (rule rules_for_nth [OF assms(1) _ i(1)]) (simp add: assms(2))
  with i show "m \<in> rule_names dest src rds"
    unfolding rule_names_def by (auto intro!: exI [of _ "rules ! i"] exI [of _ "rds ! i"])
qed

text \<open>
  C6: Creating rules never gives two rules of a group the same priority - Azure would refuse the rule -
  if no two had the same before, and leaves the rules of other names as they are, whatever Azure answers
  and however it ends. When it returns, the rules for the given data have been put, one after the other;
  attempts that failed before have left at most rules of the same data.
\<close>

theorem priorities_stay_distinct:
  assumes "retry_law E" "exec (create_network_security_group_rules E g n rds dest lk start src) es out"
    and "distinct_priorities t" "t' \<in> possible_tables g n t es"
  shows "distinct_priorities t' \<and> (\<forall>m. m \<notin> rule_names dest src rds \<longrightarrow> t' m = t m) \<and>
    (\<forall>r. out = Ok r \<longrightarrow> (\<exists>rules t0. rules_for dest src rds (map sr_priority rules) rules \<and> length rules = length rds \<and>
       (\<forall>m. m \<notin> rule_names dest src rds \<longrightarrow> t0 m = t m) \<and> t' = put_rules rules t0))"
proof -
  let ?M = "rule_names dest src rds"
  let ?A = "\<lambda>t'. \<forall>m. m \<notin> ?M \<longrightarrow> t' m = t m"
  have "certain (\<lambda>t. ?A t \<and> distinct_priorities t) ({t}, None)"
    by (rule certain_start) (simp add: assms(3))
  note creation = wp_create_network_security_group_rules [OF assms(1) this, where M = ?M]
  have wp: "wp (group_monitor g n) (create_network_security_group_rules E g n rds dest lk start src)
    (\<lambda>_. created dest src rds ?A) (\<lambda>_. certain (\<lambda>t. ?A t \<and> distinct_priorities t)) (\<lambda>_. True) ({t}, None)"
    by (rule creation) (auto simp: rule_names_def)
  from wpD [OF wp assms(2)] assms(4) show ?thesis
    using haltsD [OF halts_create_network_security_group_rules [OF assms(1)]] assms(2)
  proof (cases out)
    case (Ok r)
    from wpD [OF wp assms(2)] Ok have "created dest src rds ?A (foldl (group_step g n) ({t}, None) es)"
      by (simp add: track_group)
    then obtain rules where rules: "rules_for dest src rds (map sr_priority rules) rules" "length rules = length rds"
        and K: "certain (\<lambda>t. distinct_priorities t \<and> (\<exists>t0. ?A t0 \<and> t = put_rules rules t0))
          (foldl (group_step g n) ({t}, None) es)" by (rule created_rules)
    from K assms(4) obtain t0 where t': "distinct_priorities t'" "?A t0" "t' = put_rules rules t0"
      by (auto simp: certain_def possible_tables_def)
    have "?A t'" using t'(2,3) put_rules_other rules_for_names [OF rules] by (metis subsetD)
    with t' rules Ok show ?thesis by blast
  qed (auto simp: track_group possible_tables_def certain_def)
qed

section \<open>A concrete run\<close>

definition old_custom :: security_rule where
  "old_custom = sample_rule ''custom_rule_3_for_vm1_to_10.1.0.4'' 1010"

definition new_custom :: security_rule where
  "new_custom = \<lparr>sr_name = ''custom_rule_0_for_vm1_to_10.1.0.4'', sr_access = AccessText ''Allow'',
     sr_direction = ''Inbound'', sr_source_address_prefix = Addr ''10.0.0.0/24'', sr_source_port_range = ''*'',
     sr_destination_address_prefix = ''10.1.0.4'', sr_destination_port_range = ''80'', sr_priority = 1005,
     sr_protocol = Proto ''tcp''\<rparr>"

definition sample_replacement :: "unit prog" where
  "sample_replacement = set_app_security_groups sample_env rev ''r-1'' (sample_app_groups ! 0)"

definition sample_replacement_run :: "event list" where
  "sample_replacement_run = (let l = ResourceLock 0; list = Network (ListRules ''r-1'' ''NSG_vm1'') in
    [(Memory (DictHas LockDictionary [''NSG_vm1'']), Inr (RBool True)),
     (Memory (DictGet LockDictionary [''NSG_vm1'']), Inr (RLock l)),
     (list, Inr (RRules [sample_rule ''rule_1000'' 1000, old_custom])),
     (Memory (Acquire l), Inr RNone),
     (Network (DeleteRule ''r-1'' ''NSG_vm1'' (sr_name old_custom)), Inr (RPoller 0)),
     (Poller (PollWait 0), Inr RNone),
     (Memory (Release l), Inr RNone),
     (Compute (GetVm ''r-1'' ''vm1''), Inr (RVm sample_machine)),
     (Network (GetNic ''r-1'' ''nic''), Inr (RNic sample_card)),
     (Memory (Acquire l), Inr RNone),
     (list, Inr (RRules [sample_rule ''rule_1000'' 1000])),
     (Network (PutRule ''r-1'' ''NSG_vm1'' (sr_name new_custom) new_custom), Inl (ClientRequestError [])),
     (Network (PutRule ''r-1'' ''NSG_vm1'' (sr_name new_custom) new_custom), Inr (RPoller 1)),
     (Poller (PollResult 1), Inr (RRule new_custom)),
     (Memory (Release l), Inr RNone)])"

lemma sample_replacement_exec: "exec sample_replacement sample_replacement_run (Ok ())"
  by (rule exec_replay [where vs = "map snd sample_replacement_run"]) code_simp

definition sample_table :: rule_table where
  "sample_table = table_of [sample_rule ''rule_1000'' 1000, old_custom]"

lemma sample_replacement_table:
  "possible_tables ''r-1'' ''NSG_vm1'' sample_table sample_replacement_run =
    {table_of [sample_rule ''rule_1000'' 1000, new_custom]}"
proof -
  have names: "sr_name (sample_rule n p) = n" "sr_name old_custom = ''custom_rule_3_for_vm1_to_10.1.0.4''"
      "sr_name new_custom = ''custom_rule_0_for_vm1_to_10.1.0.4''" for n p
    by (simp_all add: sample_rule_def old_custom_def new_custom_def)
  have removed: "sample_table(''custom_rule_3_for_vm1_to_10.1.0.4'' := None) = table_of [sample_rule ''rule_1000'' 1000]"
    by (rule ext) (simp add: sample_table_def table_of_def names)
  have added: "(table_of [sample_rule ''rule_1000'' 1000])(''custom_rule_0_for_vm1_to_10.1.0.4'' \<mapsto> new_custom) =
      table_of [sample_rule ''rule_1000'' 1000, new_custom]"
    by (rule ext) (simp add: table_of_def names)
  have again: "(table_of [sample_rule ''rule_1000'' 1000, new_custom])(''custom_rule_0_for_vm1_to_10.1.0.4'' \<mapsto> new_custom) =
      table_of [sample_rule ''rule_1000'' 1000, new_custom]"
    unfolding added [symmetric] by simp
  show ?thesis
    by (simp add: possible_tables_def sample_replacement_run_def Let_def group_step_def names removed added again
      sample_table_def [symmetric])
qed

lemma sample_table_priorities: "distinct_priorities sample_table"
  by (auto simp: distinct_priorities_def sample_table_def table_of_def sample_rule_def old_custom_def split: if_splits)


text \<open>A rule is put although the first request for it got no answer.\<close>

definition sample_created_table :: rule_table where
  "sample_created_table = table_of [sample_rule ''r1'' 1000, sample_rule ''r2'' 1005]"

lemma sample_created_possible:
  "put_rules [sample_rule ''rule_1010'' 1010] sample_created_table \<in>
    possible_tables ''rg'' ''NSG_a'' sample_created_table sample_create_run"
proof -
  have names: "sr_name (sample_rule n p) = n" for n p by (simp add: sample_rule_def)
  show ?thesis
    by (simp add: possible_tables_def sample_create_run_def Let_def group_step_def names sample_created_table_def [symmetric])
qed

theorem priorities_stay_distinct_witness:
  "distinct_priorities (put_rules [sample_rule ''rule_1010'' 1010] sample_created_table)"
proof -
  have "distinct_priorities sample_created_table"
    by (auto simp: distinct_priorities_def sample_created_table_def table_of_def sample_rule_def split: if_splits)
  from priorities_stay_distinct [OF sample_env_law sample_create_exec this sample_created_possible]
  show ?thesis by blast
qed

end
