(* ===== verification/Findings.thy ===== *)
theory Findings
  imports LockRaces Driver Exclusion
begin

text \<open>
  What the models show of the code that it does not mean to do: each lemma belongs to one place of the
  source, which it names.
\<close>

section \<open>Names and rules\<close>

text \<open>
  \<^verbatim>\<open>name_provider.py\<close>: dashes at the beginning are removed before the other characters, so a name can
  still begin with one.
\<close>

lemma leading_dash_left: "strip_special ''_-app'' = ''-app''"
  by code_simp

text \<open>\<^verbatim>\<open>security_group.py\<close>: a rule is taken for a custom rule when its name contains the text anywhere.\<close>

lemma custom_rule_anywhere: "is_custom_rule (sample_rule ''not_a_custom_rule'' 1000)"
  by code_simp

section \<open>Deployments\<close>

text \<open>
  \<^verbatim>\<open>deploy_operation.py\<close>: when the sandbox has no subnet, the request for the network card is \<^verbatim>\<open>None\<close>, and
  the exception for this case is not raised. The roll back of such a deployment raises an exception itself
  before it has called anything of the network.
\<close>

lemma missing_subnet_unnoticed:
  assumes "\<And>s. s \<in> set subnets \<Longrightarrow> \<not> py_in g (sn_name s)"
  shows "default_nic_requests g subnets name = [None]"
  using assms by (simp add: default_nic_requests_def find_None_iff)

lemma rollback_without_subnet:
  assumes "retry_law E" "exec (rollback_deployed_resources E g [None] name m ips res) es out"
  shows "(\<exists>e. out = Err e) \<and> list_all (\<lambda>ev. \<forall>q. fst ev \<noteq> Network q) es"
proof -
  have "emits (\<lambda>ev. \<forall>q. fst ev \<noteq> Network q) (VmService.delete_vm E g name)"
    by (intro emits_delete_vm assms(1)) simp_all
  moreover have "\<not> exec (VmService.delete_vm E g name) es' Hang" for es'
    using haltsD [OF halts_vm_service(2) [OF assms(1)]] .
  moreover have "exec (for_each f [None]) es' out' \<Longrightarrow> f None = Raise e \<Longrightarrow> es' = [] \<and> out' = Err e"
    for f :: "nic_request option \<Rightarrow> unit prog" and es' out' e
    by (simp add: exec_simps)
  ultimately show ?thesis
    using assms(2) unfolding rollback_deployed_resources_def
    by (auto simp: exec_bnd interface_name_def raising_def exec_simps dest: emitsD)
qed

text \<open>
  A connection whose subnet is not found is left out without a word; when no subnet is found, the
  deployment goes on without network cards until the machine is to be requested, which ends in an
  \<^verbatim>\<open>IndexError\<close>.
\<close>

lemma missing_connections_left_out:
  assumes "\<And>c s. c \<in> set connections \<Longrightarrow> s \<in> set subnets \<Longrightarrow> sn_name s \<noteq> scp_subnet_id c"
  shows "connection_nic_requests connections subnets name = []" "prepare_network_interfaces [] = Inl IndexError"
proof -
  have none: "connection_nic_request subnets name ic = None" if "snd ic \<in> set connections" for ic
    using that assms by (auto simp: connection_nic_request_def find_None_iff split: prod.split)
  have "connection_nic_request subnets name ic = None" if "ic \<in> set (List.enumerate 0 (by_device_index connections))" for ic
    using that nth_mem [of "fst ic" "sort_key device_index connections"]
    by (intro none) (simp add: in_set_enumerate_eq by_device_index_def)
  then show "connection_nic_requests connections subnets name = []"
    by (simp add: connection_nic_requests_def map_filter_def filter_empty_conv)
qed (simp add: prepare_network_interfaces_def)

text \<open>
  A machine is given addresses from the pool exactly if the allocation method of the cloud provider is
  \<^verbatim>\<open>Cloudshell Allocation\<close>, but the roll back gives them back only if it is \<^verbatim>\<open>static\<close>.
\<close>

lemma pool_addresses_kept:
  assumes "retry_law E"
  shows "to_azure_type ''Cloudshell Allocation'' = StaticAllocation"
    "emits (\<lambda>ev. \<forall>q. fst ev \<noteq> Session q) (rollback_deployed_resources E g nrs name ''Cloudshell Allocation'' ips res)"
proof -
  have methods: "py_lower ''Cloudshell Allocation'' = ''cloudshell allocation''" by code_simp
  then show "to_azure_type ''Cloudshell Allocation'' = StaticAllocation" by (simp add: to_azure_type_def)
  show "emits (\<lambda>ev. \<forall>q. fst ev \<noteq> Session q) (rollback_deployed_resources E g nrs name ''Cloudshell Allocation'' ips res)"
    unfolding rollback_deployed_resources_def
    by (auto simp: methods only_if_def intro!: emits_intros emits_delete_vm emits_delete_nic emits_delete_ip
        emits_delete_nsg_artifacts assms)
qed

text \<open>
  The rules for the additional management networks let the internet in, whatever the networks are.
\<close>

lemma additional_networks_open:
  assumes "net \<in> set (cp_additional_mgmt_networks cp)"
  shows "\<exists>rule. (rule, 3000, InternetHop) \<in> set (vm_nsg_rules cp dm cidr) \<and>
    (\<forall>p r. prepare_security_group_rule rule ''*'' p (AccessText ''Allow'') InternetHop = Inr r \<longrightarrow>
       sr_source_address_prefix r = InternetHop \<and> sr_destination_address_prefix r = ''*'' \<and> sr_access r = AccessAllow)"
  using assms
  by (intro exI [of _ "any_traffic_rule AccessAllow (''Allow_'' @ py_replace CHR ''/'' ''-'' net)"])
    (auto simp: vm_nsg_rules_def any_traffic_rule_def rule_data_init_def prepare_security_group_rule_def Let_def)

section \<open>A machine that is deleted by halves\<close>

text \<open>
  \<^verbatim>\<open>azure_shell.py\<close>: the command answers success when the deletion of the rules ends in \<^verbatim>\<open>Not Found\<close>.
\<close>

fun without_groups :: "request \<Rightarrow> answer" where
  "without_groups (Network (ListNsgs g)) = Inl (CloudError ''Not Found'' ''the group is gone'' [])"
| "without_groups (Compute q) = sample_azure (Compute q)"
| "without_groups (Network q) = sample_azure (Network q)"
| "without_groups (Poller q) = sample_azure (Poller q)"
| "without_groups q = signed_in q"

definition sample_endpoint_context :: command_context where
  "sample_endpoint_context = sample_context\<lparr>cc_remote_endpoints := Some [\<lparr>re_fullname = ''vm'', re_address = [],
     re_attributes = [], re_name = ''vm'', re_custom_params = [], re_deployment_attributes = []\<rparr>]\<rparr>"

lemma half_deleted_machine_succeeds:
  "outcome_of without_groups (delete_azure_vm sample_env sample_endpoint_context) = Ok () \<and>
   (case outcome_of without_groups (DeleteVm.delete sample_env ''r-1'' ''vm'') of Err e \<Rightarrow> True | _ \<Rightarrow> False)"
  by (rule conjI) code_simp+

section \<open>A copied blob without an address\<close>

text \<open>
  \<^verbatim>\<open>storage_service.py\<close>: a thread that asks for the blob between the writes of the state and of the
  result gets no address, although the copy has succeeded.
\<close>

definition sample_copiers :: "string option prog list" where
  "sample_copiers = replicate 2 (copy_blob sample_env ''rg'' ''acc'' ''images'' ''disk'' ''https://acc.blob/vhds/disk'' ''rg'')"

definition sample_copy_memory :: memory where
  "sample_copy_memory = put_entry CachedBlobServices [''rg'', ''acc''] (RStr ''service'') empty_memory"

definition sample_copy_script :: "(nat \<times> answer) list" where
  "sample_copy_script = map (\<lambda>v. (0, Inr v))
     [RNone, RNone, RNone, RNone, RNone, RNone, RInt 0, RStr ''sas'', RStr ''from'', RNone, RBool True, RStr ''to'', RNone, RNone] @
     replicate 3 (1, Inr RNone)"

lemma copied_without_address_run:
  "map_option (\<lambda>(s, ps). (mem_copied s [''acc'', ''images'', ''disk''], returned (ps ! 1)))
     (run_script sample_copy_script (sample_copy_memory, sample_copiers)) =
   Some (Some (CopySuccess, None), Some None)"
  by code_simp

lemma copied_without_address:
  "\<exists>s ps. Threads.reachable (sample_copy_memory, sample_copiers) (s, ps) \<and> ps ! 1 = Return None \<and>
     mem_copied s [''acc'', ''images'', ''disk''] = Some (CopySuccess, None)"
proof -
  obtain s ps where "run_script sample_copy_script (sample_copy_memory, sample_copiers) = Some (s, ps)"
      "mem_copied s [''acc'', ''images'', ''disk''] = Some (CopySuccess, None)" "returned (ps ! 1) = Some None"
    using copied_without_address_run by auto
  then show ?thesis by (auto simp: returned_Some dest: run_script_reachable)
qed

end
