(* ===== verification/Spec2Isabelle.thy ===== *)
theory Spec2Isabelle
  imports RuleParsers LockService SecurityGroups VmService Storage Credentials VmExtension VmDetails DeleteVm
    PrepareInfra DeployVm DeployResults AppOperations Clients LockRaces ModelParser Autoload Shell Driver Exclusion GroupState Findings
begin

text \<open>
  A model of the CloudShell provider for Azure (\<^verbatim>\<open>src/package/cloudshell/cp/azure\<close>, below without this
  prefix, and \<^verbatim>\<open>src/drivers/azure_shell\<close>): how a sandbox is prepared and cleaned up, how virtual machines
  are deployed, deleted and managed in it, how their network security is kept, and what these commands
  guarantee. The program is Python 2; it keeps almost no state of its own and does its work by calls to
  Azure, to CloudShell and to the memory its threads share.

  \<^bold>\<open>The program and its parts.\<close> The driver (\<^verbatim>\<open>driver.py\<close>) hands each command to the shell
  (\<^verbatim>\<open>azure_shell.py\<close>), which makes the model of the cloud provider from the attributes of the resource
  (\<^verbatim>\<open>common/parsers/azure_model_parser.py\<close>) and the clients of the subscription (\<^verbatim>\<open>common/azure_clients.py\<close>,
  of which one instance is kept), and runs one operation (\<^verbatim>\<open>domain/vm_management/operations\<close> and
  \<^verbatim>\<open>domain/networking_management/operations\<close>). Operations use the services (\<^verbatim>\<open>domain/services\<close>), and these
  call Azure, in most cases through a retry decorator. Threads share the lock of the subnets, the provider
  of locks, and the caches of the storage and key services.

  \<^bold>\<open>How a method is modelled.\<close> A method is a tree of calls, of type \<^typ>\<open>'a prog\<close> (\<^theory_text>\<open>Prog\<close>): it returns,
  raises an exception, goes on forever, or makes a call and goes on with the answer. \<^theory_text>\<open>Calls\<close> has one
  constructor per method of the SDK, of the session, of the runtime and per access to shared memory, and
  the answers; \<^theory_text>\<open>AzureModel\<close> has the exceptions, the model classes and the fields of SDK objects that are
  read; \<^theory_text>\<open>Prelude\<close> has Python's string and list behaviour. \<open>bnd\<close>, \<open>catch\<close>, \<open>with_lock\<close>, \<open>for_each\<close> and the
  like are Python's sequencing, \<^verbatim>\<open>try\<close>, \<^verbatim>\<open>with\<close> and loops. \<open>exec p es out\<close> is a run with the calls and answers
  \<open>es\<close>: answers are any values and any exceptions, so a statement about all runs holds whatever Azure
  answers. An answer of a type the code cannot use ends in an exception, as an attribute error would.
  Every exception of the code is a constructor of \<^typ>\<open>exn\<close>; log messages are left out.

  \<^bold>\<open>Parameters.\<close> Code that is not part of the repository is a field of \<open>env\<close> or an argument: the decorator of
  the package \<^verbatim>\<open>retrying\<close>, with its documented behaviour as the hypothesis \<open>retry_law\<close> (\<^theory_text>\<open>Retrying\<close>; a loop that
  obeys it is given there); \<^verbatim>\<open>IPNetwork\<close> of \<^verbatim>\<open>netaddr\<close>; \<^verbatim>\<open>single\<close> and \<^verbatim>\<open>first_or_default\<close> of \<^verbatim>\<open>cloudshell.cp.core\<close>,
  with \<open>single_law\<close> and \<open>first_or_default_law\<close>; the order of dictionary items where it matters; how the constants of
  the SDK for protocols are printed; and the schedule of the thread that makes the keys.

  \<^bold>\<open>Bounds.\<close> The loops that poll an operation may never end. They are followed for \<open>loop_bound\<close> rounds, a
  parameter; a run that needs more counts as one that does not end (\<open>Hang\<close>). What is stated of runs that
  return holds for every bound, and the waiter's property says that it goes on only if the operation was not
  ready in any of the rounds. All other loops go over lists.

  \<^bold>\<open>The logic.\<close> \<^theory_text>\<open>Prog\<close> has what holds of all calls of all runs (\<open>emits\<close>) and termination (\<open>halts\<close>); \<^theory_text>\<open>Monitor\<close> has
  weakest preconditions over a monitor that reads the calls (\<open>wp\<close>), the discipline of a lock (\<open>keeps_lock\<close>)
  and what results satisfy (\<open>yields\<close>); \<^theory_text>\<open>Retrying\<close> has what every run that returns has called (\<open>makes\<close>); \<^theory_text>\<open>Parallel\<close> has a task
  beside the caller, \<^theory_text>\<open>Threads\<close> any number of threads over one memory, \<^theory_text>\<open>Exclusion\<close> that a lock kept by each
  of them gives mutual exclusion. \<^theory_text>\<open>Evaluation\<close> and \<^theory_text>\<open>SampleRuns\<close> compute concrete runs for the witnesses.

  \<^bold>\<open>Components.\<close>
  \<^item> \<^theory_text>\<open>RuleParsers\<close>: \<^verbatim>\<open>rules_attribute_parser.py\<close>, \<^verbatim>\<open>port_group_attribute_parser.py\<close>, \<^verbatim>\<open>security_group_parser.py\<close>,
    \<^verbatim>\<open>custom_param_extractor.py\<close>, \<^verbatim>\<open>app_ports_operation.py\<close>. The accepted texts are those of a grammar, and printed
    rules are parsed back.
  \<^item> \<^theory_text>\<open>Names\<close>: \<^verbatim>\<open>name_provider.py\<close>, \<^verbatim>\<open>tags.py\<close>, \<^verbatim>\<open>azure_resource_id_parser.py\<close>, \<^verbatim>\<open>cidr_helper.py\<close>,
    \<^verbatim>\<open>ip_allocation_helper.py\<close>, \<^verbatim>\<open>command_cancellation.py\<close>. Bounds and characters of names, names read back from ids.
  \<^item> \<^theory_text>\<open>LockService\<close> and \<^theory_text>\<open>LockRaces\<close>: \<^verbatim>\<open>lock_service.py\<close>. Any number of threads get one lock per key, without failure or
    deadlock, as long as no key is removed at the same time; with a removal, reading can fail.
  \<^item> \<^theory_text>\<open>Networks\<close>: \<^verbatim>\<open>ip_service.py\<close>, \<^verbatim>\<open>network_service.py\<close>. The rules and groups of a machine are deleted, and no others.
  \<^item> \<^theory_text>\<open>Priorities\<close> and \<^theory_text>\<open>SecurityGroups\<close>: \<^verbatim>\<open>security_group.py\<close>. Priorities are fresh and at least five apart (proved in the
    locale \<open>fresh_numbers\<close>); rules are put in order, once each up to retries, and only under the lock; custom rules are deleted.
  \<^item> \<^theory_text>\<open>VmService\<close>: \<^verbatim>\<open>task_waiter.py\<close>, \<^verbatim>\<open>virtual_machine_service.py\<close>, \<^verbatim>\<open>image_data.py\<close>. Waiting ends when the operation is
    ready; requested machines have a valid disk and one primary card.
  \<^item> \<^theory_text>\<open>Storage\<close> and \<^theory_text>\<open>Credentials\<close>: \<^verbatim>\<open>storage_service.py\<close>, \<^verbatim>\<open>key_pair.py\<close>, \<^verbatim>\<open>vm_credentials_service.py\<close>,
    \<^verbatim>\<open>access_key_operation.py\<close>. Caches change under their locks, a copied blob is never left unfinished, addresses and keys are
    read back, passwords have the required shape.
  \<^item> \<^theory_text>\<open>VmExtension\<close>, \<^theory_text>\<open>VmDetails\<close>: \<^verbatim>\<open>vm_extension.py\<close>, \<^verbatim>\<open>url_helper.py\<close>, \<^verbatim>\<open>vm_details_provider.py\<close>, \<^verbatim>\<open>vm_details_operation.py\<close>.
  \<^item> \<^theory_text>\<open>DeleteVm\<close>: \<^verbatim>\<open>delete_operation.py\<close>. What a deletion that returns has deleted, in which order, and that a failed one has
    released nothing; the cleanup runs all steps and reports their failures, and touches only its own subnets.
  \<^item> \<^theory_text>\<open>PrepareInfra\<close>: \<^verbatim>\<open>PrepareSandboxInfraOperation.py\<close>. Results, that the rules, given apart from the code by what they
    allow and deny, are put before the subnets are made, changes under the lock, and when stale subnets are deleted.
  \<^item> \<^theory_text>\<open>NetworkActions\<close>: \<^verbatim>\<open>network_actions_models.py\<close>, \<^verbatim>\<open>connection_params.py\<close>, \<^verbatim>\<open>network_actions.py\<close>.
  \<^item> \<^theory_text>\<open>DeployVm\<close> and \<^theory_text>\<open>DeployResults\<close>: \<^verbatim>\<open>deploy_operation.py\<close>. The action that creates the machine is an argument of the
    generic deployment; what the deployment relies on is the locale \<open>vm_creation\<close>, which the actions for custom images and for
    the marketplace interpret. A failed deployment is rolled back, one that returns has asked for all its parts and removed
    nothing, one that is not allowed makes nothing.
  \<^item> \<^theory_text>\<open>AppOperations\<close>: \<^verbatim>\<open>power_operation.py\<close>, \<^verbatim>\<open>refresh_ip_operation.py\<close>, \<^verbatim>\<open>ip_operation.py\<close>, \<^verbatim>\<open>add_route_operation.py\<close>,
    \<^verbatim>\<open>set_app_security_groups.py\<close>. Refreshing gives CloudShell the addresses Azure has; setting groups changes custom rules only.
  \<^item> \<^theory_text>\<open>DataHolder\<close>: \<^verbatim>\<open>deploy_data_holder.py\<close>. In the objects made of decoded JSON no dictionary is left, they have all the
    entries, and reading their attributes is going down the dictionaries.
  \<^item> \<^theory_text>\<open>Clients\<close>, \<^theory_text>\<open>ModelParser\<close>, \<^theory_text>\<open>Autoload\<close>, \<^theory_text>\<open>Shell\<close>: \<^verbatim>\<open>azure_clients.py\<close>, \<^verbatim>\<open>singletons.py\<close>, \<^verbatim>\<open>azure_model_parser.py\<close>,
    \<^verbatim>\<open>autoload_operation.py\<close>, \<^verbatim>\<open>subscription.py\<close>, \<^verbatim>\<open>azure_shell.py\<close>. What an inventory has checked, what a deployment
    answers, and that queries change nothing.
  \<^item> \<^theory_text>\<open>Driver\<close>: \<^verbatim>\<open>driver.py\<close>. All commands of the driver as one datatype, what each runs, and that none changes anything on
    Azure outside the resource group of its sandbox but subnets of the shared network; every
    command but a deployment comes to an end when its calls are answered.
  \<^item> \<^theory_text>\<open>GroupState\<close>: the rules a security group has on Azure, as a table by name, and the set of tables that are possible after
    the calls of a run. It is assumed that nobody else changes the group meanwhile, that a listing shows the rules it has,
    and that a change that was asked for happens as a whole and before the next call for the group, or not at all; it has
    happened when its poller has finished. On these tables creating rules keeps priorities distinct, and setting the rules
    of an app implements the replacement of its custom rules, with any number of failures and repeated requests.
  \<^item> \<^theory_text>\<open>Findings\<close>: places where the code does not do what it means to, each with a lemma.
  \<^item> \<^theory_text>\<open>Exclusion\<close>: commands at the same time. At most one of them is where subnets, or the rules under one lock, are changed
    (proved in the locale \<open>locked_commands\<close>, which the commands on subnets and those on rules interpret).

  \<^bold>\<open>Not modelled.\<close> The contexts for logging, error handling and the session of CloudShell; \<^verbatim>\<open>jsonpickle\<close>: requests are
  given in their decoded form, to the commands of the shell as records of the fields they read, and results before they
  are encoded; the wiring of the services in the constructor of the shell; what calls change inside storage accounts, which are not resource
  groups, in the statement of \<^theory_text>\<open>Driver\<close>. Unused
  code: \<^verbatim>\<open>resource_context.py\<close>, \<^verbatim>\<open>handlers.py\<close>, \<^verbatim>\<open>deployment_helper.py\<close>, \<^verbatim>\<open>cryptography_service.py\<close>, \<^verbatim>\<open>deploy_result_model.py\<close>,
  \<^verbatim>\<open>azure_resource_model.py\<close>, the profiler and the second copies of \<^verbatim>\<open>custom_param_extractor.py\<close> and
  \<^verbatim>\<open>command_results_parser.py\<close>. Tests, templates and the data model of the driver.
\<close>

end
